(* ===== verification/Prelude.thy ===== *)
theory Prelude
  imports Main "HOL-Library.AList"
begin

text \<open>
  Shared vocabulary of the development. The Python code mutates objects and raises
  exceptions that unwind through several calls; every operation of the model is therefore
  a function from the current world to an outcome (an exception \<open>Inl e\<close> or a value
  \<open>Inr x\<close>) paired with the world after the call. An exception does not roll back the
  mutations made before it, exactly as in Python, so the world is returned on both
  branches. \<open>bindE\<close> sequences two such computations and stops at the first exception.
  The theory also collects the lemmas on association lists (the model of Python
  dictionaries, kept in insertion order) that the component theories share.
\<close>

named_theorems exc_simps "equations of the world-passing combinators"
named_theorems dict_simps "lookup and update facts for dictionaries as association lists"

type_synonym ('e, 's, 'a) exc = "'s \<Rightarrow> ('e + 'a) \<times> 's"

definition ok :: "'a \<Rightarrow> ('e, 's, 'a) exc" where
  "ok x s = (Inr x, s)"

definition throw :: "'e \<Rightarrow> ('e, 's, 'a) exc" where
  "throw e s = (Inl e, s)"

definition bindE :: "('e, 's, 'a) exc \<Rightarrow> ('a \<Rightarrow> ('e, 's, 'b) exc) \<Rightarrow> ('e, 's, 'b) exc" where
  "bindE m k s = (case m s of (Inl e, s') \<Rightarrow> (Inl e, s') | (Inr a, s') \<Rightarrow> k a s')"

text \<open>A Python list comprehension over a list: the calls run in order, the first exception
  stops the comprehension.\<close>

fun mapE :: "('a \<Rightarrow> ('e, 's, 'b) exc) \<Rightarrow> 'a list \<Rightarrow> ('e, 's, 'b list) exc" where
  "mapE f [] = ok []"
| "mapE f (x # xs) = bindE (f x) (\<lambda>y. bindE (mapE f xs) (\<lambda>ys. ok (y # ys)))"

text \<open>A Python \<open>for\<close> loop whose body's result is discarded.\<close>

fun forE :: "('a \<Rightarrow> ('e, 's, 'b) exc) \<Rightarrow> 'a list \<Rightarrow> ('e, 's, unit) exc" where
  "forE f [] = ok ()"
| "forE f (x # xs) = bindE (f x) (\<lambda>_. forE f xs)"

lemma bindE_cong [fundef_cong]:
  "m s = m' s \<Longrightarrow> (\<And>a s'. m' s = (Inr a, s') \<Longrightarrow> k a s' = k' a s') \<Longrightarrow>
   bindE m k s = bindE m' k' s"
  by (auto simp: bindE_def split: prod.splits sum.splits)

lemma bindE_ok [simp, exc_simps]: "bindE (ok x) k = k x"
  by (simp add: bindE_def ok_def fun_eq_iff)

lemma bindE_throw [simp, exc_simps]: "bindE (throw e) k = throw e"
  by (simp add: bindE_def throw_def fun_eq_iff)

lemma bindE_assoc [exc_simps]: "bindE (bindE m k) h = bindE m (\<lambda>a. bindE (k a) h)"
  by (simp add: bindE_def fun_eq_iff split: prod.splits sum.splits)

lemma bindE_Inr [exc_simps]: "m s = (Inr a, s') \<Longrightarrow> bindE m k s = k a s'"
  by (simp add: bindE_def)

lemma bindE_Inl [exc_simps]: "m s = (Inl e, s') \<Longrightarrow> bindE m k s = (Inl e, s')"
  by (simp add: bindE_def)

lemma ok_apply [simp, exc_simps]: "ok x s = (Inr x, s)"
  by (simp add: ok_def)

lemma throw_apply [simp, exc_simps]: "throw e s = (Inl e, s)"
  by (simp add: throw_def)

lemma bindE_Inr_iff:
  "bindE m k s = (Inr b, s'') \<longleftrightarrow> (\<exists>a s'. m s = (Inr a, s') \<and> k a s' = (Inr b, s''))"
  by (auto simp: bindE_def split: prod.splits sum.splits)

lemma bindE_Inl_iff:
  "bindE m k s = (Inl e, s'') \<longleftrightarrow>
     m s = (Inl e, s'') \<or> (\<exists>a s'. m s = (Inr a, s') \<and> k a s' = (Inl e, s''))"
  by (auto simp: bindE_def split: prod.splits sum.splits)

lemma mapE_length:
  "mapE f xs s = (Inr ys, s') \<Longrightarrow> length ys = length xs"
proof (induction xs arbitrary: s s' ys)
  case Nil
  then show ?case by simp
next
  case (Cons x xs)
  show ?case
  proof (cases "f x s")
    case (Pair r s1)
    show ?thesis
    proof (cases r)
      case (Inl e)
      with Cons.prems Pair show ?thesis by (simp add: bindE_def)
    next
      case (Inr y)
      with Cons.prems Pair have "bindE (mapE f xs) (\<lambda>ys. ok (y # ys)) s1 = (Inr ys, s')"
        by (simp add: bindE_def)
      then show ?thesis using Cons.IH by (auto simp: bindE_def split: prod.splits sum.splits)
    qed
  qed
qed
text \<open>Computations that never raise and never change a chosen part of the state.\<close>

lemma mapE_pure:
  assumes "\<And>x. x \<in> set xs \<Longrightarrow> f x s = (Inr (g x), s)"
  shows "mapE f xs s = (Inr (map g xs), s)"
  using assms by (induction xs) (simp_all add: bindE_def)

subsection \<open>Dictionaries as association lists\<close>

text \<open>
  A Python dictionary is modelled as an association list with distinct keys:
  \<open>AList.update\<close> overwrites a present key in place and appends a new one, so the list
  also records the insertion order that iteration over the dictionary follows.
\<close>

lemma map_of_update_same [dict_simps]: "map_of (AList.update k v al) k = Some v"
  by (simp add: update_conv')

lemma map_of_update_other [dict_simps]:
  "k' \<noteq> k \<Longrightarrow> map_of (AList.update k v al) k' = map_of al k'"
  by (simp add: update_conv')

lemma keys_update [dict_simps]: "set (map fst (AList.update k v al)) = insert k (set (map fst al))"
  by (induction al) auto

lemma distinct_keys_update [dict_simps]:
  "distinct (map fst al) \<Longrightarrow> distinct (map fst (AList.update k v al))"
  by (rule distinct_update)

lemma map_of_update_mono [dict_simps]:
  "map_of al k' = Some v' \<Longrightarrow> k' \<noteq> k \<Longrightarrow> map_of (AList.update k v al) k' = Some v'"
  by (simp add: update_conv')

lemma set_update_subset [dict_simps]: "set (AList.update k v al) \<subseteq> insert (k, v) (set al)"
  by (induction al) auto

lemma update_new [dict_simps]: "map_of al k = None \<Longrightarrow> AList.update k v al = al @ [(k, v)]"
  by (induction al) (auto split: if_splits)

lemma map_of_None_keys [dict_simps]: "map_of al k = None \<longleftrightarrow> k \<notin> set (map fst al)"
  by (induction al) auto

end
