(* ===== verification/PyVal.thy ===== *)
theory PyVal
  imports Prelude
begin

text \<open>
  The Python 2 values that flow through \<open>src/gremlinpy/gremlin.py\<close>: the literals a
  user passes to the builder (strings, integers, booleans, \<open>None\<close>), lists and tuples
  (after \<open>fix_value\<close> a tuple is a list), slices (built by \<open>Gremlin.__getitem__\<close>),
  references to builder objects (\<open>Gremlin\<close> instances, identified by their heap address),
  predicates (\<open>Predicate\<close> and its named subclasses \<open>eq\<close>, \<open>neq\<close>, \ldots) and
  declarative statements (\<open>Statement\<close>, an external class, identified by address).
  Here also live the exceptions the code raises and Python 2's \<open>str\<close> and \<open>repr\<close> on
  the values whose text does not depend on the heap: decimal integers (with the \<open>L\<close>
  suffix of \<open>long\<close>), the quoting and escaping of \<open>str.__repr__\<close>, lists and slices.
\<close>

section \<open>Values and exceptions\<close>

datatype pyval =
    VStr string
  | VInt int
  | VBool bool
  | VNone
  | VList "pyval list"
  | VSlice pyval pyval pyval
  | VGremlin nat
  | VPred pred
  | VStmt nat
and pred = Pred (pred_class: string) (pred_function: "string option") (pred_args: "pyval list")

text \<open>
  \<open>Pred cls fn args\<close>: the predicate's class name, its \<open>_function\<close> attribute
  (\<open>None\<close> when the instance has none: a bare \<open>Predicate\<close> that was not built by
  \<open>_p\<close>) and its argument list after \<open>fix_value\<close>.
\<close>

datatype pyerr =
    TypeError
  | AttributeError
  | RecursionError
  | PredicateError string
  | OutsideModel

text \<open>
  \<open>RecursionError\<close> stands for Python 2's \<open>RuntimeError: maximum recursion depth
  exceeded\<close>; the model's recursion budget (the fuel of the recursive operations) plays
  the role of the interpreter's recursion limit. \<open>OutsideModel\<close> is not a Python
  exception: it is the outcome of a call whose effect involves objects the model does not
  represent (a non-token node in a chain, a statement's unknown fragment, a parent that is
  neither a builder nor a predicate), so no theorem about such a call speaks of Python.
\<close>

section \<open>Truthiness and integer kinds\<close>

text \<open>\<open>not x\<close> in Python 2: the builder, predicate and statement classes define neither
  \<open>__nonzero__\<close> nor \<open>__len__\<close>, so their instances are true.\<close>

fun py_truthy :: "pyval \<Rightarrow> bool" where
  "py_truthy (VStr s) = (s \<noteq> [])"
| "py_truthy (VInt i) = (i \<noteq> 0)"
| "py_truthy (VBool b) = b"
| "py_truthy VNone = False"
| "py_truthy (VList xs) = (xs \<noteq> [])"
| "py_truthy (VSlice a b c) = True"
| "py_truthy (VGremlin g) = True"
| "py_truthy (VPred p) = True"
| "py_truthy (VStmt s) = True"

text \<open>An integer literal is an \<open>int\<close> of Python 2 (64-bit \<open>sys.maxint\<close>) when it fits in
  a signed machine word; otherwise it is a \<open>long\<close>, which \<open>isinstance(v, int)\<close>
  rejects.\<close>

definition py2_is_int :: "int \<Rightarrow> bool" where
  "py2_is_int i \<longleftrightarrow> - (2 ^ 63) \<le> i \<and> i < 2 ^ 63"

text \<open>\<open>isinstance(value, (int, str, unicode, float, bool))\<close>: the values
  \<open>fix_value\<close> may bind as parameters (floats are not part of the model).\<close>

fun is_bindable_scalar :: "pyval \<Rightarrow> bool" where
  "is_bindable_scalar (VStr s) = True"
| "is_bindable_scalar (VInt i) = py2_is_int i"
| "is_bindable_scalar (VBool b) = True"
| "is_bindable_scalar _ = False"

section \<open>Decimal digits\<close>

definition dec_digit :: "nat \<Rightarrow> char" where
  "dec_digit d = char_of (48 + d)"

fun nat_str :: "nat \<Rightarrow> string" where
  "nat_str n = (if n < 10 then [dec_digit n] else nat_str (n div 10) @ [dec_digit (n mod 10)])"

declare nat_str.simps [simp del]

definition int_str :: "int \<Rightarrow> string" where
  "int_str i = (if i < 0 then CHR ''-'' # nat_str (nat (- i)) else nat_str (nat i))"

text \<open>Reading a decimal numeral back, digit by digit from the left.\<close>

definition digit_of_char :: "char \<Rightarrow> nat option" where
  "digit_of_char c = (if (48::nat) \<le> of_char c \<and> of_char c < (58::nat) then Some (of_char c - 48) else None)"

fun parse_digits :: "nat \<Rightarrow> string \<Rightarrow> nat option" where
  "parse_digits acc [] = Some acc"
| "parse_digits acc (c # cs) =
     (case digit_of_char c of None \<Rightarrow> None | Some d \<Rightarrow> parse_digits (10 * acc + d) cs)"

definition parse_nat :: "string \<Rightarrow> nat option" where
  "parse_nat s = (if s = [] then None else parse_digits 0 s)"

section \<open>Python 2 repr of strings\<close>

definition hex_digit :: "nat \<Rightarrow> char" where
  "hex_digit d = (if d < 10 then char_of (48 + d) else char_of (87 + d))"

text \<open>\<open>PyString_Repr\<close>: the quote is \<open>"\<close> when the text holds \<open>'\<close> and no
  \<open>"\<close>, otherwise \<open>'\<close>; the quote and the backslash are escaped, tab, newline and
  carriage return by name, other control and non-ASCII bytes as \<open>\xNN\<close>.\<close>

definition repr_quote :: "string \<Rightarrow> char" where
  "repr_quote s = (if CHR 0x27 \<in> set s \<and> CHR 0x22 \<notin> set s then CHR 0x22 else CHR 0x27)"

definition repr_char :: "char \<Rightarrow> char \<Rightarrow> string" where
  "repr_char q c =
     (if c = q \<or> c = CHR 0x5C then [CHR 0x5C, c]
      else if c = CHR 0x09 then [CHR 0x5C, CHR ''t'']
      else if c = CHR 0x0A then [CHR 0x5C, CHR ''n'']
      else if c = CHR 0x0D then [CHR 0x5C, CHR ''r'']
      else if of_char c < (32::nat) \<or> 127 \<le> (of_char c :: nat)
        then [CHR 0x5C, CHR ''x'', hex_digit (of_char c div 16), hex_digit (of_char c mod 16)]
      else [c])"

definition repr_str :: "string \<Rightarrow> string" where
  "repr_str s = (let q = repr_quote s in q # concat (map (repr_char q) s) @ [q])"

section \<open>Heap-independent text of values\<close>

text \<open>
  The default \<open>object.__repr__\<close> prints the class and the object's address,
  \<open><gremlinpy.gremlin.Gremlin object at 0x7f...>\<close>; the address is not part of the
  model, so the text stops after \<open>object\<close>. \<open>repr\<close> never reaches
  \<open>Gremlin.__getattr__\<close> (special methods are looked up on the type), so it has no
  effect on the world.
\<close>

definition object_repr :: "string \<Rightarrow> string" where
  "object_repr cls = ''<'' @ cls @ '' object>''"

text \<open>\<open>sep.join(ss)\<close> on a list of strings.\<close>

fun join_sep :: "string \<Rightarrow> string list \<Rightarrow> string" where
  "join_sep sep [] = []"
| "join_sep sep [s] = s"
| "join_sep sep (s # ss) = s @ sep @ join_sep sep ss"

fun py_repr :: "pyval \<Rightarrow> string" where
  "py_repr (VStr s) = repr_str s"
| "py_repr (VInt i) = (if py2_is_int i then int_str i else int_str i @ ''L'')"
| "py_repr (VBool b) = (if b then ''True'' else ''False'')"
| "py_repr VNone = ''None''"
| "py_repr (VList xs) = ''['' @ join_sep '', '' (map py_repr xs) @ '']''"
| "py_repr (VSlice a b c) = ''slice('' @ py_repr a @ '', '' @ py_repr b @ '', '' @ py_repr c @ '')''"
| "py_repr (VGremlin g) = object_repr ''gremlinpy.gremlin.Gremlin''"
| "py_repr (VPred p) = object_repr (''gremlinpy.gremlin.'' @ pred_class p)"
| "py_repr (VStmt s) = object_repr ''gremlinpy.statement.Statement''"

text \<open>\<open>str\<close> on the values whose text needs no heap; a builder and a predicate are
  rendered by the rendering theory.\<close>

fun str_plain :: "pyval \<Rightarrow> string option" where
  "str_plain (VStr s) = Some s"
| "str_plain (VInt i) = Some (int_str i)"
| "str_plain (VBool b) = Some (if b then ''True'' else ''False'')"
| "str_plain VNone = Some ''None''"
| "str_plain (VList xs) = Some (py_repr (VList xs))"
| "str_plain (VSlice a b c) = Some (py_repr (VSlice a b c))"
| "str_plain (VStmt s) = Some (py_repr (VStmt s))"
| "str_plain (VGremlin g) = None"
| "str_plain (VPred p) = None"

text \<open>\<open>', '.join(xs)\<close> in Python 2: every item must be a string, else \<open>TypeError\<close>.\<close>

fun join_strs :: "pyval list \<Rightarrow> pyerr + string list" where
  "join_strs [] = Inr []"
| "join_strs (VStr s # xs) = (case join_strs xs of Inl e \<Rightarrow> Inl e | Inr ss \<Rightarrow> Inr (s # ss))"
| "join_strs (_ # xs) = Inl TypeError"

definition py_join :: "string \<Rightarrow> pyval list \<Rightarrow> pyerr + string" where
  "py_join sep xs = (case join_strs xs of Inl e \<Rightarrow> Inl e | Inr ss \<Rightarrow> Inr (join_sep sep ss))"

section \<open>Lemmas\<close>

lemma digit_of_char_dec_digit [simp]: "d < 10 \<Longrightarrow> digit_of_char (dec_digit d) = Some d"
  by (simp add: digit_of_char_def dec_digit_def)

lemma nat_str_small: "n < 10 \<Longrightarrow> nat_str n = [dec_digit n]"
  by (simp add: nat_str.simps)

lemma nat_str_large: "\<not> n < 10 \<Longrightarrow> nat_str n = nat_str (n div 10) @ [dec_digit (n mod 10)]"
  by (subst nat_str.simps) simp

lemma dec_digit_simps [simp]:
  "dec_digit 0 = CHR ''0''" "dec_digit 1 = CHR ''1''" "dec_digit (Suc 0) = CHR ''1''" "dec_digit 2 = CHR ''2''"
  "dec_digit 3 = CHR ''3''" "dec_digit 4 = CHR ''4''" "dec_digit 5 = CHR ''5''" "dec_digit 6 = CHR ''6''"
  "dec_digit 7 = CHR ''7''" "dec_digit 8 = CHR ''8''" "dec_digit 9 = CHR ''9''"
  by code_simp+

lemma int_str_nonneg [simp]: "0 \<le> i \<Longrightarrow> int_str i = nat_str (nat i)"
  by (simp add: int_str_def)

lemma nat_str_nonempty [simp]: "nat_str n \<noteq> []"
  by (cases "n < 10") (simp_all add: nat_str_small nat_str_large)

lemma parse_digits_append:
  "parse_digits acc (xs @ ys) =
     (case parse_digits acc xs of None \<Rightarrow> None | Some a \<Rightarrow> parse_digits a ys)"
  by (induction acc xs rule: parse_digits.induct) (simp_all split: option.splits)

lemma parse_digits_nat_str:
  "parse_digits acc (nat_str n) = Some (acc * 10 ^ length (nat_str n) + n)"
proof (induction n arbitrary: acc rule: nat_str.induct)
  case (1 n)
  show ?case
  proof (cases "n < 10")
    case True
    then show ?thesis by (simp add: nat_str_small)
  next
    case False
    have IH: "parse_digits acc (nat_str (n div 10)) =
                Some (acc * 10 ^ length (nat_str (n div 10)) + n div 10)"
      using "1" False by simp
    have "n = 10 * (n div 10) + n mod 10" by simp
    then have "10 * (acc * 10 ^ length (nat_str (n div 10)) + n div 10) + n mod 10 =
               acc * 10 ^ Suc (length (nat_str (n div 10))) + n"
      by (simp add: algebra_simps)
    with False IH show ?thesis
      by (simp add: nat_str_large parse_digits_append)
  qed
qed

text \<open>Round trip: the decimal text of a number reads back as that number.\<close>

lemma parse_nat_nat_str [simp]: "parse_nat (nat_str n) = Some n"
  by (simp add: parse_nat_def parse_digits_nat_str)

lemma nat_str_inj [simp]: "nat_str m = nat_str n \<longleftrightarrow> m = n"
  by (metis option.inject parse_nat_nat_str)

lemma nat_str_digits: "set (nat_str n) \<subseteq> dec_digit ` {..<10}"
proof (induction n rule: nat_str.induct)
  case (1 n)
  show ?case
  proof (cases "n < 10")
    case True
    then show ?thesis by (simp add: nat_str_small)
  next
    case False
    have "n mod 10 < 10" by simp
    with False "1" show ?thesis by (simp add: nat_str_large)
  qed
qed

lemma dec_digit_not_underscore [simp]: "d < 10 \<Longrightarrow> dec_digit d \<noteq> CHR ''_''"
proof
  assume "d < 10" and "dec_digit d = CHR ''_''"
  then have "of_char (char_of (48 + d)) = (of_char CHR ''_'' :: nat)"
    by (simp add: dec_digit_def)
  with \<open>d < 10\<close> show False by (simp add: of_char_of)
qed

lemma underscore_notin_nat_str [simp]: "CHR ''_'' \<notin> set (nat_str n)"
proof
  assume "CHR ''_'' \<in> set (nat_str n)"
  with nat_str_digits [of n] obtain d where "d < 10" and "CHR ''_'' = dec_digit d"
    by blast
  then show False using dec_digit_not_underscore by metis
qed

lemma join_strs_VStr [simp]: "join_strs (map VStr ss) = Inr ss"
  by (induction ss) simp_all

lemma py_join_VStr [simp]: "py_join sep (map VStr ss) = Inr (join_sep sep ss)"
  by (simp add: py_join_def)

lemma join_strs_TypeError: "v \<in> set xs \<Longrightarrow> (\<nexists>s. v = VStr s) \<Longrightarrow> join_strs xs = Inl TypeError"
proof (induction xs rule: join_strs.induct)
  case (2 s xs)
  then show ?case by (auto split: sum.splits)
qed auto

end
