(* ===== verification/Tokens.thy ===== *)
theory Tokens
  imports PyVal
begin

text \<open>
  The token classes of \<open>src/gremlinpy/gremlin.py\<close> (lines 288--416) as a datatype of
  kinds, each with the class attributes \<open>concat\<close> and \<open>can_bind\<close> it declares or
  inherits, and a token as a record of its kind, its \<open>value\<close> and its \<open>args\<close> (a
  list: \<open>fix_value\<close> turns the argument tuple into a list). The token's \<open>gremlin\<close>
  back-reference is the builder whose chain holds it, and its \<open>next\<close> link is the
  chain order (theory \<open>Chain\<close>).

  The second half is the part of \<open>LinkList.__unicode__\<close> (lines 43--73) that decides
  separators: given the text of every token, in chain order and with the graph variable
  first, it inserts each token's \<open>concat\<close> marker under the conditions of the loop
  (\<open>len(tokens)\<close>, \<open>can_use\<close> of \<open>Gremlin\<close>, the graph-variable test on
  \<open>tokens[-1]\<close>). Its equivalence with the pairwise rule of the specification
  (\<open>chain_text\<close>) and the laws of the graph variable are proved here.
\<close>

datatype tkind =
    GraphVariable
  | Attribute
  | Function
  | FunctionRaw
  | UnboudFunction
  | UnboudFunctionRaw
  | Index
  | Closure
  | ClosureArguments
  | Raw

record token =
  kind :: tkind
  tvalue :: pyval
  targs :: "pyval list"

text \<open>The \<open>concat\<close> class attribute: \<open>Token\<close> declares \<open>''\<close>, \<open>Attribute\<close>,
  \<open>Function\<close> and \<open>UnboudFunction\<close> declare \<open>'.'\<close>, the raw variants \<open>''\<close>.\<close>

fun concat_of :: "tkind \<Rightarrow> string" where
  "concat_of Attribute = ''.''"
| "concat_of Function = ''.''"
| "concat_of UnboudFunction = ''.''"
| "concat_of _ = ''''"

text \<open>The \<open>can_bind\<close> class attribute: \<open>True\<close> for \<open>Function\<close> and its subclass
  \<open>FunctionRaw\<close>, \<open>False\<close> everywhere else.\<close>

fun can_bind :: "tkind \<Rightarrow> bool" where
  "can_bind Function = True"
| "can_bind FunctionRaw = True"
| "can_bind _ = False"

section \<open>The separator loop of LinkList.__unicode__\<close>

text \<open>
  One iteration per token: \<open>tokens\<close> is the list built so far and \<open>prev\<close> the kind
  of the previous token (initially the graph-variable token itself). The marker is added
  when \<open>tokens\<close> is non-empty, the token's \<open>concat\<close> is non-empty and
  \<open>Gremlin.can_use\<close> holds (the previous token is not \<open>Raw\<close>); after the graph
  variable only when its text \<open>tokens[-1]\<close> is non-empty.
\<close>

text \<open>\<open>Gremlin.can_use(prev, link)\<close> (lines 100--101), which overrides the
  \<open>LinkList\<close> default \<open>True\<close>: no marker after a \<open>Raw\<close> token.\<close>

definition can_use :: "tkind \<Rightarrow> tkind \<Rightarrow> bool" where
  "can_use prev link \<longleftrightarrow> prev \<noteq> Raw"

definition loop_step :: "tkind \<Rightarrow> string list \<Rightarrow> tkind \<Rightarrow> string \<Rightarrow> string list" where
  "loop_step prev tokens k s =
     tokens @
     (if tokens \<noteq> [] \<and> concat_of k \<noteq> [] \<and> can_use prev k then
        (if prev = GraphVariable then (if last tokens \<noteq> [] then [concat_of k] else [])
         else [concat_of k])
      else []) @ [s]"

fun render_loop :: "tkind \<Rightarrow> string list \<Rightarrow> (tkind \<times> string) list \<Rightarrow> string list" where
  "render_loop prev tokens [] = tokens"
| "render_loop prev tokens ((k, s) # rest) = render_loop k (loop_step prev tokens k s) rest"

definition join_chain :: "(tkind \<times> string) list \<Rightarrow> string" where
  "join_chain ts = concat (render_loop GraphVariable [] ts)"

text \<open>
  The rule of the specification (section 4.1), stated pairwise: before each token, its
  marker appears unless the marker is empty, the previous token is \<open>Raw\<close>, or the
  previous token is the graph variable with empty text.
\<close>

fun sep_before :: "tkind \<Rightarrow> string \<Rightarrow> tkind \<Rightarrow> string" where
  "sep_before pk ps k =
     (if concat_of k = [] \<or> pk = Raw \<or> (pk = GraphVariable \<and> ps = []) then [] else concat_of k)"

fun chain_text :: "tkind \<Rightarrow> string \<Rightarrow> (tkind \<times> string) list \<Rightarrow> string" where
  "chain_text pk ps [] = []"
| "chain_text pk ps ((k, s) # rest) = sep_before pk ps k @ s @ chain_text k s rest"

definition first_concat :: "(tkind \<times> string) list \<Rightarrow> string" where
  "first_concat ts = (case ts of [] \<Rightarrow> [] | (k, s) # _ \<Rightarrow> concat_of k)"

section \<open>Lemmas\<close>

lemma can_use_iff [simp]: "can_use prev link \<longleftrightarrow> prev \<noteq> Raw"
  by (simp add: can_use_def)

lemma render_loop_prefix:
  "acc' \<noteq> [] \<Longrightarrow> render_loop prev (acc @ acc') rest = acc @ render_loop prev acc' rest"
proof (induction rest arbitrary: prev acc')
  case Nil
  then show ?case by simp
next
  case (Cons ks rest)
  obtain k s where ks: "ks = (k, s)" by (cases ks)
  let ?sep = "(if concat_of k \<noteq> [] \<and> prev \<noteq> Raw then
                 (if prev = GraphVariable then (if last acc' \<noteq> [] then [concat_of k] else [])
                  else [concat_of k]) else [])"
  have "render_loop prev (acc @ acc') (ks # rest) = render_loop k ((acc @ acc') @ ?sep @ [s]) rest"
    using Cons.prems ks by (simp add: loop_step_def)
  also have "\<dots> = render_loop k (acc @ (acc' @ ?sep @ [s])) rest" by simp
  also have "\<dots> = acc @ render_loop k (acc' @ ?sep @ [s]) rest"
    by (rule Cons.IH) simp
  also have "\<dots> = acc @ render_loop prev acc' (ks # rest)"
    using Cons.prems ks by (simp add: loop_step_def)
  finally show ?case .
qed

lemma concat_render_loop:
  "concat (render_loop pk [ps] rest) = ps @ chain_text pk ps rest"
proof (induction rest arbitrary: pk ps)
  case Nil
  then show ?case by simp
next
  case (Cons ks rest)
  obtain k s where ks: "ks = (k, s)" by (cases ks)
  define sep where "sep = (if concat_of k \<noteq> [] \<and> pk \<noteq> Raw then
                 (if pk = GraphVariable then (if ps \<noteq> [] then [concat_of k] else [])
                  else [concat_of k]) else [])"
  have "render_loop pk [ps] (ks # rest) = render_loop k (([ps] @ sep) @ [s]) rest"
    using ks by (simp add: sep_def loop_step_def)
  also have "\<dots> = ([ps] @ sep) @ render_loop k [s] rest"
    by (rule render_loop_prefix) simp
  finally have "concat (render_loop pk [ps] (ks # rest)) = ps @ concat sep @ concat (render_loop k [s] rest)"
    by simp
  moreover have "concat sep = sep_before pk ps k" by (simp add: sep_def)
  ultimately show ?case using ks Cons.IH [of k s] by simp
qed

lemma join_chain_pairwise: "join_chain ((GraphVariable, g) # ts) = g @ chain_text GraphVariable g ts"
  by (simp add: join_chain_def concat_render_loop loop_step_def)

text \<open>C10. The accumulator loop of the source computes the pairwise rule of the
  specification.\<close>

theorem join_chain_spec: "join_chain ((GraphVariable, g) # ts) = g @ chain_text GraphVariable g ts"
  by (simp add: join_chain_def concat_render_loop loop_step_def)

text \<open>C11. A non-empty graph variable contributes its text and the first token's marker;
  everything after the first token is the same as with the graph variable suppressed.\<close>

theorem join_chain_graph_variable:
  "g \<noteq> [] \<Longrightarrow> join_chain ((GraphVariable, g) # ts) = g @ first_concat ts @ join_chain ((GraphVariable, []) # ts)"
  by (cases ts) (auto simp: join_chain_pairwise first_concat_def)

lemma join_sep_Cons: "join_sep sep (a # as) = a @ concat (map (\<lambda>b. sep @ b) as)"
  by (induction as arbitrary: a) simp_all

lemma chain_text_attributes:
  "chain_text Attribute a (map (\<lambda>b. (Attribute, b)) as) = concat (map (\<lambda>b. ''.'' @ b) as)"
  by (induction as arbitrary: a) simp_all

lemma join_chain_attrs:
  "join_chain ((GraphVariable, g) # map (\<lambda>b. (Attribute, b)) as) =
     join_sep ''.'' (if g = [] then as else g # as)"
proof (cases as)
  case Nil
  then show ?thesis by (simp add: join_chain_pairwise)
next
  case (Cons a as')
  then show ?thesis
    by (auto simp: join_chain_pairwise join_sep_Cons chain_text_attributes)
qed

text \<open>C12. A chain of attribute reads renders as the names joined by dots, after the graph
  variable when it is non-empty (\<open>g.a.b\<close>, or \<open>a.b\<close>).\<close>

theorem join_chain_attributes:
  "join_chain ((GraphVariable, g) # map (\<lambda>b. (Attribute, b)) as) =
     join_sep ''.'' (if g = [] then as else g # as)"
  by (rule join_chain_attrs)

lemma chain_text_after_Raw: "chain_text Raw r ((k, s) # rest) = s @ chain_text k s rest"
  by simp

end
