(* ===== verification/Binder.thy ===== *)
theory Binder
  imports Tokens
begin

text \<open>
  The parameter binder of \<open>Gremlin\<close> (\<open>src/gremlinpy/gremlin.py\<close>, lines 80--178):
  the builder object, the heap of builder objects, and \<open>bind_param\<close>,
  \<open>bind_params\<close> and \<open>set_parent_gremlin\<close>.

  A builder is a record of its instance attributes. \<open>top\<close> (the graph-variable token)
  is represented by its value \<open>top_value\<close>, the linked tokens after it by the list
  \<open>chain\<close> (the pointer structure and its list abstraction are theory \<open>Chain\<close>),
  the dictionary \<open>bound_params\<close> by an association list in insertion order. Builders
  refer to each other (\<open>parent\<close>, and builders nested as token values), so they live in
  a heap indexed by address; the world also holds the stream of random values that
  \<open>uuid.uuid4()\<close> produces, of which \<open>reset\<close> keeps the last five characters as the
  builder's namespace seed \<open>bound_param\<close>.

  \<open>bind_param\<close> calls itself on the parent builder, so a cycle of parents recurses
  without end; the model gives every call a recursion budget (fuel) and raises
  \<open>RecursionError\<close> when it is spent, as the interpreter's recursion limit does.
\<close>

datatype parent_ref = PGremlin nat | PPredicate

text \<open>\<open>PPredicate\<close>: a \<open>Predicate\<close> object became the parent. \<open>Predicate.fix_value\<close>
  passes \<open>self.gremlin\<close>, which \<open>Predicate.__getattr__\<close> answers with the predicate
  itself; its \<open>bind_param\<close> is again the predicate, and calling it only prints.\<close>

record gremlin =
  gv :: pyval
  top_value :: pyval
  chain :: "token list"
  parent :: "parent_ref option"
  bound_params :: "(string \<times> pyval) list"
  bound_param :: string
  bound_count :: nat
  return_var :: pyval

record world =
  heap :: "nat \<Rightarrow> gremlin option"
  next_id :: nat
  uuids :: "nat \<Rightarrow> string"
  draws :: nat

definition set_gremlin :: "nat \<Rightarrow> gremlin \<Rightarrow> world \<Rightarrow> world" where
  "set_gremlin g G w = w\<lparr>heap := (heap w)(g \<mapsto> G)\<rparr>"

definition parent_gid :: "gremlin \<Rightarrow> nat option" where
  "parent_gid G = (case parent G of Some (PGremlin p) \<Rightarrow> Some p | _ \<Rightarrow> None)"

text \<open>\<open>'%s_%s_%s' % (self.PARAM_PREFIX, self.bound_param, self.bound_count)\<close>.\<close>

definition gen_name :: "string \<Rightarrow> nat \<Rightarrow> string" where
  "gen_name seed n = ''GPY_PARAM_'' @ seed @ ''_'' @ nat_str n"

text \<open>\<open>if value in self.bound_params: name = value; value = self.bound_params[value]\<close>.
  The keys are strings, so only a string can be found; a list or a slice is unhashable
  and the membership test raises \<open>TypeError\<close>.\<close>

fun resolve_backref ::
  "(string \<times> pyval) list \<Rightarrow> pyval \<Rightarrow> string option \<Rightarrow> pyerr + (string option \<times> pyval)" where
  "resolve_backref d (VStr s) nm =
     Inr (case map_of d s of Some v' \<Rightarrow> (Some s, v') | None \<Rightarrow> (nm, VStr s))"
| "resolve_backref d (VList xs) nm = Inl TypeError"
| "resolve_backref d (VSlice a b c) nm = Inl TypeError"
| "resolve_backref d v nm = Inr (nm, v)"

text \<open>
  \<open>bind_param\<close> (lines 162--178). On an address that holds no initialised builder
  (an object whose \<open>__init__\<close> has not reached \<open>reset\<close>), the attribute read of
  \<open>bound_count\<close> goes to \<open>Gremlin.__getattr__\<close>, whose \<open>add_token\<close> then fails
  on the class attribute \<open>bottom = None\<close>: \<open>AttributeError\<close>.
\<close>

fun bind_param ::
  "nat \<Rightarrow> nat \<Rightarrow> pyval \<Rightarrow> string option \<Rightarrow> (pyerr, world, string \<times> pyval) exc" where
  "bind_param 0 g v nm w = (Inl RecursionError, w)"
| "bind_param (Suc f) g v nm w =
     (case heap w g of
        None \<Rightarrow> (Inl AttributeError, w)
      | Some G \<Rightarrow>
          (let G1 = G\<lparr>bound_count := Suc (bound_count G)\<rparr> in
           case resolve_backref (bound_params G1) v nm of
             Inl e \<Rightarrow> (Inl e, set_gremlin g G1 w)
           | Inr (nm', v') \<Rightarrow>
               (let name = (case nm' of None \<Rightarrow> gen_name (bound_param G1) (bound_count G1) | Some n \<Rightarrow> n);
                    w2 = set_gremlin g (G1\<lparr>bound_params := AList.update name v' (bound_params G1)\<rparr>) w
                in case parent G of
                     Some (PGremlin p) \<Rightarrow>
                       (case bind_param f p v' (Some name) w2 of
                          (Inl e, w3) \<Rightarrow> (Inl e, w3)
                        | (Inr _, w3) \<Rightarrow> (Inr (name, v'), w3))
                   | _ \<Rightarrow> (Inr (name, v'), w2))))"

text \<open>\<open>bind_params\<close> (lines 153--160): bind each value in turn, return the
  dictionary.\<close>

definition bind_params :: "nat \<Rightarrow> nat \<Rightarrow> pyval list \<Rightarrow> (pyerr, world, (string \<times> pyval) list) exc" where
  "bind_params f g vs =
     bindE (forE (\<lambda>v. bind_param f g v None) vs)
       (\<lambda>_ w. (case heap w g of None \<Rightarrow> (Inl AttributeError, w) | Some G \<Rightarrow> (Inr (bound_params G), w)))"

text \<open>\<open>set_parent_gremlin\<close> (lines 148--151): record the parent, then re-bind every
  key of the own dictionary; each key is found in the dictionary, so the call is a
  back-reference that propagates \<open>(key, value)\<close> to the new parent.\<close>

definition set_parent_gremlin :: "nat \<Rightarrow> nat \<Rightarrow> parent_ref \<Rightarrow> (pyerr, world, (string \<times> pyval) list) exc" where
  "set_parent_gremlin f g p w =
     (case heap w g of
        None \<Rightarrow> (Inl AttributeError, w)
      | Some G \<Rightarrow>
          bind_params f g (map (VStr \<circ> fst) (bound_params G))
            (set_gremlin g (G\<lparr>parent := Some p\<rparr>) w))"

text \<open>The ancestors of a builder, following \<open>parent\<close> until a builder without a
  builder parent: a finite, acyclic path of initialised builders.\<close>

inductive ancestry :: "world \<Rightarrow> nat \<Rightarrow> nat list \<Rightarrow> bool" where
  anc_root: "heap w g = Some G \<Longrightarrow> parent_gid G = None \<Longrightarrow> ancestry w g [g]"
| anc_step: "heap w g = Some G \<Longrightarrow> parent_gid G = Some p \<Longrightarrow> ancestry w p ps \<Longrightarrow> ancestry w g (g # ps)"

code_pred ancestry .

inductive_cases ancestry_elim: "ancestry w g as"

text \<open>What one level of \<open>bind_param\<close> does to a builder when the value is not a
  key of its dictionary and the name is given: count the call and store the pair.\<close>

definition bump :: "string \<Rightarrow> pyval \<Rightarrow> nat \<Rightarrow> world \<Rightarrow> world" where
  "bump name v a w =
     (case heap w a of
        None \<Rightarrow> w
      | Some A \<Rightarrow> set_gremlin a (A\<lparr>bound_count := Suc (bound_count A),
                                     bound_params := AList.update name v (bound_params A)\<rparr>) w)"

section \<open>Basic facts\<close>

lemma heap_set_gremlin [simp]: "heap (set_gremlin g G w) = (heap w)(g \<mapsto> G)"
  by (simp add: set_gremlin_def)

lemma set_gremlin_other [simp]:
  "next_id (set_gremlin g G w) = next_id w" "uuids (set_gremlin g G w) = uuids w"
  "draws (set_gremlin g G w) = draws w"
  by (simp_all add: set_gremlin_def)

lemma set_gremlin_twice [simp]: "set_gremlin g G2 (set_gremlin g G1 w) = set_gremlin g G2 w"
  by (simp add: set_gremlin_def)

lemma set_gremlin_same: "heap w g = Some G \<Longrightarrow> set_gremlin g G w = w"
  by (simp add: set_gremlin_def fun_upd_idem)

definition hashable :: "pyval \<Rightarrow> bool" where
  "hashable v \<longleftrightarrow> (case v of VList _ \<Rightarrow> False | VSlice _ _ _ \<Rightarrow> False | _ \<Rightarrow> True)"

lemma resolve_backref_hashable:
  "hashable v \<Longrightarrow> \<exists>nm' v'. resolve_backref d v nm = Inr (nm', v')"
  by (cases v) (auto simp: hashable_def split: option.splits)

lemma resolve_backref_not_key:
  "map_of d s = None \<Longrightarrow> resolve_backref d (VStr s) nm = Inr (nm, VStr s)"
  by simp

definition not_key :: "pyval \<Rightarrow> (string \<times> pyval) list \<Rightarrow> bool" where
  "not_key v d \<longleftrightarrow> (\<forall>s. v = VStr s \<longrightarrow> map_of d s = None)"

lemma resolve_backref_plain:
  "hashable v \<Longrightarrow> not_key v d \<Longrightarrow> resolve_backref d v nm = Inr (nm, v)"
  by (cases v) (auto simp: hashable_def not_key_def)

lemma resolve_backref_value:
  "resolve_backref d v nm = Inr (nm', v') \<Longrightarrow> v' = v \<or> v' \<in> snd ` set d"
  by (cases v) (auto split: option.splits dest!: map_of_SomeD intro: rev_image_eqI)

section \<open>Frame: only dictionaries and counters change\<close>

definition same_shape :: "gremlin \<Rightarrow> gremlin \<Rightarrow> bool" where
  "same_shape H H' \<longleftrightarrow> gv H' = gv H \<and> top_value H' = top_value H \<and> chain H' = chain H \<and>
     parent H' = parent H \<and> bound_param H' = bound_param H \<and> return_var H' = return_var H"

definition params_only :: "world \<Rightarrow> world \<Rightarrow> bool" where
  "params_only w w' \<longleftrightarrow> next_id w' = next_id w \<and> uuids w' = uuids w \<and> draws w' = draws w \<and>
     (\<forall>h. (heap w h = None \<longleftrightarrow> heap w' h = None) \<and>
          (\<forall>H H'. heap w h = Some H \<longrightarrow> heap w' h = Some H' \<longrightarrow> same_shape H H'))"

lemma same_shape_refl [simp]: "same_shape H H"
  by (simp add: same_shape_def)

lemma params_only_refl [simp]: "params_only w w"
  by (simp add: params_only_def same_shape_def)

lemma same_shape_trans: "same_shape H1 H2 \<Longrightarrow> same_shape H2 H3 \<Longrightarrow> same_shape H1 H3"
  by (simp add: same_shape_def)

lemma params_only_heapD:
  assumes "params_only w w'" and "heap w h = Some H"
  shows "\<exists>H'. heap w' h = Some H' \<and> same_shape H H'"
proof -
  from assms(1) have iff: "(heap w h = None) = (heap w' h = None)"
    and sh: "\<forall>H H'. heap w h = Some H \<longrightarrow> heap w' h = Some H' \<longrightarrow> same_shape H H'"
    by (simp_all add: params_only_def)
  from iff assms(2) obtain H' where "heap w' h = Some H'" by (cases "heap w' h") simp_all
  with sh assms(2) show ?thesis by blast
qed

lemma params_only_heap_None:
  "params_only w w' \<Longrightarrow> heap w h = None \<Longrightarrow> heap w' h = None"
  by (simp add: params_only_def)

lemma params_only_trans:
  assumes a: "params_only w1 w2" and b: "params_only w2 w3"
  shows "params_only w1 w3"
  unfolding params_only_def
proof (intro conjI allI impI)
  show "next_id w3 = next_id w1" "uuids w3 = uuids w1" "draws w3 = draws w1"
    using a b by (simp_all add: params_only_def)
next
  fix h
  show "(heap w1 h = None) = (heap w3 h = None)" using a b by (simp add: params_only_def)
next
  fix h H H'
  assume h1: "heap w1 h = Some H" and h3: "heap w3 h = Some H'"
  from params_only_heapD [OF a h1] obtain H2 where h2: "heap w2 h = Some H2" and s1: "same_shape H H2"
    by blast
  from params_only_heapD [OF b h2] h3 have "same_shape H2 H'" by auto
  with s1 show "same_shape H H'" by (rule same_shape_trans)
qed

lemma params_only_set:
  "heap w g = Some G \<Longrightarrow> same_shape G G' \<Longrightarrow> params_only w (set_gremlin g G' w)"
  by (auto simp: params_only_def)

lemma same_shape_params [simp]:
  "same_shape G (G\<lparr>bound_count := c, bound_params := d\<rparr>)"
  "same_shape G (G\<lparr>bound_count := c\<rparr>)"
  by (simp_all add: same_shape_def)

lemma same_shape_parent_gid: "same_shape H H' \<Longrightarrow> parent_gid H' = parent_gid H"
  by (simp add: same_shape_def parent_gid_def)

lemma params_only_ancestry: "ancestry w g as \<Longrightarrow> params_only w w' \<Longrightarrow> ancestry w' g as"
proof (induction rule: ancestry.induct)
  case (anc_root w g G)
  from params_only_heapD [OF anc_root.prems anc_root.hyps(1)] obtain H' where
    "heap w' g = Some H'" and "same_shape G H'" by blast
  with anc_root.hyps(2) show ?case by (simp add: same_shape_parent_gid ancestry.anc_root)
next
  case (anc_step w g G p ps)
  from params_only_heapD [OF anc_step.prems anc_step.hyps(1)] obtain H' where
    "heap w' g = Some H'" and "same_shape G H'" by blast
  moreover have "ancestry w' p ps" using anc_step.IH anc_step.prems .
  ultimately show ?case using anc_step.hyps(2) by (simp add: same_shape_parent_gid ancestry.anc_step)
qed

lemma bump_params_only: "params_only w (bump name v a w)"
  by (auto simp: bump_def intro: params_only_set split: option.splits)

section \<open>Unfolding one level\<close>

text \<open>One level of \<open>bind_param\<close>, for the proofs: count the call, choose the name,
  store the pair.\<close>

definition bind_step :: "nat \<Rightarrow> gremlin \<Rightarrow> string option \<Rightarrow> pyval \<Rightarrow> world \<Rightarrow> string \<times> world" where
  "bind_step g G nm' v' w =
     (let name = (case nm' of None \<Rightarrow> gen_name (bound_param G) (Suc (bound_count G)) | Some n \<Rightarrow> n)
      in (name, set_gremlin g (G\<lparr>bound_count := Suc (bound_count G),
                                  bound_params := AList.update name v' (bound_params G)\<rparr>) w))"

lemma bind_param_Suc_Some:
  assumes "heap w g = Some G" and "resolve_backref (bound_params G) v nm = Inr (nm', v')"
  shows "bind_param (Suc f) g v nm w =
     (case bind_step g G nm' v' w of (name, w2) \<Rightarrow>
      case parent_gid G of
        Some p \<Rightarrow> (case bind_param f p v' (Some name) w2 of
                     (Inl e, w3) \<Rightarrow> (Inl e, w3)
                   | (Inr _, w3) \<Rightarrow> (Inr (name, v'), w3))
      | None \<Rightarrow> (Inr (name, v'), w2))"
  using assms
  by (simp add: bind_step_def parent_gid_def Let_def split: option.splits parent_ref.splits
       cong: option.case_cong prod.case_cong sum.case_cong)

lemma bind_step_params_only:
  "heap w g = Some G \<Longrightarrow> params_only w (snd (bind_step g G nm v w))"
  by (simp add: bind_step_def Let_def params_only_set)

lemma bind_step_heap:
  "bind_step g G nm v w = (name, w2) \<Longrightarrow>
     heap w2 = (heap w)(g \<mapsto> G\<lparr>bound_count := Suc (bound_count G), bound_params := AList.update name v (bound_params G)\<rparr>)"
  by (auto simp: bind_step_def Let_def)

lemma bind_step_name:
  "bind_step g G nm v w = (name, w2) \<Longrightarrow>
     name = (case nm of None \<Rightarrow> gen_name (bound_param G) (Suc (bound_count G)) | Some n \<Rightarrow> n)"
  by (auto simp: bind_step_def Let_def)

lemma bind_param_Inl_backref:
  "heap w g = Some G \<Longrightarrow> resolve_backref (bound_params G) v nm = Inl e \<Longrightarrow>
     bind_param (Suc f) g v nm w = (Inl e, set_gremlin g (G\<lparr>bound_count := Suc (bound_count G)\<rparr>) w)"
  by simp

lemma bind_param_params_only: "bind_param f g v nm w = (r, w') \<Longrightarrow> params_only w w'"
proof (induction f arbitrary: g v nm w r w')
  case 0
  then show ?case by simp
next
  case (Suc f)
  show ?case
  proof (cases "heap w g")
    case None
    with Suc.prems show ?thesis by simp
  next
    case hg: (Some G)
    show ?thesis
    proof (cases "resolve_backref (bound_params G) v nm")
      case (Inl e)
      with hg Suc.prems have "w' = set_gremlin g (G\<lparr>bound_count := Suc (bound_count G)\<rparr>) w" by simp
      then show ?thesis using params_only_set [OF hg] by simp
    next
      case (Inr r1)
      obtain nm' v' where r1: "r1 = (nm', v')" by (cases r1)
      obtain name w2 where st: "bind_step g G nm' v' w = (name, w2)" by (cases "bind_step g G nm' v' w")
      have w2: "params_only w w2" using bind_step_params_only [OF hg, of nm' v'] st by simp
      note unf = bind_param_Suc_Some [OF hg Inr [unfolded r1], of f]
      show ?thesis
      proof (cases "parent_gid G")
        case (Some p)
        obtain r3 w3 where rec: "bind_param f p v' (Some name) w2 = (r3, w3)"
          by (cases "bind_param f p v' (Some name) w2")
        from Suc.prems unf st Some rec have "w' = w3" by (cases r3) simp_all
        moreover from Suc.IH [OF rec] have "params_only w2 w3" .
        ultimately show ?thesis using w2 params_only_trans by blast
      next
        case None
        with Suc.prems unf st w2 show ?thesis by simp
      qed
    qed
  qed
qed

definition vals_hashable :: "world \<Rightarrow> bool" where
  "vals_hashable w \<longleftrightarrow> (\<forall>h H. heap w h = Some H \<longrightarrow> (\<forall>x \<in> snd ` set (bound_params H). hashable x))"

lemma vals_hashable_step:
  assumes "vals_hashable w" and "heap w g = Some G" and "hashable v" and "bind_step g G nm v w = (name, w2)"
  shows "vals_hashable w2"
  unfolding vals_hashable_def
proof (intro allI impI ballI)
  fix h H x
  assume h2: "heap w2 h = Some H" and x: "x \<in> snd ` set (bound_params H)"
  note hp = bind_step_heap [OF assms(4)]
  show "hashable x"
  proof (cases "h = g")
    case True
    with h2 hp have "bound_params H = AList.update name v (bound_params G)" by auto
    with x set_update_subset [of name v "bound_params G"] have "x = v \<or> x \<in> snd ` set (bound_params G)"
      by auto
    with assms(1,2,3) show ?thesis by (auto simp: vals_hashable_def)
  next
    case False
    with h2 hp have "heap w h = Some H" by simp
    with assms(1) x show ?thesis by (auto simp: vals_hashable_def)
  qed
qed

lemma resolve_backref_hashable_value:
  assumes "resolve_backref d v nm = Inr (nm', v')" and "hashable v" and "\<forall>x \<in> snd ` set d. hashable x"
  shows "hashable v'"
proof -
  from resolve_backref_value [OF assms(1)] have "v' = v \<or> v' \<in> snd ` set d" .
  with assms(2,3) show ?thesis by auto
qed

lemma params_only_parent_gid:
  "params_only w w0 \<Longrightarrow> heap w g = Some G \<Longrightarrow> \<exists>G0. heap w0 g = Some G0 \<and> parent_gid G0 = parent_gid G"
  using params_only_heapD same_shape_parent_gid by metis

lemma bind_param_returns_gen:
  "ancestry w g as \<Longrightarrow> params_only w w0 \<Longrightarrow> length as \<le> f \<Longrightarrow> hashable v \<Longrightarrow> vals_hashable w0 \<Longrightarrow>
     \<exists>r w'. bind_param f g v nm w0 = (Inr r, w')"
proof (induction arbitrary: w0 f v nm rule: ancestry.induct)
  case (anc_root w g G)
  then obtain f' where f: "f = Suc f'" by (cases f) auto
  from params_only_parent_gid [OF anc_root.prems(1) anc_root.hyps(1)] anc_root.hyps(2)
  obtain G0 where h0: "heap w0 g = Some G0" and pg: "parent_gid G0 = None" by auto
  from resolve_backref_hashable [OF anc_root.prems(3)] obtain nm' v' where
    rb: "resolve_backref (bound_params G0) v nm = Inr (nm', v')" by blast
  obtain name w2 where st: "bind_step g G0 nm' v' w0 = (name, w2)" by (cases "bind_step g G0 nm' v' w0")
  show ?case using bind_param_Suc_Some [OF h0 rb] st pg f by simp
next
  case (anc_step w g G p ps)
  then obtain f' where f: "f = Suc f'" and len: "length ps \<le> f'" by (cases f) auto
  from params_only_parent_gid [OF anc_step.prems(1) anc_step.hyps(1)] anc_step.hyps(2)
  obtain G0 where h0: "heap w0 g = Some G0" and pg: "parent_gid G0 = Some p" by auto
  from resolve_backref_hashable [OF anc_step.prems(3)] obtain nm' v' where
    rb: "resolve_backref (bound_params G0) v nm = Inr (nm', v')" by blast
  have hv': "hashable v'"
    using resolve_backref_hashable_value [OF rb anc_step.prems(3)] anc_step.prems(4) h0
    by (auto simp: vals_hashable_def)
  obtain name w2 where st: "bind_step g G0 nm' v' w0 = (name, w2)" by (cases "bind_step g G0 nm' v' w0")
  have "params_only w0 w2" using bind_step_params_only [OF h0, of nm' v'] st by simp
  with anc_step.prems(1) have w2: "params_only w w2" by (rule params_only_trans)
  have "vals_hashable w2" by (rule vals_hashable_step [OF anc_step.prems(4) h0 hv' st])
  from anc_step.IH [OF w2 len hv' this] obtain r3 w3 where
    rec: "bind_param f' p v' (Some name) w2 = (Inr r3, w3)" by blast
  show ?case using bind_param_Suc_Some [OF h0 rb] st pg f rec by simp
qed

text \<open>C4. Enough recursion budget: along a finite chain of ancestors, a call with a
  hashable value returns, with a budget of the length of the chain.\<close>

theorem bind_param_returns:
  "ancestry w g as \<Longrightarrow> length as \<le> f \<Longrightarrow> hashable v \<Longrightarrow> vals_hashable w \<Longrightarrow>
     \<exists>r w'. bind_param f g v nm w = (Inr r, w')"
  using bind_param_returns_gen [OF _ params_only_refl] by blast

text \<open>A set of builders closed under \<open>parent\<close>: every member has a member as its
  builder parent, so the parents form a cycle.\<close>

definition parent_closed :: "world \<Rightarrow> nat set \<Rightarrow> bool" where
  "parent_closed w S \<longleftrightarrow> (\<forall>h \<in> S. \<exists>H p. heap w h = Some H \<and> parent_gid H = Some p \<and> p \<in> S)"

lemma params_only_parent_closed: "parent_closed w S \<Longrightarrow> params_only w w' \<Longrightarrow> parent_closed w' S"
  unfolding parent_closed_def using params_only_parent_gid by metis

text \<open>C5. A builder whose parents form a cycle (a builder nested, directly or
  through others, inside itself) never finishes a binding: whatever the recursion
  budget, the call ends in \<open>RecursionError\<close>. The code has no cycle guard.\<close>

theorem bind_param_cycle:
  "parent_closed w S \<Longrightarrow> g \<in> S \<Longrightarrow> hashable v \<Longrightarrow> vals_hashable w \<Longrightarrow>
     fst (bind_param f g v nm w) = Inl RecursionError"
proof (induction f arbitrary: g v nm w)
  case 0
  then show ?case by simp
next
  case (Suc f)
  from Suc.prems(1,2) obtain G p where hg: "heap w g = Some G" and pg: "parent_gid G = Some p"
    and pS: "p \<in> S" by (auto simp: parent_closed_def)
  from resolve_backref_hashable [OF Suc.prems(3)] obtain nm' v' where
    rb: "resolve_backref (bound_params G) v nm = Inr (nm', v')" by blast
  have hv': "hashable v'"
    using resolve_backref_hashable_value [OF rb Suc.prems(3)] Suc.prems(4) hg
    by (auto simp: vals_hashable_def)
  obtain name w2 where st: "bind_step g G nm' v' w = (name, w2)" by (cases "bind_step g G nm' v' w")
  have "params_only w w2" using bind_step_params_only [OF hg, of nm' v'] st by simp
  with Suc.prems(1) have "parent_closed w2 S" by (rule params_only_parent_closed)
  moreover have "vals_hashable w2" by (rule vals_hashable_step [OF Suc.prems(4) hg hv' st])
  ultimately have "fst (bind_param f p v' (Some name) w2) = Inl RecursionError"
    using Suc.IH pS hv' by blast
  then obtain w3 where "bind_param f p v' (Some name) w2 = (Inl RecursionError, w3)"
    by (cases "bind_param f p v' (Some name) w2") simp
  then show ?case using bind_param_Suc_Some [OF hg rb] st pg by simp
qed

section \<open>Propagation along the ancestors\<close>

definition keyless_on :: "world \<Rightarrow> nat list \<Rightarrow> pyval \<Rightarrow> bool" where
  "keyless_on w as v \<longleftrightarrow> (\<forall>a \<in> set as. \<forall>A. heap w a = Some A \<longrightarrow> not_key v (bound_params A))"

lemma not_key_update: "not_key v d \<Longrightarrow> v \<noteq> VStr name \<Longrightarrow> not_key v (AList.update name x d)"
  by (auto simp: not_key_def update_conv')

lemma keyless_on_bump:
  "keyless_on w as v \<Longrightarrow> v \<noteq> VStr name \<Longrightarrow> keyless_on (bump name v a w) as v"
  by (auto simp: keyless_on_def bump_def not_key_update split: option.splits)

lemma bind_step_is_bump:
  "heap w g = Some G \<Longrightarrow> bind_step g G (Some name) v w = (name, bump name v g w)"
  by (simp add: bind_step_def bump_def)

text \<open>Functional behaviour of \<open>bind_param\<close> with a given name, when the value is
  no key along the ancestors: every ancestor, from the builder up, counts the call and
  stores the pair; the result is the pair.\<close>

lemma bind_param_chain_gen:
  "ancestry w g as \<Longrightarrow> params_only w w0 \<Longrightarrow> length as \<le> f \<Longrightarrow> hashable v \<Longrightarrow>
     keyless_on w0 as v \<Longrightarrow> v \<noteq> VStr name \<Longrightarrow>
     bind_param f g v (Some name) w0 = (Inr (name, v), fold (bump name v) as w0)"
proof (induction arbitrary: w0 f rule: ancestry.induct)
  case (anc_root w g G)
  then obtain f' where f: "f = Suc f'" by (cases f) auto
  from params_only_parent_gid [OF anc_root.prems(1) anc_root.hyps(1)] anc_root.hyps(2)
  obtain G0 where h0: "heap w0 g = Some G0" and pg: "parent_gid G0 = None" by auto
  from anc_root.prems(4) h0 have "not_key v (bound_params G0)" by (simp add: keyless_on_def)
  with anc_root.prems(3) have rb: "resolve_backref (bound_params G0) v (Some name) = Inr (Some name, v)"
    by (rule resolve_backref_plain)
  show ?case using bind_param_Suc_Some [OF h0 rb] bind_step_is_bump [OF h0] pg f by simp
next
  case (anc_step w g G p ps)
  then obtain f' where f: "f = Suc f'" and len: "length ps \<le> f'" by (cases f) auto
  from params_only_parent_gid [OF anc_step.prems(1) anc_step.hyps(1)] anc_step.hyps(2)
  obtain G0 where h0: "heap w0 g = Some G0" and pg: "parent_gid G0 = Some p" by auto
  from anc_step.prems(4) h0 have "not_key v (bound_params G0)" by (simp add: keyless_on_def)
  with anc_step.prems(3) have rb: "resolve_backref (bound_params G0) v (Some name) = Inr (Some name, v)"
    by (rule resolve_backref_plain)
  let ?w2 = "bump name v g w0"
  have "params_only w ?w2" using anc_step.prems(1) bump_params_only params_only_trans by blast
  moreover have "keyless_on ?w2 ps v"
    using keyless_on_bump [OF anc_step.prems(4) anc_step.prems(5)] by (simp add: keyless_on_def)
  ultimately have rec: "bind_param f' p v (Some name) ?w2 = (Inr (name, v), fold (bump name v) ps ?w2)"
    using anc_step.IH len anc_step.prems(3,5) by blast
  show ?case using bind_param_Suc_Some [OF h0 rb] bind_step_is_bump [OF h0] pg f rec by simp
qed

lemma bump_lookup:
  "heap (bump name v a w) h = Some H' \<Longrightarrow>
     \<exists>H. heap w h = Some H \<and> (h = a \<longrightarrow> bound_params H' = AList.update name v (bound_params H))
         \<and> (h \<noteq> a \<longrightarrow> H' = H)"
  by (auto simp: bump_def split: option.splits if_splits)

lemma fold_bump_keeps:
  "heap w h = Some H \<Longrightarrow> map_of (bound_params H) name = Some v \<Longrightarrow>
     \<exists>H'. heap (fold (bump name v) as w) h = Some H' \<and> map_of (bound_params H') name = Some v"
proof (induction as arbitrary: w H)
  case Nil
  then show ?case by simp
next
  case (Cons a as)
  have "\<exists>H1. heap (bump name v a w) h = Some H1 \<and> map_of (bound_params H1) name = Some v"
    using Cons.prems by (auto simp: bump_def update_conv' split: option.splits)
  then obtain H1 where "heap (bump name v a w) h = Some H1" and "map_of (bound_params H1) name = Some v"
    by blast
  from Cons.IH [OF this] show ?case by simp
qed

lemma fold_bump_sets:
  "a \<in> set as \<Longrightarrow> heap w a = Some A \<Longrightarrow>
     \<exists>A'. heap (fold (bump name v) as w) a = Some A' \<and> map_of (bound_params A') name = Some v"
proof (induction as arbitrary: w A)
  case Nil
  then show ?case by simp
next
  case (Cons b as)
  show ?case
  proof (cases "b = a")
    case True
    with Cons.prems(2) have "heap (bump name v b w) a = Some (A\<lparr>bound_count := Suc (bound_count A),
                bound_params := AList.update name v (bound_params A)\<rparr>)"
      by (simp add: bump_def)
    from fold_bump_keeps [OF this] show ?thesis by (simp add: update_conv')
  next
    case False
    with Cons.prems have "a \<in> set as" and "heap (bump name v b w) a = Some A"
      by (auto simp: bump_def split: option.splits)
    from Cons.IH [OF this] show ?thesis by simp
  qed
qed


definition param_name :: "gremlin \<Rightarrow> string option \<Rightarrow> string" where
  "param_name G nm = (case nm of None \<Rightarrow> gen_name (bound_param G) (Suc (bound_count G)) | Some n \<Rightarrow> n)"

lemma bind_step_bump:
  "heap w g = Some G \<Longrightarrow> bind_step g G nm v w = (param_name G nm, bump (param_name G nm) v g w)"
  by (simp add: bind_step_def bump_def param_name_def Let_def)

lemma bind_param_bumps:
  assumes anc: "ancestry w g as" and hg: "heap w g = Some G" and len: "length as \<le> f"
    and hv: "hashable v" and kl: "keyless_on w as v" and nn: "v \<noteq> VStr (param_name G nm)"
  shows "bind_param f g v nm w = (Inr (param_name G nm, v), fold (bump (param_name G nm) v) as w)"
  using anc
proof cases
  case (anc_root G')
  with hg have G': "G' = G" by simp
  from len anc_root obtain f' where f: "f = Suc f'" by (cases f) auto
  from kl hg anc_root have "not_key v (bound_params G)" by (simp add: keyless_on_def)
  with hv have rb: "resolve_backref (bound_params G) v nm = Inr (nm, v)" by (rule resolve_backref_plain)
  show ?thesis
    using bind_param_Suc_Some [OF hg rb] bind_step_bump [OF hg] anc_root G' f by simp
next
  case (anc_step G' p ps)
  with hg have G': "G' = G" by simp
  from len anc_step obtain f' where f: "f = Suc f'" and len': "length ps \<le> f'" by (cases f) auto
  from kl hg anc_step have "not_key v (bound_params G)" by (simp add: keyless_on_def)
  with hv have rb: "resolve_backref (bound_params G) v nm = Inr (nm, v)" by (rule resolve_backref_plain)
  let ?n = "param_name G nm"
  let ?w2 = "bump ?n v g w"
  have kl2: "keyless_on ?w2 ps v"
    using keyless_on_bump [OF kl nn] anc_step by (simp add: keyless_on_def)
  have rec: "bind_param f' p v (Some ?n) ?w2 = (Inr (?n, v), fold (bump ?n v) ps ?w2)"
    by (rule bind_param_chain_gen [OF \<open>ancestry w p ps\<close> bump_params_only len' hv kl2 nn])
  show ?thesis
    using bind_param_Suc_Some [OF hg rb] bind_step_bump [OF hg] anc_step G' f rec by simp
qed

text \<open>C1. Functional behaviour of \<open>bind_param\<close> on a literal that is no key of the
  builders it reaches: the pair is stored under the given name (or, without one, under
  the name generated from the builder's seed and its incremented counter) in the
  builder and in every ancestor, each of them counts the call, and the pair is
  returned.\<close>

theorem bind_param_spec:
  assumes anc: "ancestry w g as" and hg: "heap w g = Some G" and len: "length as \<le> f"
    and hv: "hashable v" and kl: "keyless_on w as v" and nn: "v \<noteq> VStr (param_name G nm)"
  shows "bind_param f g v nm w = (Inr (param_name G nm, v), fold (bump (param_name G nm) v) as w)"
  using anc
proof cases
  case (anc_root G')
  with hg have G': "G' = G" by simp
  from len anc_root obtain f' where f: "f = Suc f'" by (cases f) auto
  from kl hg anc_root have "not_key v (bound_params G)" by (simp add: keyless_on_def)
  with hv have rb: "resolve_backref (bound_params G) v nm = Inr (nm, v)" by (rule resolve_backref_plain)
  show ?thesis
    using bind_param_Suc_Some [OF hg rb] bind_step_bump [OF hg] anc_root G' f by simp
next
  case (anc_step G' p ps)
  then show ?thesis using bind_param_bumps [OF anc hg len hv kl nn] by simp
qed

text \<open>C2. Upward propagation: after binding a literal in a nested builder, every
  builder on its chain of ancestors holds the same name with the same value.\<close>

theorem bind_param_propagates:
  assumes "ancestry w g as" and "heap w g = Some G" and "length as \<le> f" and "hashable v"
    and "keyless_on w as v" and "v \<noteq> VStr (param_name G nm)"
    and "a \<in> set as"
  shows "\<exists>w' A'. bind_param f g v nm w = (Inr (param_name G nm, v), w') \<and>
           heap w' a = Some A' \<and> map_of (bound_params A') (param_name G nm) = Some v"
proof -
  from assms(1,7) obtain A where "heap w a = Some A"
    by (induction rule: ancestry.induct) auto
  from fold_bump_sets [OF assms(7) this] bind_param_bumps [OF assms(1-6)] show ?thesis by simp
qed

text \<open>C3. Back-reference: passing a key of the dictionary (a placeholder an earlier call
  returned) reuses that name and its value; the dictionary of a root builder is left as
  it is, only the counter moves.\<close>

theorem bind_param_backref:
  assumes "heap w g = Some G" and "parent_gid G = None" and "map_of (bound_params G) k = Some x"
  shows "bind_param (Suc f) g (VStr k) nm w = (Inr (k, x), set_gremlin g (G\<lparr>bound_count := Suc (bound_count G)\<rparr>) w)"
proof -
  have rb: "resolve_backref (bound_params G) (VStr k) nm = Inr (Some k, x)" using assms(3) by simp
  have "AList.update k x (bound_params G) = bound_params G" using assms(3) by (rule update_triv)
  then show ?thesis
    using bind_param_Suc_Some [OF assms(1) rb] assms(2) by (simp add: bind_step_def)
qed

section \<open>Generated names\<close>

lemma split_at_sep:
  "c \<notin> set s \<Longrightarrow> c \<notin> set s' \<Longrightarrow> s @ c # xs = s' @ c # ys \<Longrightarrow> s = s' \<and> xs = ys"
proof (induction s arbitrary: s')
  case Nil
  then show ?case by (cases s') auto
next
  case (Cons a s)
  then show ?case by (cases s') auto
qed

lemma gen_name_same_seed [simp]: "gen_name s n = gen_name s m \<longleftrightarrow> n = m"
  by (simp add: gen_name_def)

lemma ne_gen_name [simp]: "take 10 x \<noteq> ''GPY_PARAM_'' \<Longrightarrow> x \<noteq> gen_name s n"
  by (auto simp: gen_name_def)

lemma gen_name_seed_ne:
  "CHR ''_'' \<notin> set s \<Longrightarrow> CHR ''_'' \<notin> set s' \<Longrightarrow> s \<noteq> s' \<Longrightarrow> gen_name s n \<noteq> gen_name s' m"
  using split_at_sep [of "CHR ''_''" s s' "nat_str n" "nat_str m"] by (auto simp: gen_name_def)

text \<open>C6. Generated names of seeds without an underscore (five hexadecimal digits
  of a UUID) are equal only for equal seeds and equal counters: builders with distinct
  seeds never generate the same placeholder.\<close>

theorem gen_name_inj:
  assumes "CHR ''_'' \<notin> set s" and "CHR ''_'' \<notin> set s'"
  shows "gen_name s n = gen_name s' n' \<longleftrightarrow> s = s' \<and> n = n'"
proof
  assume "gen_name s n = gen_name s' n'"
  then have "s @ CHR ''_'' # nat_str n = s' @ CHR ''_'' # nat_str n'" by (simp add: gen_name_def)
  from split_at_sep [OF assms this] show "s = s' \<and> n = n'" by simp
qed simp

section \<open>Parenting: re-binding the dictionary into the new ancestors\<close>

lemma ancestry_set_other:
  "ancestry w p as \<Longrightarrow> c \<notin> set as \<Longrightarrow> ancestry (set_gremlin c C w) p as"
  by (induction rule: ancestry.induct) (auto intro: ancestry.intros)

lemma keyless_on_bump_other:
  "keyless_on w as v \<Longrightarrow> v \<noteq> VStr name \<Longrightarrow> keyless_on (bump name x a w) as v"
  by (auto simp: keyless_on_def bump_def not_key_update split: option.splits)

lemma keyless_on_fold_bump:
  "keyless_on w as v \<Longrightarrow> v \<noteq> VStr name \<Longrightarrow> keyless_on (fold (bump name x) bs w) as v"
  by (induction bs arbitrary: w) (simp_all add: keyless_on_bump_other)

lemma params_only_fold_bump: "params_only w (fold (bump name v) bs w)"
  by (induction bs arbitrary: w) (auto intro: params_only_trans bump_params_only)

lemma heap_fold_bump_other: "c \<notin> set bs \<Longrightarrow> heap (fold (bump name v) bs w) c = heap w c"
  by (induction bs arbitrary: w) (auto simp: bump_def split: option.splits)

text \<open>One pass of \<open>bind_params\<close> over keys of the builder's own dictionary, after its
  parent was set: each key is a back-reference at the builder (only its counter moves)
  and a new name for the value along the ancestors.\<close>

lemma forE_rebind:
  assumes anc: "ancestry w1 p as" and po: "params_only w1 w0" and len: "length as \<le> f"
    and nc: "c \<notin> set as" and h0: "heap w0 c = Some C0" and pg: "parent_gid C0 = Some p"
    and ps: "\<forall>(k, v)\<in>set ps. map_of (bound_params C0) k = Some v \<and> hashable v \<and> keyless_on w0 as v \<and>
               (\<forall>k'\<in>fst ` set ps. v \<noteq> VStr k')"
  shows "forE (\<lambda>v. bind_param (Suc f) c v None) (map (VStr \<circ> fst) ps) w0 =
    (Inr (), fold (\<lambda>(k, v) w. fold (bump k v) as (bump k v c w)) ps w0)"
  using po h0 pg ps
proof (induction ps arbitrary: w0 C0)
  case Nil
  then show ?case by (simp add: ok_def)
next
  case (Cons kv ps)
  obtain k v where kv: "kv = (k, v)" by (cases kv)
  have mk: "map_of (bound_params C0) k = Some v" and hv: "hashable v" and kl: "keyless_on w0 as v"
    and nk: "v \<noteq> VStr k" using Cons.prems(4) kv by auto
  have rb: "resolve_backref (bound_params C0) (VStr k) None = Inr (Some k, v)" using mk by simp
  let ?w2 = "bump k v c w0"
  let ?w3 = "fold (bump k v) as ?w2"
  have po2: "params_only w1 ?w2" using Cons.prems(1) bump_params_only params_only_trans by blast
  have rec: "bind_param f p v (Some k) ?w2 = (Inr (k, v), ?w3)"
    using bind_param_chain_gen [OF anc po2 len hv keyless_on_bump [OF kl nk] nk] .
  have step: "bind_param (Suc f) c (VStr k) None w0 = (Inr (k, v), ?w3)"
    using bind_param_Suc_Some [OF Cons.prems(2) rb] bind_step_is_bump [OF Cons.prems(2)] Cons.prems(3) rec
    by simp
  let ?C3 = "C0\<lparr>bound_count := Suc (bound_count C0)\<rparr>"
  have h3: "heap ?w3 c = Some ?C3"
    using heap_fold_bump_other [OF nc] Cons.prems(2) mk by (simp add: bump_def update_triv)
  have po3: "params_only w1 ?w3" using po2 params_only_fold_bump params_only_trans by blast
  have pg3: "parent_gid ?C3 = Some p" using Cons.prems(3) by (simp add: parent_gid_def)
  have ps3: "\<forall>(k2, v2)\<in>set ps. map_of (bound_params ?C3) k2 = Some v2 \<and> hashable v2 \<and> keyless_on ?w3 as v2 \<and>
               (\<forall>k'\<in>fst ` set ps. v2 \<noteq> VStr k')"
  proof (intro ballI, clarify)
    fix k2 v2 assume m: "(k2, v2) \<in> set ps"
    then have "map_of (bound_params C0) k2 = Some v2 \<and> hashable v2 \<and> keyless_on w0 as v2 \<and>
               (\<forall>k'\<in>fst ` set ((k, v) # ps). v2 \<noteq> VStr k')" using Cons.prems(4) kv by auto
    then show "map_of (bound_params ?C3) k2 = Some v2 \<and> hashable v2 \<and> keyless_on ?w3 as v2 \<and>
               (\<forall>k'\<in>fst ` set ps. v2 \<noteq> VStr k')"
      by (auto intro: keyless_on_fold_bump keyless_on_bump_other)
  qed
  show ?case using step Cons.IH [OF po3 h3 pg3 ps3] kv by (simp add: bindE_def)
qed

lemma set_parent_gremlin_rebinds:
  assumes anc: "ancestry w p as" and hc: "heap w c = Some C" and nc: "c \<notin> set as"
    and len: "length as < f" and dk: "distinct (map fst (bound_params C))"
    and vs: "\<forall>(k, v)\<in>set (bound_params C). hashable v \<and> keyless_on w as v \<and>
               (\<forall>k'\<in>fst ` set (bound_params C). v \<noteq> VStr k')"
  shows "set_parent_gremlin f c (PGremlin p) w =
    (Inr (bound_params C), fold (\<lambda>(k, v) w. fold (bump k v) as (bump k v c w)) (bound_params C)
                             (set_gremlin c (C\<lparr>parent := Some (PGremlin p)\<rparr>) w))"
proof -
  obtain f' where f: "f = Suc f'" and len': "length as \<le> f'" using len by (cases f) auto
  let ?C1 = "C\<lparr>parent := Some (PGremlin p)\<rparr>"
  let ?w1 = "set_gremlin c ?C1 w"
  let ?F = "\<lambda>(k, v) w. fold (bump k v) as (bump k v c w)"
  have anc1: "ancestry ?w1 p as" by (rule ancestry_set_other [OF anc nc])
  have kl1: "keyless_on ?w1 as v" if "keyless_on w as v" for v
    using that nc by (auto simp: keyless_on_def)
  have ps: "\<forall>(k, v)\<in>set (bound_params C). map_of (bound_params ?C1) k = Some v \<and> hashable v \<and>
             keyless_on ?w1 as v \<and> (\<forall>k'\<in>fst ` set (bound_params C). v \<noteq> VStr k')"
    using vs dk kl1 by (auto simp: map_of_is_SomeI)
  have fe: "forE (\<lambda>v. bind_param f c v None) (map (VStr \<circ> fst) (bound_params C)) ?w1 =
      (Inr (), fold ?F (bound_params C) ?w1)"
    unfolding f by (rule forE_rebind [OF anc1 params_only_refl len' nc _ _ ps]) (simp_all add: parent_gid_def)
  have "\<exists>Cn. heap (fold ?F ps ?w1) c = Some Cn \<and> bound_params Cn = bound_params C"
    if "set ps \<subseteq> set (bound_params C)" for ps
    using that
  proof (induction ps rule: rev_induct)
    case Nil
    then show ?case by simp
  next
    case (snoc kv ps)
    then obtain Cn where hn: "heap (fold ?F ps ?w1) c = Some Cn" and bn: "bound_params Cn = bound_params C" by auto
    obtain k v where kv: "kv = (k, v)" by (cases kv)
    have "map_of (bound_params Cn) k = Some v" using snoc.prems kv bn dk by (auto simp: map_of_is_SomeI)
    then have "heap (bump k v c (fold ?F ps ?w1)) c = Some (Cn\<lparr>bound_count := Suc (bound_count Cn)\<rparr>)"
      using hn by (simp add: bump_def update_triv)
    then have "heap (fold (bump k v) as (bump k v c (fold ?F ps ?w1))) c = Some (Cn\<lparr>bound_count := Suc (bound_count Cn)\<rparr>)"
      using heap_fold_bump_other [OF nc] by simp
    then show ?case using kv bn by simp
  qed
  then obtain Cn where "heap (fold ?F (bound_params C) ?w1) c = Some Cn" and "bound_params Cn = bound_params C"
    by blast
  then show ?thesis using hc fe by (simp add: set_parent_gremlin_def bind_params_def bindE_def)
qed

lemma bump_keeps_key:
  "heap w h = Some H \<Longrightarrow> map_of (bound_params H) k = Some v \<Longrightarrow> k \<noteq> name \<Longrightarrow>
   \<exists>H'. heap (bump name x a w) h = Some H' \<and> map_of (bound_params H') k = Some v"
  by (auto simp: bump_def update_conv' split: option.splits)

lemma fold_bump_keeps_key:
  "heap w h = Some H \<Longrightarrow> map_of (bound_params H) k = Some v \<Longrightarrow> k \<noteq> name \<Longrightarrow>
   \<exists>H'. heap (fold (bump name x) bs w) h = Some H' \<and> map_of (bound_params H') k = Some v"
proof (induction bs arbitrary: w H)
  case (Cons b bs)
  from bump_keeps_key [OF Cons.prems] obtain H1 where
    "heap (bump name x b w) h = Some H1" and "map_of (bound_params H1) k = Some v" by blast
  from Cons.IH [OF this Cons.prems(3)] show ?case by simp
qed simp

lemma rebind_keeps_key:
  "heap w h = Some H \<Longrightarrow> map_of (bound_params H) k = Some v \<Longrightarrow> k \<notin> fst ` set ps \<Longrightarrow>
   \<exists>H'. heap (fold (\<lambda>(k, v) w. fold (bump k v) as (bump k v c w)) ps w) h = Some H' \<and>
        map_of (bound_params H') k = Some v"
proof (induction ps arbitrary: w H)
  case (Cons kv ps)
  obtain k1 v1 where kv: "kv = (k1, v1)" by (cases kv)
  with Cons.prems(3) have ne: "k \<noteq> k1" and nps: "k \<notin> fst ` set ps" by auto
  from bump_keeps_key [OF Cons.prems(1,2) ne] obtain H1 where
    "heap (bump k1 v1 c w) h = Some H1" and "map_of (bound_params H1) k = Some v" by blast
  from fold_bump_keeps_key [OF this ne] obtain H2 where
    "heap (fold (bump k1 v1) as (bump k1 v1 c w)) h = Some H2" and "map_of (bound_params H2) k = Some v" by blast
  from Cons.IH [OF this nps] show ?case using kv by simp
qed simp

lemma rebind_sets:
  assumes "a \<in> set as" and "c \<notin> set as" and "heap w a = Some A" and "(k, v) \<in> set ps"
    and "distinct (map fst ps)"
  shows "\<exists>A'. heap (fold (\<lambda>(k, v) w. fold (bump k v) as (bump k v c w)) ps w) a = Some A' \<and>
             map_of (bound_params A') k = Some v"
  using assms(3-5)
proof (induction ps arbitrary: w A)
  case (Cons kv ps)
  obtain k1 v1 where kv: "kv = (k1, v1)" by (cases kv)
  have ca: "c \<noteq> a" using assms(1,2) by auto
  have h1: "heap (bump k1 v1 c w) a = Some A" using Cons.prems(1) ca by (auto simp: bump_def split: option.splits)
  show ?case
  proof (cases "k1 = k")
    case True
    with Cons.prems(2,3) kv have v1: "v1 = v" and nps: "k \<notin> fst ` set ps" by (auto simp: rev_image_eqI)
    from fold_bump_sets [OF assms(1) h1] obtain A2 where
      "heap (fold (bump k1 v1) as (bump k1 v1 c w)) a = Some A2" and "map_of (bound_params A2) k1 = Some v1" by blast
    from rebind_keeps_key [OF this, of ps as c] nps True v1 show ?thesis using kv by simp
  next
    case False
    with Cons.prems(2) kv have m: "(k, v) \<in> set ps" by auto
    obtain A2 where "heap (fold (bump k1 v1) as (bump k1 v1 c w)) a = Some A2"
      using fold_bump_sets [OF assms(1) h1, of k1 v1] by blast
    from Cons.IH [OF this m] Cons.prems(3) show ?thesis using kv by simp
  qed
qed simp

lemma ancestry_heap: "ancestry w p as \<Longrightarrow> a \<in> set as \<Longrightarrow> \<exists>A. heap w a = Some A"
  by (induction rule: ancestry.induct) auto

text \<open>C17. Functional behaviour of \<open>set_parent_gremlin\<close>, the composition step of nesting:
  the parent is recorded, then every key of the builder's dictionary is re-bound, which
  leaves the dictionary as it is and counts the call, and stores the pair in every
  ancestor of the new parent; the result is the builder's dictionary.\<close>

theorem set_parent_gremlin_spec:
  assumes "ancestry w p as" and "heap w c = Some C" and "c \<notin> set as"
    and "length as < f" and "distinct (map fst (bound_params C))"
    and "\<forall>(k, v)\<in>set (bound_params C). hashable v \<and> keyless_on w as v \<and>
           (\<forall>k'\<in>fst ` set (bound_params C). v \<noteq> VStr k')"
  shows "set_parent_gremlin f c (PGremlin p) w =
    (Inr (bound_params C), fold (\<lambda>(k, v) w. fold (bump k v) as (bump k v c w)) (bound_params C)
                             (set_gremlin c (C\<lparr>parent := Some (PGremlin p)\<rparr>) w))"
  using set_parent_gremlin_rebinds [OF assms] .

text \<open>C18. Nesting composes the dictionaries: once a builder is parented, every builder up
  the new parent's ancestors maps each of the nested builder's names to its value, and
  the nested builder keeps its own dictionary.\<close>

theorem set_parent_propagates:
  assumes "ancestry w p as" and "heap w c = Some C" and "c \<notin> set as"
    and "length as < f" and "distinct (map fst (bound_params C))"
    and "\<forall>(k, v)\<in>set (bound_params C). hashable v \<and> keyless_on w as v \<and>
           (\<forall>k'\<in>fst ` set (bound_params C). v \<noteq> VStr k')"
    and "a \<in> set as" and "(k, v) \<in> set (bound_params C)"
  shows "\<exists>w' A'. set_parent_gremlin f c (PGremlin p) w = (Inr (bound_params C), w') \<and>
           heap w' a = Some A' \<and> map_of (bound_params A') k = Some v"
proof -
  obtain A where "heap w a = Some A" using ancestry_heap [OF assms(1,7)] by blast
  then have "heap (set_gremlin c (C\<lparr>parent := Some (PGremlin p)\<rparr>) w) a = Some A"
    using assms(3,7) by auto
  from rebind_sets [OF assms(7,3) this assms(8,5)] show ?thesis
    using set_parent_gremlin_rebinds [OF assms(1-6)] by simp
qed

section \<open>Binding a list of literals\<close>

lemma bind_param_root_fresh:
  assumes "heap w g = Some G" and "parent G = None" and "map_of (bound_params G) s = None"
    and "map_of (bound_params G) (gen_name (bound_param G) (Suc (bound_count G))) = None"
  shows "bind_param (Suc f) g (VStr s) None w =
    (Inr (gen_name (bound_param G) (Suc (bound_count G)), VStr s),
     set_gremlin g (G\<lparr>bound_count := Suc (bound_count G),
       bound_params := bound_params G @ [(gen_name (bound_param G) (Suc (bound_count G)), VStr s)]\<rparr>) w)"
  using assms by (simp add: update_new Let_def)

lemma forE_bind_root_fresh:
  assumes "heap w g = Some G" and "parent G = None"
    and "\<forall>s\<in>set ss. map_of (bound_params G) s = None \<and> take 10 s \<noteq> ''GPY_PARAM_''"
    and "\<forall>n > bound_count G. map_of (bound_params G) (gen_name (bound_param G) n) = None"
  shows "forE (\<lambda>v. bind_param (Suc f) g v None) (map VStr ss) w =
    (Inr (), set_gremlin g (G\<lparr>bound_count := bound_count G + length ss,
       bound_params := bound_params G @
         zip (map (gen_name (bound_param G)) [Suc (bound_count G)..<Suc (bound_count G + length ss)]) (map VStr ss)\<rparr>) w)"
  using assms
proof (induction ss arbitrary: G w)
  case Nil
  then show ?case by (simp add: set_gremlin_same ok_def)
next
  case (Cons s ss)
  let ?c = "bound_count G" and ?seed = "bound_param G"
  let ?nm = "gen_name ?seed (Suc ?c)"
  let ?G1 = "G\<lparr>bound_count := Suc ?c, bound_params := bound_params G @ [(?nm, VStr s)]\<rparr>"
  have fresh: "map_of (bound_params G) ?nm = None" using Cons.prems(4) by simp
  have b: "bind_param (Suc f) g (VStr s) None w = (Inr (?nm, VStr s), set_gremlin g ?G1 w)"
    using bind_param_root_fresh [OF Cons.prems(1,2) _ fresh] Cons.prems(3) by simp
  have h1: "heap (set_gremlin g ?G1 w) g = Some ?G1" by simp
  have h2: "parent ?G1 = None" using Cons.prems(2) by simp
  have h3: "\<forall>s'\<in>set ss. map_of (bound_params ?G1) s' = None \<and> take 10 s' \<noteq> ''GPY_PARAM_''"
    using Cons.prems(3) by auto
  have h4: "\<forall>n > bound_count ?G1. map_of (bound_params ?G1) (gen_name (bound_param ?G1) n) = None"
    using Cons.prems(4) by auto
  note ih = Cons.IH [where G = ?G1 and w = "set_gremlin g ?G1 w", OF h1 h2 h3 h4]
  have up: "[Suc ?c..<Suc (Suc (?c + length ss))] = Suc ?c # [Suc (Suc ?c)..<Suc (Suc (?c + length ss))]"
    by (simp add: upt_conv_Cons del: upt_Suc)
  show ?case using b ih by (simp add: up bindE_def del: upt_Suc bind_param.simps)
qed

text \<open>C19. \<open>bind_params\<close> on a builder without parent, over string literals that are no
  key and no generated name: the literals are stored in order under the next generated
  names, and the dictionary returned is the old one followed by these pairs.\<close>

theorem bind_params_appends:
  assumes "heap w g = Some G" and "parent G = None"
    and "\<forall>s\<in>set ss. map_of (bound_params G) s = None \<and> take 10 s \<noteq> ''GPY_PARAM_''"
    and "\<forall>n > bound_count G. map_of (bound_params G) (gen_name (bound_param G) n) = None"
  shows "bind_params (Suc f) g (map VStr ss) w =
    (Inr (bound_params G @ zip (map (gen_name (bound_param G)) [Suc (bound_count G)..<Suc (bound_count G + length ss)])
                                (map VStr ss)),
     set_gremlin g (G\<lparr>bound_count := bound_count G + length ss,
       bound_params := bound_params G @
         zip (map (gen_name (bound_param G)) [Suc (bound_count G)..<Suc (bound_count G + length ss)]) (map VStr ss)\<rparr>) w)"
  using forE_bind_root_fresh [OF assms] by (simp add: bind_params_def bindE_def)

end
