(* ===== verification/Normalize.thy ===== *)
theory Normalize
  imports Binder
begin

text \<open>
  The value normaliser \<open>_Tokenable.fix_value\<close> (\<open>src/gremlinpy/gremlin.py\<close>,
  lines 269--285) together with the two constructors it reaches: \<open>Gremlin()\<close>
  (\<open>__init__\<close> and \<open>reset\<close>, lines 83--98, which build a graph-variable token
  and so call \<open>fix_value\<close> again) and \<open>Token.__init__\<close> (lines 295--302), and
  the construction of predicates (\<open>Predicate.__init__\<close>, \<open>_p\<close>, the named
  predicates, lines 419--494).

  \<open>fix_value\<close> runs on behalf of an owner: a token, whose \<open>self.gremlin\<close> is the
  builder holding it, or a predicate, whose \<open>self.gremlin\<close> and
  \<open>self.gremlin.gv\<close> are answered by \<open>Predicate.__getattr__\<close> with the predicate
  itself. The recursion budget decreases at every nested call of the normaliser and the
  constructor.
\<close>

datatype owner =
    OTok nat pyval
  | OPred pyval

text \<open>\<open>OTok g gv\<close>: a token of builder \<open>g\<close>, whose graph variable is \<open>gv\<close>;
  \<open>OPred p\<close>: the predicate \<open>p\<close> under construction.\<close>

fun owner_gv :: "owner \<Rightarrow> pyval" where
  "owner_gv (OTok g gvv) = gvv"
| "owner_gv (OPred p) = p"

fun owner_parent :: "owner \<Rightarrow> parent_ref" where
  "owner_parent (OTok g gvv) = PGremlin g"
| "owner_parent (OPred p) = PPredicate"

text \<open>The state \<open>reset\<close> leaves (lines 89--98): no parent, an empty chain and
  dictionary, a fresh seed, no return variable, and \<open>set_graph_variable(self.gv)\<close>,
  which stores \<open>''\<close> for a false graph variable.\<close>

definition fresh_gremlin :: "pyval \<Rightarrow> string \<Rightarrow> gremlin" where
  "fresh_gremlin gvv seed =
     \<lparr>gv = gvv, top_value = (if py_truthy gvv then gvv else VStr ''''), chain = [], parent = None,
      bound_params = [], bound_param = seed, bound_count = 0, return_var = VNone\<rparr>"

text \<open>The last branch of \<open>fix_value\<close>: a scalar is bound through the owner's builder
  when the token's class allows it.\<close>

fun fix_scalar :: "nat \<Rightarrow> owner \<Rightarrow> bool \<Rightarrow> pyval \<Rightarrow> (pyerr, world, pyval) exc" where
  "fix_scalar f (OTok g gvv) cb v w =
     (if cb \<and> is_bindable_scalar v then
        (case bind_param f g v None w of (Inl e, w') \<Rightarrow> (Inl e, w') | (Inr (nm, _), w') \<Rightarrow> (Inr (VStr nm), w'))
      else (Inr v, w))"
| "fix_scalar f (OPred p) cb v w = (Inr v, w)"

text \<open>
  \<open>fix_value\<close>, in the order of its tests: a predicate gets a new builder
  \<open>Gremlin(self.gremlin.gv)\<close>; a list or tuple is normalised element by element (and
  becomes a list); a statement goes to \<open>self.apply_statment\<close>, which a token does not
  have (\<open>AttributeError\<close>) and a predicate answers with itself (a call that only
  prints); a nested builder gets its parent set; a scalar may be bound.

  \<open>new_gremlin f gv\<close> is \<open>Gremlin(gv)\<close>: the object takes the next address, its
  graph-variable token normalises \<open>gv\<close> before \<open>reset\<close> has run (the address
  holds no initialised builder yet), then \<open>reset\<close> draws the seed.
\<close>

fun fix_value :: "nat \<Rightarrow> owner \<Rightarrow> bool \<Rightarrow> pyval \<Rightarrow> (pyerr, world, pyval) exc"
and fix_list :: "nat \<Rightarrow> owner \<Rightarrow> bool \<Rightarrow> pyval list \<Rightarrow> (pyerr, world, pyval list) exc"
and new_gremlin :: "nat \<Rightarrow> pyval \<Rightarrow> (pyerr, world, nat) exc" where
  "fix_value 0 own cb v w = (Inl RecursionError, w)"
| "fix_value (Suc f) own cb (VPred p) w =
     (case new_gremlin f (owner_gv own) w of (Inl e, w') \<Rightarrow> (Inl e, w') | (Inr _, w') \<Rightarrow> (Inr (VPred p), w'))"
| "fix_value (Suc f) own cb (VList vs) w =
     (case fix_list f own cb vs w of (Inl e, w') \<Rightarrow> (Inl e, w') | (Inr vs', w') \<Rightarrow> (Inr (VList vs'), w'))"
| "fix_value (Suc f) own cb (VStmt s) w =
     (case own of OTok g gvv \<Rightarrow> (Inl AttributeError, w) | OPred p \<Rightarrow> (Inr (VStmt s), w))"
| "fix_value (Suc f) own cb (VGremlin c) w =
     (case set_parent_gremlin f c (owner_parent own) w of
        (Inl e, w') \<Rightarrow> (Inl e, w') | (Inr _, w') \<Rightarrow> (Inr (VGremlin c), w'))"
| "fix_value (Suc f) own cb v w = fix_scalar f own cb v w"
| "fix_list f own cb [] w = (Inr [], w)"
| "fix_list f own cb (v # vs) w =
     (case fix_value f own cb v w of
        (Inl e, w') \<Rightarrow> (Inl e, w')
      | (Inr v', w') \<Rightarrow>
          (case fix_list f own cb vs w' of (Inl e, w'') \<Rightarrow> (Inl e, w'') | (Inr vs', w'') \<Rightarrow> (Inr (v' # vs'), w'')))"
| "new_gremlin 0 gvv w = (Inl RecursionError, w)"
| "new_gremlin (Suc f) gvv w =
     (let n = next_id w in
      case fix_value f (OTok n gvv) False gvv (w\<lparr>next_id := Suc n\<rparr>) of
        (Inl e, w') \<Rightarrow> (Inl e, w')
      | (Inr _, w') \<Rightarrow>
          (Inr n, w'\<lparr>heap := (heap w')(n \<mapsto> fresh_gremlin gvv (uuids w' (draws w'))),
                     draws := Suc (draws w')\<rparr>))"

text \<open>\<open>Token.__init__\<close> (lines 295--302) for a token of class \<open>k\<close> of builder
  \<open>g\<close>: the value is normalised without binding, then the argument tuple with the
  class's \<open>can_bind\<close>.\<close>

definition token_init :: "nat \<Rightarrow> nat \<Rightarrow> tkind \<Rightarrow> pyval \<Rightarrow> pyval list \<Rightarrow> (pyerr, world, token) exc" where
  "token_init f g k v args w =
     (case heap w g of
        None \<Rightarrow> (Inl AttributeError, w)
      | Some G \<Rightarrow>
          (case fix_value f (OTok g (gv G)) False v w of
             (Inl e, w1) \<Rightarrow> (Inl e, w1)
           | (Inr v', w1) \<Rightarrow>
               (case fix_list f (OTok g (gv G)) (can_bind k) args w1 of
                  (Inl e, w2) \<Rightarrow> (Inl e, w2)
                | (Inr args', w2) \<Rightarrow> (Inr \<lparr>kind = k, tvalue = v', targs = args'\<rparr>, w2))))"

text \<open>\<open>Predicate.__init__\<close> (lines 428--429) of class \<open>cls\<close> with
  \<open>_function\<close> \<open>fn\<close>: the arguments are normalised on behalf of the predicate, never
  bound.\<close>

definition pred_init :: "nat \<Rightarrow> string \<Rightarrow> string option \<Rightarrow> pyval list \<Rightarrow> (pyerr, world, pyval) exc" where
  "pred_init f cls fn args w =
     (case fix_list f (OPred (VPred (Pred cls fn []))) False args w of
        (Inl e, w') \<Rightarrow> (Inl e, w')
      | (Inr args', w') \<Rightarrow> (Inr (VPred (Pred cls fn args')), w'))"

text \<open>The named predicates (lines 446--494): \<open>_function\<close> is the class name.\<close>

definition named_predicates :: "string list" where
  "named_predicates = [''eq'', ''neq'', ''lt'', ''lte'', ''gt'', ''gte'', ''inside'', ''outside'',
     ''between'', ''within'', ''without'']"

definition named_pred :: "nat \<Rightarrow> string \<Rightarrow> pyval list \<Rightarrow> (pyerr, world, pyval) exc" where
  "named_pred f cls args = pred_init f cls (Some cls) args"

text \<open>\<open>_p(name, *args)\<close> (lines 419--423): a bare \<open>Predicate\<close> whose
  \<open>_function\<close> is set afterwards.\<close>

definition p_pred :: "nat \<Rightarrow> string \<Rightarrow> pyval list \<Rightarrow> (pyerr, world, pyval) exc" where
  "p_pred f name args w =
     (case pred_init f ''Predicate'' None args w of
        (Inr (VPred (Pred cls fn args')), w') \<Rightarrow> (Inr (VPred (Pred cls (Some name) args')), w')
      | r \<Rightarrow> r)"

text \<open>Values without a statement at the top or inside a list: what a token built by
  \<open>Token.__init__\<close> may hold.
  (\<open>fix_value\<close> does not look inside a slice.)\<close>

fun no_stmt :: "pyval \<Rightarrow> bool" where
  "no_stmt (VStmt s) = False"
| "no_stmt (VList xs) = list_all no_stmt xs"
| "no_stmt _ = True"

definition tok_ok :: "token \<Rightarrow> bool" where
  "tok_ok t \<longleftrightarrow> no_stmt (tvalue t) \<and> list_all no_stmt (targs t)"

fun is_tok :: "owner \<Rightarrow> bool" where
  "is_tok (OTok g gvv) = True"
| "is_tok (OPred p) = False"

section \<open>Lemmas\<close>

lemma fix_scalar_no_stmt:
  "fix_scalar f own cb v w = (Inr v', w') \<Longrightarrow> no_stmt v \<Longrightarrow> no_stmt v'"
  by (cases own) (auto split: if_splits prod.splits sum.splits)

lemma fix_value_no_stmt:
  "fix_value f own cb v w = (Inr v', w') \<Longrightarrow> is_tok own \<Longrightarrow> no_stmt v'"
  "fix_list f own cb vs w = (Inr vs', w') \<Longrightarrow> is_tok own \<Longrightarrow> list_all no_stmt vs'"
  "new_gremlin f gvv w = new_gremlin f gvv w"
proof (induction f own cb v w and f own cb vs w and f gvv w arbitrary: v' w' and vs' w' and
       rule: fix_value_fix_list_new_gremlin.induct)
  case (4 f own cb s w)
  then show ?case by (cases own) auto
next
  case (8 f own cb v vs w)
  then show ?case by (auto split: prod.splits sum.splits)
qed (auto split: prod.splits sum.splits intro: fix_scalar_no_stmt)

text \<open>C13. No token built by \<open>Token.__init__\<close> holds a statement: the constructor either fails or returns a
  token whose value and arguments are free of statements at the top and inside lists, so
  the statement branches of the token renderers are never taken.\<close>

theorem token_init_stmt_free:
  "token_init f g k v args w = (Inr t, w') \<Longrightarrow> tok_ok t"
  by (auto simp: token_init_def tok_ok_def split: option.splits prod.splits sum.splits
           dest: fix_value_no_stmt(1,2))

lemma new_gremlin_pred_gv:
  "fst (new_gremlin f (VPred p) w) = Inl RecursionError"
proof (induction f arbitrary: w rule: less_induct)
  case (less f)
  show ?case
  proof (cases f)
    case 0
    then show ?thesis by simp
  next
    case (Suc f1)
    show ?thesis
    proof (cases f1)
      case 0
      then show ?thesis using Suc by simp
    next
      case (Suc f2)
      let ?w1 = "w\<lparr>next_id := Suc (next_id w)\<rparr>"
      have "fst (new_gremlin f2 (VPred p) ?w1) = Inl RecursionError"
        using less Suc \<open>f = Suc f1\<close> by simp
      then show ?thesis using Suc \<open>f = Suc f1\<close>
        by (auto simp: Let_def split: prod.splits sum.splits)
    qed
  qed
qed

text \<open>C14. A predicate whose first argument is a predicate can never be built: its
  \<open>fix_value\<close> creates \<open>Gremlin(self.gremlin.gv)\<close>, where both attribute reads
  return the outer predicate, and that builder's graph-variable token normalises the
  predicate again, without end.\<close>

theorem pred_init_nested_pred:
  "fst (pred_init f cls fn (VPred q # args) w) = Inl RecursionError"
proof (cases f)
  case 0
  then show ?thesis by (simp add: pred_init_def)
next
  case (Suc f1)
  have "fst (new_gremlin f1 (VPred (Pred cls fn [])) w) = Inl RecursionError"
    by (rule new_gremlin_pred_gv)
  then show ?thesis using Suc
    by (auto simp: pred_init_def split: prod.splits sum.splits)
qed

text \<open>On a builder without parent, normalising the arguments of a \<open>Function\<close>
  token binds every string argument, not only the last one: the \<open>n\<close> strings become
  the next \<open>n\<close> generated names, and the dictionary gains one entry per argument in
  order.\<close>

lemma fix_list_binds_all:
  assumes "heap w g = Some G" and "parent G = None"
    and "\<forall>s\<in>set ss. map_of (bound_params G) s = None \<and> take 10 s \<noteq> ''GPY_PARAM_''"
    and "\<forall>n > bound_count G. map_of (bound_params G) (gen_name (bound_param G) n) = None"
  shows "fix_list (Suc (Suc f)) (OTok g gvv) True (map VStr ss) w =
    (Inr (map (\<lambda>n. VStr (gen_name (bound_param G) n)) [Suc (bound_count G)..<Suc (bound_count G + length ss)]),
     set_gremlin g (G\<lparr>bound_count := bound_count G + length ss,
       bound_params := bound_params G @
         zip (map (gen_name (bound_param G)) [Suc (bound_count G)..<Suc (bound_count G + length ss)]) (map VStr ss)\<rparr>) w)"
  using assms
proof (induction ss arbitrary: G w)
  case Nil
  then show ?case by (simp add: set_gremlin_same)
next
  case (Cons s ss)
  let ?c = "bound_count G" and ?seed = "bound_param G"
  let ?nm = "gen_name ?seed (Suc ?c)"
  let ?G1 = "G\<lparr>bound_count := Suc ?c, bound_params := bound_params G @ [(?nm, VStr s)]\<rparr>"
  have fresh: "map_of (bound_params G) ?nm = None" using Cons.prems(4) by simp
  have b: "bind_param (Suc f) g (VStr s) None w = (Inr (?nm, VStr s), set_gremlin g ?G1 w)"
    using bind_param_root_fresh [OF Cons.prems(1,2) _ fresh] Cons.prems(3) by simp
  have h1: "heap (set_gremlin g ?G1 w) g = Some ?G1" by simp
  have h2: "parent ?G1 = None" using Cons.prems(2) by simp
  have h3: "\<forall>s'\<in>set ss. map_of (bound_params ?G1) s' = None \<and> take 10 s' \<noteq> ''GPY_PARAM_''"
    using Cons.prems(3) by auto
  have h4: "\<forall>n > bound_count ?G1. map_of (bound_params ?G1) (gen_name (bound_param ?G1) n) = None"
    using Cons.prems(4) by auto
  note ih = Cons.IH [where G = ?G1 and w = "set_gremlin g ?G1 w", OF h1 h2 h3 h4]
  have up: "[Suc ?c..<Suc (Suc (?c + length ss))] = Suc ?c # [Suc (Suc ?c)..<Suc (Suc (?c + length ss))]"
    by (simp add: upt_conv_Cons del: upt_Suc)
  show ?case using b ih by (simp add: up del: upt_Suc bind_param.simps)
qed

text \<open>\<open>Gremlin(s)\<close> for a string \<open>s\<close> succeeds with two levels of fuel.\<close>

lemma new_gremlin_str:
  "new_gremlin (Suc (Suc f)) (VStr s) w =
   (Inr (next_id w), w\<lparr>next_id := Suc (next_id w),
      heap := (heap w)(next_id w \<mapsto> fresh_gremlin (VStr s) (uuids w (draws w))), draws := Suc (draws w)\<rparr>)"
  by (cases f) (simp_all add: Let_def)

end
