(* ===== verification/Render.thy ===== *)
theory Render
  imports Normalize
begin

text \<open>
  Rendering: \<open>str()\<close> of a builder (\<open>Gremlin.__unicode__\<close> over
  \<open>LinkList.__unicode__\<close>, lines 43--73 and 103--110), of each token class (the
  \<open>__unicode__\<close> methods of lines 253--416) and of a predicate (lines 431--436).

  Rendering is not read-only in the source: \<open>Function.__unicode__\<close> pops its last
  argument and appends its text in its place, and the tokens holding a nested builder set
  that builder's parent again (which re-binds its parameters into the enclosing builder).
  So every renderer is a world transformer; a token is addressed by its builder and its
  position in the chain and re-read from the world whenever the source reads it again.
  The budget decreases at each nested \<open>str()\<close>: a builder, a token, a predicate; the
  loop over the chain does not consume it.
\<close>

section \<open>Tokens in the world\<close>

definition get_tok :: "nat \<Rightarrow> nat \<Rightarrow> world \<Rightarrow> token option" where
  "get_tok g i w =
     (case heap w g of None \<Rightarrow> None | Some G \<Rightarrow> if i < length (chain G) then Some (chain G ! i) else None)"

definition upd_tok :: "nat \<Rightarrow> nat \<Rightarrow> (token \<Rightarrow> token) \<Rightarrow> world \<Rightarrow> world" where
  "upd_tok g i h w =
     (case heap w g of
        None \<Rightarrow> w
      | Some G \<Rightarrow> set_gremlin g (G\<lparr>chain := (chain G)[i := h (chain G ! i)]\<rparr>) w)"

text \<open>\<open>add_token\<close> (lines 216--220) on the list of tokens after the graph variable.\<close>

definition add_token :: "nat \<Rightarrow> token \<Rightarrow> world \<Rightarrow> world" where
  "add_token g t w =
     (case heap w g of None \<Rightarrow> w | Some G \<Rightarrow> set_gremlin g (G\<lparr>chain := chain G @ [t]\<rparr>) w)"

definition attr_token :: "string \<Rightarrow> token" where
  "attr_token a = \<lparr>kind = Attribute, tvalue = VStr a, targs = []\<rparr>"

section \<open>The token classes\<close>

text \<open>
  Each renderer receives \<open>sv\<close>, the \<open>str()\<close> of a value one level deeper, and the
  budget \<open>f\<close> for the parent propagation it triggers.

  \<open>Function.__unicode__\<close> (lines 333--350): pop the last argument; a statement goes to
  \<open>self.apply_statment\<close>, which a token does not have; a nested builder gets its
  parent set; the text of the popped value is appended to the argument list, which is
  then rendered with \<open>map(str, ...)\<close>, and finally the function name.
\<close>

definition render_function ::
  "nat \<Rightarrow> (pyval \<Rightarrow> (pyerr, world, string) exc) \<Rightarrow> nat \<Rightarrow> nat \<Rightarrow> token \<Rightarrow> (pyerr, world, string) exc" where
  "render_function f sv g i t w =
     (if targs t = [] then bindE (sv (tvalue t)) (\<lambda>s. ok (s @ ''()'')) w
      else
        (let bound = last (targs t);
             w1 = upd_tok g i (\<lambda>t'. t'\<lparr>targs := butlast (targs t')\<rparr>) w;
             finish =
               bindE (sv bound) (\<lambda>s w2.
                 (let w3 = upd_tok g i (\<lambda>t'. t'\<lparr>targs := targs t' @ [VStr s]\<rparr>) w2 in
                  case get_tok g i w3 of
                    None \<Rightarrow> (Inl AttributeError, w3)
                  | Some t3 \<Rightarrow>
                      bindE (mapE sv (targs t3)) (\<lambda>ss.
                        bindE (sv (tvalue t)) (\<lambda>v. ok (v @ ''('' @ join_sep '', '' ss @ '')''))) w3))
         in case bound of
              VStmt _ \<Rightarrow> (Inl AttributeError, w1)
            | VGremlin c \<Rightarrow> bindE (set_parent_gremlin f c (PGremlin g)) (\<lambda>_. finish) w1
            | _ \<Rightarrow> finish w1))"

text \<open>\<open>UnboudFunction.__unicode__\<close> (lines 361--362): the arguments are joined as they
  are, so a non-string argument raises \<open>TypeError\<close>.\<close>

definition render_unbound ::
  "(pyval \<Rightarrow> (pyerr, world, string) exc) \<Rightarrow> token \<Rightarrow> (pyerr, world, string) exc" where
  "render_unbound sv t w =
     (case py_join '', '' (targs t) of
        Inl e \<Rightarrow> (Inl e, w)
      | Inr j \<Rightarrow> bindE (sv (tvalue t)) (\<lambda>v. ok (v @ ''('' @ j @ '')'')) w)"

text \<open>\<open>Index.__unicode__\<close> (lines 371--377): the value is the slice built by
  \<open>__getitem__\<close>; its step is ignored and its start printed even when it is
  \<open>None\<close>. Any other value has no attribute \<open>stop\<close>.\<close>

definition render_index ::
  "(pyval \<Rightarrow> (pyerr, world, string) exc) \<Rightarrow> token \<Rightarrow> (pyerr, world, string) exc" where
  "render_index sv t =
     (case tvalue t of
        VSlice a b c \<Rightarrow>
          (if b \<noteq> VNone then bindE (sv a) (\<lambda>s1. bindE (sv b) (\<lambda>s2. ok (''['' @ s1 @ ''..'' @ s2 @ '']'')))
           else bindE (sv a) (\<lambda>s. ok (''['' @ s @ '']'')))
      | _ \<Rightarrow> throw AttributeError)"

text \<open>
  \<open>Closure.__unicode__\<close> and \<open>ClosureArguments.__unicode__\<close> (lines 382--403):
  a statement body goes to \<open>self.gremlin.apply_statment\<close>, which the builder answers
  with \<open>__getattr__\<close>: an \<open>Attribute\<close> token \<open>apply_statment\<close> is appended, and
  calling the builder with the statement fails in \<open>fix_value\<close>; a nested builder gets
  its parent set. Then \<open>{body}\<close>, or \<open>{a,b -> body}\<close> with the arguments joined
  as they are.
\<close>

definition render_closure ::
  "nat \<Rightarrow> (pyval \<Rightarrow> (pyerr, world, string) exc) \<Rightarrow> nat \<Rightarrow> bool \<Rightarrow> token \<Rightarrow> (pyerr, world, string) exc" where
  "render_closure f sv g witharg t w =
     (let body =
        (if witharg then
           (\<lambda>w'. case py_join '','' (targs t) of
                   Inl e \<Rightarrow> (Inl e, w')
                 | Inr j \<Rightarrow> bindE (sv (tvalue t)) (\<lambda>s. ok (''{'' @ j @ '' -> '' @ s @ ''}'')) w')
         else bindE (sv (tvalue t)) (\<lambda>s. ok (''{'' @ s @ ''}'')))
      in case tvalue t of
           VStmt _ \<Rightarrow> (Inl AttributeError, add_token g (attr_token ''apply_statment'') w)
         | VGremlin c \<Rightarrow> bindE (set_parent_gremlin f c (PGremlin g)) (\<lambda>_. body) w
         | _ \<Rightarrow> body w)"

text \<open>\<open>Raw.__unicode__\<close> (lines 408--416): a nested builder gets its parent set, then
  \<open>str(value)\<close>. A statement value is handed to \<open>_Tokenable.apply_statement\<close> and
  the statement's own text, both of \<open>gremlinpy.statement\<close>, which is not part of the
  sources; that branch is outside the model (no token ever holds a statement: the
  construction of such a token fails, theory \<open>Normalize\<close>).\<close>

definition render_raw ::
  "nat \<Rightarrow> (pyval \<Rightarrow> (pyerr, world, string) exc) \<Rightarrow> nat \<Rightarrow> token \<Rightarrow> (pyerr, world, string) exc" where
  "render_raw f sv g t w =
     (case tvalue t of
        VStmt _ \<Rightarrow> (Inl AttributeError, w)
      | VGremlin c \<Rightarrow> bindE (set_parent_gremlin f c (PGremlin g)) (\<lambda>_. sv (tvalue t)) w
      | _ \<Rightarrow> sv (tvalue t) w)"

section \<open>str() of values, builders and predicates\<close>

text \<open>
  \<open>pred_str\<close> is \<open>Predicate.__unicode__\<close>: an empty \<open>_function\<close> raises
  \<open>PredicateError\<close>; a missing one is answered by \<open>__getattr__\<close> with the
  predicate itself, which is true, so the text is formatted with \<open>%s\<close> of the
  predicate: \<open>str()\<close> again, without end. The arguments are joined as they are.

  \<open>render_gremlin\<close> is \<open>Gremlin.__unicode__\<close>: the graph variable's text, the
  chain walked by \<open>render_chain\<close> with the separator step \<open>loop_step\<close> of theory
  \<open>Tokens\<close>, and the \<open>return_var\<close> prefix.
\<close>

fun str_val :: "nat \<Rightarrow> pyval \<Rightarrow> (pyerr, world, string) exc"
and pred_str :: "nat \<Rightarrow> pred \<Rightarrow> (pyerr, world, string) exc"
and render_gremlin :: "nat \<Rightarrow> nat \<Rightarrow> (pyerr, world, string) exc"
and render_chain :: "nat \<Rightarrow> nat \<Rightarrow> nat list \<Rightarrow> tkind \<Rightarrow> string list \<Rightarrow> (pyerr, world, string list) exc"
and render_token :: "nat \<Rightarrow> nat \<Rightarrow> nat \<Rightarrow> (pyerr, world, string) exc" where
  "str_val f (VStr s) w = (Inr s, w)"
| "str_val f (VInt i) w = (Inr (int_str i), w)"
| "str_val f (VBool b) w = (Inr (if b then ''True'' else ''False''), w)"
| "str_val f VNone w = (Inr ''None'', w)"
| "str_val f (VList xs) w = (Inr (py_repr (VList xs)), w)"
| "str_val f (VSlice a b c) w = (Inr (py_repr (VSlice a b c)), w)"
| "str_val f (VStmt s) w = (Inr (py_repr (VStmt s)), w)"
| "str_val 0 (VGremlin c) w = (Inl RecursionError, w)"
| "str_val (Suc f) (VGremlin c) w = render_gremlin f c w"
| "str_val 0 (VPred p) w = (Inl RecursionError, w)"
| "str_val (Suc f) (VPred p) w = pred_str f p w"
| "pred_str 0 p w = (Inl RecursionError, w)"
| "pred_str (Suc f) (Pred cls fn args) w =
     (case fn of
        Some s \<Rightarrow>
          (if s = [] then (Inl (PredicateError (cls @ '' predicate does not have a _function defined'')), w)
           else (case py_join '', '' args of Inl e \<Rightarrow> (Inl e, w) | Inr j \<Rightarrow> (Inr (s @ ''('' @ j @ '')''), w)))
      | None \<Rightarrow>
          (case py_join '', '' args of
             Inl e \<Rightarrow> (Inl e, w)
           | Inr j \<Rightarrow>
               (case str_val f (VPred (Pred cls fn args)) w of
                  (Inl e, w') \<Rightarrow> (Inl e, w')
                | (Inr s, w') \<Rightarrow> (Inr (s @ ''('' @ j @ '')''), w'))))"
| "render_gremlin 0 g w = (Inl RecursionError, w)"
| "render_gremlin (Suc f) g w =
     (case heap w g of
        None \<Rightarrow> (Inl AttributeError, w)
      | Some G \<Rightarrow>
          (case str_val f (top_value G) w of
             (Inl e, w1) \<Rightarrow> (Inl e, w1)
           | (Inr s0, w1) \<Rightarrow>
               (case render_chain f g [0..<length (chain G)] GraphVariable [s0] w1 of
                  (Inl e, w2) \<Rightarrow> (Inl e, w2)
                | (Inr ts, w2) \<Rightarrow>
                    (case heap w2 g of
                       None \<Rightarrow> (Inl AttributeError, w2)
                     | Some G2 \<Rightarrow>
                         (if return_var G2 = VNone then (Inr (concat ts), w2)
                          else (case str_val f (return_var G2) w2 of
                                  (Inl e, w3) \<Rightarrow> (Inl e, w3)
                                | (Inr r, w3) \<Rightarrow> (Inr (r @ '' = '' @ concat ts), w3)))))))"
| "render_chain f g [] pk ts w = (Inr ts, w)"
| "render_chain 0 g (i # is) pk ts w = (Inl RecursionError, w)"
| "render_chain (Suc f) g (i # is) pk ts w =
     (case get_tok g i w of
        None \<Rightarrow> (Inl AttributeError, w)
      | Some t \<Rightarrow>
          (case render_token f g i w of
             (Inl e, w') \<Rightarrow> (Inl e, w')
           | (Inr s, w') \<Rightarrow> render_chain (Suc f) g is (kind t) (loop_step pk ts (kind t) s) w'))"
| "render_token 0 g i w = (Inl RecursionError, w)"
| "render_token (Suc f) g i w =
     (case get_tok g i w of
        None \<Rightarrow> (Inl AttributeError, w)
      | Some t \<Rightarrow>
          (case kind t of
             Function \<Rightarrow> render_function f (str_val f) g i t w
           | FunctionRaw \<Rightarrow> render_function f (str_val f) g i t w
           | UnboudFunction \<Rightarrow> render_unbound (str_val f) t w
           | UnboudFunctionRaw \<Rightarrow> render_unbound (str_val f) t w
           | Index \<Rightarrow> render_index (str_val f) t w
           | Closure \<Rightarrow> render_closure f (str_val f) g False t w
           | ClosureArguments \<Rightarrow> render_closure f (str_val f) g True t w
           | Raw \<Rightarrow> render_raw f (str_val f) g t w
           | _ \<Rightarrow> str_val f (tvalue t) w))"


text \<open>Values whose \<open>str()\<close> needs no builder and no predicate, and their text.\<close>

fun plain :: "pyval \<Rightarrow> bool" where
  "plain (VGremlin c) = False"
| "plain (VPred p) = False"
| "plain (VStmt s) = False"
| "plain _ = True"

fun plain_str :: "pyval \<Rightarrow> string" where
  "plain_str (VStr s) = s"
| "plain_str (VInt i) = int_str i"
| "plain_str (VBool b) = (if b then ''True'' else ''False'')"
| "plain_str VNone = ''None''"
| "plain_str v = py_repr v"

text \<open>The text of a token whose rendering reads no builder and changes nothing: a plain
  value, string arguments, a slice of plain values. A \<open>Function\<close> token with string
  arguments pops its last argument and appends the same string back.\<close>

definition static_text :: "token \<Rightarrow> string option" where
  "static_text t =
     (if \<not> plain (tvalue t) then None else
      (case kind t of
         Function \<Rightarrow> (case join_strs (targs t) of Inr ss \<Rightarrow> Some (plain_str (tvalue t) @ ''('' @ join_sep '', '' ss @ '')'') | Inl _ \<Rightarrow> None)
       | FunctionRaw \<Rightarrow> (case join_strs (targs t) of Inr ss \<Rightarrow> Some (plain_str (tvalue t) @ ''('' @ join_sep '', '' ss @ '')'') | Inl _ \<Rightarrow> None)
       | UnboudFunction \<Rightarrow> (case join_strs (targs t) of Inr ss \<Rightarrow> Some (plain_str (tvalue t) @ ''('' @ join_sep '', '' ss @ '')'') | Inl _ \<Rightarrow> None)
       | UnboudFunctionRaw \<Rightarrow> (case join_strs (targs t) of Inr ss \<Rightarrow> Some (plain_str (tvalue t) @ ''('' @ join_sep '', '' ss @ '')'') | Inl _ \<Rightarrow> None)
       | Index \<Rightarrow> (case tvalue t of
                    VSlice a b c \<Rightarrow> if plain a \<and> plain b then
                       Some (if b \<noteq> VNone then ''['' @ plain_str a @ ''..'' @ plain_str b @ '']'' else ''['' @ plain_str a @ '']'')
                       else None
                  | _ \<Rightarrow> None)
       | Closure \<Rightarrow> Some (''{'' @ plain_str (tvalue t) @ ''}'')
       | ClosureArguments \<Rightarrow> (case join_strs (targs t) of Inr ss \<Rightarrow> Some (''{'' @ join_sep '','' ss @ '' -> '' @ plain_str (tvalue t) @ ''}'') | Inl _ \<Rightarrow> None)
       | Raw \<Rightarrow> Some (plain_str (tvalue t))
       | _ \<Rightarrow> Some (plain_str (tvalue t))))"

section \<open>Lemmas\<close>

lemma static_text_attr [simp]: "static_text (attr_token a) = Some a"
  by (simp add: static_text_def attr_token_def)

lemma kind_attr_token [simp]: "kind (attr_token a) = Attribute"
  by (simp add: attr_token_def)

lemma map_VStr_eq [simp]: "map VStr xs = map VStr ys \<longleftrightarrow> xs = ys"
  by (simp add: inj_def)

lemma str_val_plain [simp]: "plain v \<Longrightarrow> str_val f v w = (Inr (plain_str v), w)"
  by (cases v) simp_all

lemma join_strs_Inr_iff: "join_strs xs = Inr ss \<longleftrightarrow> xs = map VStr ss"
proof (induction xs arbitrary: ss)
  case Nil
  then show ?case by auto
next
  case (Cons x xs)
  then show ?case by (cases x) (auto split: sum.splits)
qed

lemma get_tok_Some:
  "get_tok g i w = Some t \<longleftrightarrow> (\<exists>G. heap w g = Some G \<and> i < length (chain G) \<and> chain G ! i = t)"
  by (auto simp: get_tok_def split: option.splits)

lemma upd_tok_get:
  "get_tok g i w = Some t \<Longrightarrow> get_tok g i (upd_tok g i h w) = Some (h t)"
  by (auto simp: get_tok_Some upd_tok_def)

lemma upd_tok_upd_tok:
  "get_tok g i w = Some t \<Longrightarrow> upd_tok g i h2 (upd_tok g i h1 w) = upd_tok g i (h2 \<circ> h1) w"
  by (auto simp: get_tok_Some upd_tok_def)

lemma upd_tok_id:
  "get_tok g i w = Some t \<Longrightarrow> h t = t \<Longrightarrow> upd_tok g i h w = w"
  by (auto simp: get_tok_Some upd_tok_def set_gremlin_same)

lemma mapE_str_val_VStr: "mapE (str_val f) (map VStr ss) w = (Inr ss, w)"
  by (induction ss) (simp_all add: bindE_def)

lemma render_function_static:
  assumes "get_tok g i w = Some t" and "plain (tvalue t)" and "targs t = map VStr ss"
  shows "render_function f (str_val f') g i t w = (Inr (plain_str (tvalue t) @ ''('' @ join_sep '', '' ss @ '')''), w)"
proof (cases "ss = []")
  case True
  then show ?thesis using assms by (simp add: render_function_def bindE_def)
next
  case False
  let ?h1 = "\<lambda>t'. t'\<lparr>targs := butlast (targs t')\<rparr>"
  let ?h2 = "\<lambda>t'. t'\<lparr>targs := targs t' @ [VStr (last ss)]\<rparr>"
  have ne: "targs t \<noteq> []" using False assms(3) by simp
  have lst: "last (targs t) = VStr (last ss)" using False assms(3) by (simp add: last_map)
  have bl: "butlast (targs t) @ [VStr (last ss)] = targs t"
    using ne lst append_butlast_last_id by metis
  have id: "(?h2 \<circ> ?h1) t = t" using bl by simp
  have w3: "upd_tok g i ?h2 (upd_tok g i ?h1 w) = w"
    using upd_tok_upd_tok [OF assms(1)] upd_tok_id [where h = "?h2 \<circ> ?h1", OF assms(1) id] by simp
  have gt: "get_tok g i w = Some t" by (rule assms(1))
  have mp: "mapE (str_val f') (targs t) w = (Inr ss, w)"
    using assms(3) by (simp add: mapE_str_val_VStr)
  show ?thesis using ne lst w3 gt mp assms(2)
    by (simp add: render_function_def Let_def bindE_def split: pyval.splits)
qed

lemma render_unbound_static:
  "plain (tvalue t) \<Longrightarrow> targs t = map VStr ss \<Longrightarrow>
   render_unbound (str_val f) t w = (Inr (plain_str (tvalue t) @ ''('' @ join_sep '', '' ss @ '')''), w)"
  by (simp add: render_unbound_def bindE_def)

lemma render_token_static:
  assumes "get_tok g i w = Some t" and "static_text t = Some s"
  shows "render_token (Suc f) g i w = (Inr s, w)"
proof -
  have p: "plain (tvalue t)" using assms(2) by (simp add: static_text_def split: if_splits)
  show ?thesis
  proof (cases "kind t")
    case Index
    then show ?thesis using assms p
      by (auto simp: render_index_def bindE_def static_text_def split: pyval.splits if_splits)
  qed (use assms p in \<open>auto simp: render_function_static render_unbound_static join_strs_Inr_iff
        render_closure_def render_raw_def bindE_def py_join_def Let_def static_text_def split: sum.splits pyval.splits if_splits\<close>)
qed

lemma render_chain_static:
  assumes "heap w g = Some G"
    and "\<forall>i\<in>set ixs. i < length (chain G) \<and> static_text (chain G ! i) \<noteq> None"
  shows "render_chain (Suc (Suc f)) g ixs pk ts w =
    (Inr (render_loop pk ts (map (\<lambda>i. (kind (chain G ! i), the (static_text (chain G ! i)))) ixs)), w)"
  using assms(2)
proof (induction ixs arbitrary: pk ts)
  case Nil
  then show ?case by simp
next
  case (Cons i ixs)
  have gt: "get_tok g i w = Some (chain G ! i)" using assms(1) Cons.prems by (simp add: get_tok_def)
  obtain s where s: "static_text (chain G ! i) = Some s" using Cons.prems by auto
  show ?case using gt s render_token_static [OF gt s, of f] Cons.IH Cons.prems
    by (simp del: render_token.simps)
qed

lemma render_gremlin_plain:
  assumes "heap w g = Some G" and "plain (top_value G)" and "plain (return_var G)"
    and "\<forall>t\<in>set (chain G). static_text t \<noteq> None"
  shows "render_gremlin (Suc (Suc (Suc f))) g w =
    (Inr ((if return_var G = VNone then [] else plain_str (return_var G) @ '' = '') @
          join_chain ((GraphVariable, plain_str (top_value G)) # map (\<lambda>t. (kind t, the (static_text t))) (chain G))), w)"
proof -
  have all: "\<forall>i\<in>set [0..<length (chain G)]. i < length (chain G) \<and> static_text (chain G ! i) \<noteq> None"
    using assms(4) by auto
  have rc: "render_chain (Suc (Suc f)) g [0..<length (chain G)] GraphVariable [plain_str (top_value G)] w =
    (Inr (render_loop GraphVariable [plain_str (top_value G)] (map (\<lambda>t. (kind t, the (static_text t))) (chain G))), w)"
  proof -
    have eq: "map (\<lambda>i. (kind (chain G ! i), the (static_text (chain G ! i)))) [0..<length (chain G)] =
              map (\<lambda>t. (kind t, the (static_text t))) (chain G)"
      by (rule nth_equalityI) simp_all
    show ?thesis using render_chain_static [OF assms(1) all] by (simp only: eq)
  qed
  show ?thesis using assms(1,2,3) rc
    by (simp add: join_chain_def loop_step_def del: render_chain.simps)
qed

text \<open>C15. Rendering a builder whose graph variable, return variable and tokens are static
  computes the separator loop of \<open>LinkList.__unicode__\<close> (theory \<open>Tokens\<close>) on the
  tokens' texts and leaves the world unchanged, so a second rendering gives the same text.\<close>

theorem render_gremlin_static:
  assumes "heap w g = Some G" and "plain (top_value G)" and "plain (return_var G)"
    and "\<forall>t\<in>set (chain G). static_text t \<noteq> None"
  shows "render_gremlin (Suc (Suc (Suc f))) g w =
    (Inr ((if return_var G = VNone then [] else plain_str (return_var G) @ '' = '') @
          join_chain ((GraphVariable, plain_str (top_value G)) # map (\<lambda>t. (kind t, the (static_text t))) (chain G))), w)"
  using render_gremlin_plain [OF assms] .

lemma pred_str_unnamed:
  "py_join '', '' args = Inr j \<Longrightarrow> fst (pred_str f (Pred cls None args) w) = Inl RecursionError"
proof (induction f arbitrary: w rule: less_induct)
  case (less f)
  show ?case
  proof (cases f)
    case 0
    then show ?thesis by simp
  next
    case (Suc f1)
    show ?thesis
    proof (cases f1)
      case 0
      then show ?thesis using Suc less.prems by simp
    next
      case (Suc f2)
      have "fst (pred_str f2 (Pred cls None args) w) = Inl RecursionError"
        using less Suc \<open>f = Suc f1\<close> by simp
      then show ?thesis using Suc \<open>f = Suc f1\<close> less.prems
        by (auto split: prod.splits sum.splits)
    qed
  qed
qed

text \<open>C16. A predicate renders exactly when its \<open>_function\<close> is a non-empty string
  and its arguments are strings, as \<open>name(a, b)\<close>; one without \<open>_function\<close> never
  reaches the \<open>PredicateError\<close> of the source but recurses until the limit, and one with
  a number or a builder among its arguments raises \<open>TypeError\<close>.\<close>

theorem pred_str_ok_iff:
  "fst (pred_str f (Pred cls fn args) w) = Inr s \<longleftrightarrow>
   0 < f \<and> (\<exists>name ss. fn = Some name \<and> name \<noteq> [] \<and> args = map VStr ss \<and> s = name @ ''('' @ join_sep '', '' ss @ '')'')"
proof (cases f)
  case 0
  then show ?thesis by simp
next
  case (Suc f1)
  show ?thesis
  proof (cases fn)
    case None
    show ?thesis
    proof (cases "py_join '', '' args")
      case (Inl e)
      then show ?thesis using Suc None by simp
    next
      case (Inr j)
      then have "fst (pred_str f (Pred cls None args) w) = Inl RecursionError"
        by (rule pred_str_unnamed)
      then show ?thesis using None by simp
    qed
  next
    case (Some name)
    then show ?thesis using Suc
      by (auto simp: py_join_def join_strs_Inr_iff split: sum.splits)
  qed
qed

end
