(* ===== verification/Builder.thy ===== *)
theory Builder
  imports Render
begin

text \<open>
  The fluent surface of \<open>Gremlin\<close> (\<open>src/gremlinpy/gremlin.py\<close>, lines 83--245):
  the constructor, \<open>reset\<close>, attribute reads, calls and subscripts, the explicit token
  methods and the setters. Each operation takes the builder's address and returns the
  builder (or an exception) with the new world. The chain surgery of \<open>__call__\<close> is
  stated on the list of tokens; that it is what the pointer code does is proved in
  theory \<open>Chain\<close>.

  The attribute names \<open>__getattr__\<close> receives are those that are not attributes of the
  object or its class (\<open>gv\<close>, \<open>top\<close>, \<open>bottom\<close>, \<open>parent\<close>, the methods, ...);
  \<open>get_attr\<close> models the call for such a name. \<open>attr_call\<close> is \<open>g.name(*args)\<close> for
  every name, in the order of Python's lookup: the instance's data attributes, the
  methods of \<open>Gremlin\<close> and \<open>LinkList\<close>, the special attributes, and only then
  \<open>__getattr__\<close>. A call whose outcome depends on objects the model does not represent
  (a statement's own methods, a token passed as a value) ends in \<open>OutsideModel\<close>.
\<close>

text \<open>\<open>Gremlin(graph_variable)\<close> (lines 83--87).\<close>

definition gremlin_new :: "nat \<Rightarrow> pyval \<Rightarrow> (pyerr, world, nat) exc" where
  "gremlin_new f gvv = new_gremlin f gvv"

definition with_gremlin :: "nat \<Rightarrow> (gremlin \<Rightarrow> (pyerr, world, 'a) exc) \<Rightarrow> (pyerr, world, 'a) exc" where
  "with_gremlin g k w = (case heap w g of None \<Rightarrow> (Inl AttributeError, w) | Some G \<Rightarrow> k G w)"

text \<open>\<open>reset\<close> (lines 89--98): a new seed from \<open>uuid4\<close>, everything else as after
  the constructor; the graph variable is set back to \<open>self.gv\<close>.\<close>

definition reset :: "nat \<Rightarrow> (pyerr, world, nat) exc" where
  "reset g = with_gremlin g (\<lambda>G w.
     (Inr g, (set_gremlin g (fresh_gremlin (gv G) (uuids w (draws w))) w)\<lparr>draws := Suc (draws w)\<rparr>))"

text \<open>Appending a token built by \<open>Token.__init__\<close>, the common shape of
  \<open>__getattr__\<close>, \<open>func\<close>, \<open>unbound\<close>, \<open>func_raw\<close>, \<open>func_raw_unbound\<close>,
  \<open>close\<close>, \<open>raw\<close> and \<open>__getitem__\<close>.\<close>

definition append_new :: "nat \<Rightarrow> nat \<Rightarrow> tkind \<Rightarrow> pyval \<Rightarrow> pyval list \<Rightarrow> (pyerr, world, nat) exc" where
  "append_new f g k v args w =
     (case token_init f g k v args w of
        (Inl e, w') \<Rightarrow> (Inl e, w')
      | (Inr t, w') \<Rightarrow> (Inr g, add_token g t w'))"

text \<open>\<open>__getattr__\<close> (lines 112--115).\<close>

definition get_attr :: "nat \<Rightarrow> nat \<Rightarrow> string \<Rightarrow> (pyerr, world, nat) exc" where
  "get_attr f g a = append_new f g Attribute (VStr a) []"

text \<open>\<open>__call__\<close> (lines 117--121): the new function token is named by the text of the
  last token (of the graph variable when the chain is empty), and replaces that token.\<close>

definition call :: "nat \<Rightarrow> nat \<Rightarrow> pyval list \<Rightarrow> (pyerr, world, nat) exc" where
  "call f g args = with_gremlin g (\<lambda>G w.
     (case (if chain G = [] then str_val f (top_value G) w
            else render_token f g (length (chain G) - 1) w) of
        (Inl e, w1) \<Rightarrow> (Inl e, w1)
      | (Inr name, w1) \<Rightarrow>
          (case token_init f g Function (VStr name) args w1 of
             (Inl e, w2) \<Rightarrow> (Inl e, w2)
           | (Inr t, w2) \<Rightarrow>
               with_gremlin g (\<lambda>G2 w2'.
                 (Inr g, set_gremlin g (G2\<lparr>chain := (if chain G2 = [] then [t] else butlast (chain G2) @ [t])\<rparr>) w2'))
                 w2)))"

text \<open>\<open>__getitem__\<close> (lines 123--146): a key that is not a slice is wrapped in a list
  unless it is a list or tuple, and its first three items (\<open>None\<close> where missing) make
  the slice.\<close>

definition item_or_none :: "pyval list \<Rightarrow> nat \<Rightarrow> pyval" where
  "item_or_none xs i = (if i < length xs then xs ! i else VNone)"

definition slice_of :: "pyval \<Rightarrow> pyval" where
  "slice_of v =
     (case v of
        VSlice a b c \<Rightarrow> v
      | VList xs \<Rightarrow> VSlice (item_or_none xs 0) (item_or_none xs 1) (item_or_none xs 2)
      | _ \<Rightarrow> VSlice v VNone VNone)"

definition get_item :: "nat \<Rightarrow> nat \<Rightarrow> pyval \<Rightarrow> (pyerr, world, nat) exc" where
  "get_item f g v = append_new f g Index (slice_of v) []"

text \<open>The explicit token methods (lines 180--214).\<close>

definition func :: "nat \<Rightarrow> nat \<Rightarrow> pyval \<Rightarrow> pyval list \<Rightarrow> (pyerr, world, nat) exc" where
  "func f g name args = append_new f g Function name args"

definition unbound :: "nat \<Rightarrow> nat \<Rightarrow> pyval \<Rightarrow> pyval list \<Rightarrow> (pyerr, world, nat) exc" where
  "unbound f g name args = append_new f g UnboudFunction name args"

definition func_raw :: "nat \<Rightarrow> nat \<Rightarrow> pyval \<Rightarrow> pyval list \<Rightarrow> (pyerr, world, nat) exc" where
  "func_raw f g name args = append_new f g FunctionRaw name args"

definition func_raw_unbound :: "nat \<Rightarrow> nat \<Rightarrow> pyval \<Rightarrow> pyval list \<Rightarrow> (pyerr, world, nat) exc" where
  "func_raw_unbound f g name args = append_new f g UnboudFunctionRaw name args"

definition range_tok :: "nat \<Rightarrow> nat \<Rightarrow> pyval \<Rightarrow> pyval \<Rightarrow> (pyerr, world, nat) exc" where
  "range_tok f g a b = func_raw_unbound f g (VStr ''range'') [a, b]"

definition close :: "nat \<Rightarrow> nat \<Rightarrow> pyval \<Rightarrow> pyval list \<Rightarrow> (pyerr, world, nat) exc" where
  "close f g v args = (if args \<noteq> [] then append_new f g ClosureArguments v args else append_new f g Closure v [])"

definition raw :: "nat \<Rightarrow> nat \<Rightarrow> pyval \<Rightarrow> (pyerr, world, nat) exc" where
  "raw f g v = append_new f g Raw v []"

text \<open>\<open>set_ret_variable\<close> and \<open>set_graph_variable\<close> (lines 234--245); the latter
  changes the graph-variable token, not \<open>self.gv\<close>.\<close>

definition set_ret_variable :: "nat \<Rightarrow> pyval \<Rightarrow> (pyerr, world, nat) exc" where
  "set_ret_variable g v = with_gremlin g (\<lambda>G w. (Inr g, set_gremlin g (G\<lparr>return_var := v\<rparr>) w))"

definition set_graph_variable :: "nat \<Rightarrow> pyval \<Rightarrow> (pyerr, world, nat) exc" where
  "set_graph_variable g v = with_gremlin g (\<lambda>G w.
     (Inr g, set_gremlin g (G\<lparr>top_value := (if py_truthy v then v else VStr '''')\<rparr>) w))"

text \<open>\<open>gremlinpy.config.GRAPH_VARIABLE\<close> (the module is not in the repository; the
  specification makes it a short identifier) and \<open>Gremlin()\<close> with the default argument
  of \<open>__init__\<close> (line 83).\<close>

definition GRAPH_VARIABLE :: pyval where
  "GRAPH_VARIABLE = VStr ''g''"

definition gremlin_default :: "nat \<Rightarrow> (pyerr, world, nat) exc" where
  "gremlin_default f = gremlin_new f GRAPH_VARIABLE"

text \<open>The builder-returning methods and the calls that \<open>__getattr__\<close> answers: a name
  that is not a member reaches \<open>__getattr__\<close> (an attribute token) and the token list's
  \<open>__call__\<close>; the ten methods are called with Python's arity check.\<close>

definition fluent_call :: "nat \<Rightarrow> nat \<Rightarrow> string \<Rightarrow> pyval list \<Rightarrow> (pyerr, world, nat) exc" where
  "fluent_call f g name args =
     (if name = ''func'' then (case args of [] \<Rightarrow> throw TypeError | a # as \<Rightarrow> func f g a as)
      else if name = ''unbound'' then (case args of [] \<Rightarrow> throw TypeError | a # as \<Rightarrow> unbound f g a as)
      else if name = ''func_raw'' then (case args of [] \<Rightarrow> throw TypeError | a # as \<Rightarrow> func_raw f g a as)
      else if name = ''func_raw_unbound'' then
        (case args of [] \<Rightarrow> throw TypeError | a # as \<Rightarrow> func_raw_unbound f g a as)
      else if name = ''close'' then (case args of [] \<Rightarrow> throw TypeError | a # as \<Rightarrow> close f g a as)
      else if name = ''raw'' then (case args of [a] \<Rightarrow> raw f g a | _ \<Rightarrow> throw TypeError)
      else if name = ''range'' then (case args of [a, b] \<Rightarrow> range_tok f g a b | _ \<Rightarrow> throw TypeError)
      else if name = ''set_graph_variable'' then
        (case args of [] \<Rightarrow> set_graph_variable g (VStr ''g'') | [a] \<Rightarrow> set_graph_variable g a | _ \<Rightarrow> throw TypeError)
      else if name = ''set_ret_variable'' then
        (case args of [] \<Rightarrow> set_ret_variable g VNone | [a] \<Rightarrow> set_ret_variable g a | _ \<Rightarrow> throw TypeError)
      else if name = ''reset'' then (case args of [] \<Rightarrow> reset g | _ \<Rightarrow> throw TypeError)
      else bindE (get_attr f g name) (\<lambda>g'. call f g' args))"

text \<open>What a call \<open>g.name(*args)\<close> returns: the builder, a Python value (a tuple is a
  list), or the dictionary \<open>bound_params\<close>.\<close>

datatype ret = RBuilder nat | RVal pyval | RDict "(string \<times> pyval) list"

text \<open>The members that Python finds before \<open>__getattr__\<close>, in the instance (lines
  84--96), in \<open>Gremlin\<close> (lines 81--250) and in \<open>LinkList\<close> (lines 10--41), apart
  from the ten methods above; and the attributes every new-style object has.\<close>

definition data_attrs :: "string list" where
  "data_attrs = [''PARAM_PREFIX'', ''gv'', ''top'', ''bottom'', ''parent'', ''bound_params'',
     ''bound_param'', ''bound_count'', ''return_var'']"

definition member_methods :: "string list" where
  "member_methods = [''add'', ''remove'', ''can_use'', ''set_parent_gremlin'', ''bind_params'',
     ''bind_param'', ''add_token'', ''remove_token'', ''apply_statement'']"

definition own_dunders :: "string list" where
  "own_dunders = [''__init__'', ''__str__'', ''__unicode__'', ''__getattr__'', ''__call__'', ''__getitem__'']"

definition object_dunders :: "string list" where
  "object_dunders = [''__class__'', ''__delattr__'', ''__dict__'', ''__doc__'', ''__format__'',
     ''__getattribute__'', ''__hash__'', ''__module__'', ''__new__'', ''__reduce__'', ''__reduce_ex__'',
     ''__repr__'', ''__setattr__'', ''__sizeof__'', ''__subclasshook__'', ''__weakref__'']"

text \<open>Calling the value of an attribute: a builder's \<open>__call__\<close>; a predicate's
  \<open>__call__\<close> (lines 442--443), which only prints and returns \<open>None\<close>; a statement's
  call is the collaborator's; any other value is not callable.\<close>

definition call_value :: "nat \<Rightarrow> pyval \<Rightarrow> pyval list \<Rightarrow> (pyerr, world, ret) exc" where
  "call_value f v args =
     (case v of
        VGremlin c \<Rightarrow> bindE (call f c args) (\<lambda>c'. ok (RBuilder c'))
      | VPred p \<Rightarrow> ok (RVal VNone)
      | VStmt s \<Rightarrow> throw OutsideModel
      | _ \<Rightarrow> throw TypeError)"

text \<open>Calling a data attribute: \<open>gv\<close> and \<open>return_var\<close> hold arbitrary values,
  \<open>parent\<close> a builder, a predicate or \<open>None\<close>; the tokens \<open>top\<close> and \<open>bottom\<close>, the
  dictionary, the seed, the counter and \<open>PARAM_PREFIX\<close> are not callable.\<close>

definition data_call :: "nat \<Rightarrow> nat \<Rightarrow> string \<Rightarrow> pyval list \<Rightarrow> (pyerr, world, ret) exc" where
  "data_call f g name args = with_gremlin g (\<lambda>G.
     if name = ''gv'' then call_value f (gv G) args
     else if name = ''return_var'' then call_value f (return_var G) args
     else if name = ''parent'' then
       (case parent G of
          None \<Rightarrow> throw TypeError
        | Some (PGremlin p) \<Rightarrow> call_value f (VGremlin p) args
        | Some PPredicate \<Rightarrow> ok (RVal VNone))
     else throw TypeError)"

text \<open>\<open>Gremlin.__init__\<close> called again on an initialised builder (lines 83--87): the
  graph variable is stored first, then the new graph-variable token normalises it, then
  \<open>reset\<close> runs; the result is \<open>None\<close>.\<close>

definition reinit :: "nat \<Rightarrow> nat \<Rightarrow> pyval \<Rightarrow> (pyerr, world, ret) exc" where
  "reinit f g v = with_gremlin g (\<lambda>G w.
     (case fix_value f (OTok g v) False v (set_gremlin g (G\<lparr>gv := v\<rparr>) w) of
        (Inl e, w') \<Rightarrow> (Inl e, w')
      | (Inr _, w') \<Rightarrow>
          (Inr (RVal VNone), w'\<lparr>heap := (heap w')(g \<mapsto> fresh_gremlin v (uuids w' (draws w'))),
                                draws := Suc (draws w')\<rparr>)))"

text \<open>\<open>set_parent_gremlin(x)\<close> for a value \<open>x\<close>: a builder or a predicate becomes the
  parent, \<open>None\<close> removes it (the keys are then re-bound without propagation).\<close>

definition set_parent_value :: "nat \<Rightarrow> nat \<Rightarrow> pyval \<Rightarrow> (pyerr, world, ret) exc" where
  "set_parent_value f g v =
     (case v of
        VGremlin c \<Rightarrow> bindE (set_parent_gremlin f g (PGremlin c)) (\<lambda>d. ok (RDict d))
      | VPred p \<Rightarrow> bindE (set_parent_gremlin f g PPredicate) (\<lambda>d. ok (RDict d))
      | VNone \<Rightarrow> with_gremlin g (\<lambda>G w.
          case bind_params f g (map (VStr \<circ> fst) (bound_params G)) (set_gremlin g (G\<lparr>parent := None\<rparr>) w) of
            (Inl e, w') \<Rightarrow> (Inl e, w')
          | (Inr d, w') \<Rightarrow> (Inr (RDict d), w'))
      | _ \<Rightarrow> throw OutsideModel)"

text \<open>\<open>bind_params(params)\<close> iterates its argument: \<open>None\<close> is the empty list, a string
  its characters; a builder is iterated through \<open>__getitem__\<close> without end; numbers,
  slices and predicates are not iterable.\<close>

definition bind_params_value :: "nat \<Rightarrow> nat \<Rightarrow> pyval list \<Rightarrow> (pyerr, world, ret) exc" where
  "bind_params_value f g args =
     (let k = (\<lambda>vs. bindE (bind_params f g vs) (\<lambda>d. ok (RDict d))) in
      case args of
        [] \<Rightarrow> k []
      | [VNone] \<Rightarrow> k []
      | [VList vs] \<Rightarrow> k vs
      | [VStr s] \<Rightarrow> k (map (\<lambda>c. VStr [c]) s)
      | [VGremlin c] \<Rightarrow> throw OutsideModel
      | [VStmt s] \<Rightarrow> throw OutsideModel
      | [_] \<Rightarrow> throw TypeError
      | _ \<Rightarrow> throw TypeError)"

text \<open>The other members, called with a value for each argument. A value is never a
  token, so \<open>remove\<close> finds nothing to unlink, \<open>remove_token(None)\<close> matches the last
  \<open>next\<close> and fails on \<open>None.next\<close>, and \<open>can_use\<close> is true. \<open>add\<close> and
  \<open>add_token\<close> would put the value itself into the chain, which holds only tokens in the
  model. \<open>apply_statement\<close> of a builder \<open>c\<close> runs \<open>c.set_gremlin(self).build()\<close>
  through \<open>c\<close>'s \<open>__getattr__\<close> and \<open>__call__\<close>.\<close>

definition member_call :: "nat \<Rightarrow> nat \<Rightarrow> string \<Rightarrow> pyval list \<Rightarrow> (pyerr, world, ret) exc" where
  "member_call f g name args =
     (if name = ''bind_param'' then
        (let k = (\<lambda>nm v. bindE (bind_param f g v nm) (\<lambda>p. ok (RVal (VList [VStr (fst p), snd p])))) in
         case args of
           [v] \<Rightarrow> k None v
         | [v, VNone] \<Rightarrow> k None v
         | [v, VStr n] \<Rightarrow> k (Some n) v
         | [v, _] \<Rightarrow> throw OutsideModel
         | _ \<Rightarrow> throw TypeError)
      else if name = ''bind_params'' then bind_params_value f g args
      else if name = ''set_parent_gremlin'' then (case args of [v] \<Rightarrow> set_parent_value f g v | _ \<Rightarrow> throw TypeError)
      else if name = ''remove'' then
        (case args of [x] \<Rightarrow> with_gremlin g (\<lambda>G. ok (RBuilder g))
         | [x, d] \<Rightarrow> with_gremlin g (\<lambda>G. ok (RBuilder g)) | _ \<Rightarrow> throw TypeError)
      else if name = ''remove_token'' then
        (case args of
           [VNone] \<Rightarrow> with_gremlin g (\<lambda>G. throw AttributeError)
         | [x] \<Rightarrow> with_gremlin g (\<lambda>G. ok (RBuilder g))
         | _ \<Rightarrow> throw TypeError)
      else if name = ''can_use'' then (case args of [p, l] \<Rightarrow> ok (RVal (VBool True)) | _ \<Rightarrow> throw TypeError)
      else if name = ''apply_statement'' then
        (case args of
           [VGremlin c] \<Rightarrow>
             bindE (get_attr f c ''set_gremlin'') (\<lambda>c1. bindE (call f c1 [VGremlin g]) (\<lambda>c2.
             bindE (get_attr f c2 ''build'') (\<lambda>c3. bindE (call f c3 []) (\<lambda>_. ok (RBuilder g)))))
         | [VStmt s] \<Rightarrow> throw OutsideModel
         | [_] \<Rightarrow> throw AttributeError
         | _ \<Rightarrow> throw TypeError)
      else throw OutsideModel)"

text \<open>The builder's own special methods called by name, and the other attributes of
  \<open>object\<close> (whose calls the model does not describe).\<close>

definition dunder_call :: "nat \<Rightarrow> nat \<Rightarrow> string \<Rightarrow> pyval list \<Rightarrow> (pyerr, world, ret) exc" where
  "dunder_call f g name args =
     (if name = ''__str__'' \<or> name = ''__unicode__'' then
        (case args of [] \<Rightarrow> bindE (render_gremlin f g) (\<lambda>s. ok (RVal (VStr s))) | _ \<Rightarrow> throw TypeError)
      else if name = ''__call__'' then bindE (call f g args) (\<lambda>g'. ok (RBuilder g'))
      else if name = ''__getitem__'' then
        (case args of [v] \<Rightarrow> bindE (get_item f g v) (\<lambda>g'. ok (RBuilder g')) | _ \<Rightarrow> throw TypeError)
      else if name = ''__getattr__'' then
        (case args of [v] \<Rightarrow> bindE (append_new f g Attribute v []) (\<lambda>g'. ok (RBuilder g')) | _ \<Rightarrow> throw TypeError)
      else if name = ''__init__'' then
        (case args of [] \<Rightarrow> reinit f g GRAPH_VARIABLE | [v] \<Rightarrow> reinit f g v | _ \<Rightarrow> throw TypeError)
      else throw OutsideModel)"

text \<open>\<open>g.name(*args)\<close>: Python's attribute lookup finds the instance's attributes and the
  class members first and reaches \<open>__getattr__\<close> only for the other names.\<close>

definition attr_call :: "nat \<Rightarrow> nat \<Rightarrow> string \<Rightarrow> pyval list \<Rightarrow> (pyerr, world, ret) exc" where
  "attr_call f g name args =
     (if name \<in> set data_attrs then data_call f g name args
      else if name \<in> set member_methods then member_call f g name args
      else if name \<in> set own_dunders \<or> name \<in> set object_dunders then dunder_call f g name args
      else bindE (fluent_call f g name args) (\<lambda>g'. ok (RBuilder g')))"

text \<open>The result of a query: its text \<open>str(g)\<close>, then the dictionary
  \<open>g.bound_params\<close>.\<close>

definition render :: "nat \<Rightarrow> nat \<Rightarrow> (pyerr, world, string \<times> (string \<times> pyval) list) exc" where
  "render f g w =
     (case render_gremlin f g w of
        (Inl e, w') \<Rightarrow> (Inl e, w')
      | (Inr s, w') \<Rightarrow> with_gremlin g (\<lambda>G w''. (Inr (s, bound_params G), w'')) w')"

section \<open>Lemmas\<close>

text \<open>For a name that is neither a member nor a special attribute, \<open>g.name(*args)\<close> is
  the fluent call, which returns the builder.\<close>

lemma attr_call_fluent:
  "name \<notin> set data_attrs \<Longrightarrow> name \<notin> set member_methods \<Longrightarrow> name \<notin> set own_dunders \<Longrightarrow>
   name \<notin> set object_dunders \<Longrightarrow> attr_call f g name args = bindE (fluent_call f g name args) (\<lambda>g'. ok (RBuilder g'))"
  by (simp add: attr_call_def)

text \<open>Reading a new attribute of an initialised builder appends its attribute token.\<close>

lemma get_attr_appends:
  "heap w g = Some G \<Longrightarrow> get_attr (Suc f) g a w = (Inr g, set_gremlin g (G\<lparr>chain := chain G @ [attr_token a]\<rparr>) w)"
  by (cases f) (simp_all add: get_attr_def append_new_def token_init_def add_token_def attr_token_def)

lemma forE_get_attr_appends:
  "heap w g = Some G \<Longrightarrow>
   forE (\<lambda>x. get_attr (Suc f) g (h x)) xs w = (Inr (), set_gremlin g (G\<lparr>chain := chain G @ map (\<lambda>x. attr_token (h x)) xs\<rparr>) w)"
proof (induction xs arbitrary: G w)
  case Nil
  then show ?case by (simp add: ok_def set_gremlin_same)
next
  case (Cons x xs)
  let ?G1 = "G\<lparr>chain := chain G @ [attr_token (h x)]\<rparr>"
  have "heap (set_gremlin g ?G1 w) g = Some ?G1" by (simp add: set_gremlin_def)
  from Cons.IH [OF this] show ?case
    using get_attr_appends [OF Cons.prems, of f "h x"] by (simp add: bindE_def)
qed


text \<open>C20. Whatever the builder held, \<open>reset\<close> leaves the graph variable given to the
  constructor and nothing else: rendering gives its text (empty when it is false), the
  dictionary is empty, and the rendering changes nothing.\<close>

theorem reset_then_render:
  assumes "heap w g = Some G" and "plain (gv G)"
  shows "bindE (reset g) (render (Suc (Suc (Suc f)))) w =
    (Inr (if py_truthy (gv G) then plain_str (gv G) else [], []), snd (reset g w))"
proof -
  let ?F = "fresh_gremlin (gv G) (uuids w (draws w))"
  let ?w1 = "(set_gremlin g ?F w)\<lparr>draws := Suc (draws w)\<rparr>"
  have r: "reset g w = (Inr g, ?w1)" using assms(1) by (simp add: reset_def with_gremlin_def)
  have h1: "heap ?w1 g = Some ?F" by (simp add: set_gremlin_def)
  have rg: "render_gremlin (Suc (Suc (Suc f))) g ?w1 =
      (Inr (if py_truthy (gv G) then plain_str (gv G) else []), ?w1)"
    using render_gremlin_plain [OF h1, of f] assms(2)
    by (simp add: fresh_gremlin_def join_chain_def loop_step_def)
  show ?thesis using r rg h1 by (simp add: bindE_def render_def with_gremlin_def fresh_gremlin_def)
qed

end
