(* ===== verification/Scenarios.thy ===== *)
theory Scenarios
  imports Builder
begin

text \<open>
  The scenarios of the test module \<open>src/gremlinpy/tests/gremlin.py\<close> and of the
  specification's list of testable properties, run on the model from an arbitrary world:
  the namespace seeds are whatever \<open>uuid4\<close> yields (\<open>uuids w (draws w)\<close> for the
  first builder, the next draw for the second), and the recursion limit is Python's
  default, 1000. Each theorem states the text and the dictionary that \<open>str(g)\<close> and
  \<open>g.bound_params\<close> give, or the exception raised. Method names reach the method:
  \<open>g.func(...)\<close> is \<open>Gremlin.func\<close>, not an attribute token.
\<close>

text \<open>Python 2 default recursion limit (\<open>sys.getrecursionlimit()\<close>).\<close>

definition limit :: nat where
  "limit = 1000"

definition t_two_args :: "(pyerr, world, string \<times> (string \<times> pyval) list) exc" where
  "t_two_args = bindE (gremlin_new limit (VStr ''g'')) (\<lambda>g.
     bindE (fluent_call limit g ''function'' [VStr ''one'', VStr ''two'']) (render limit))"

definition t_manual_bind :: "(pyerr, world, string \<times> (string \<times> pyval) list) exc" where
  "t_manual_bind = bindE (gremlin_new limit (VStr ''g'')) (\<lambda>g.
     bindE (bind_param limit g (VStr ''arg'') None) (\<lambda>b.
     bindE (fluent_call limit g ''function'' [VStr (fst b), VStr (fst b)]) (render limit)))"

definition t_closure :: "(pyerr, world, string \<times> (string \<times> pyval) list) exc" where
  "t_closure = bindE (gremlin_new limit (VStr ''g'')) (\<lambda>g.
     bindE (fluent_call limit g ''condition'' [VStr ''x'']) (\<lambda>g.
     bindE (fluent_call limit g ''close'' [VStr ''body'']) (render limit)))"

definition t_index_func :: "(pyerr, world, nat) exc" where
  "t_index_func = bindE (gremlin_new limit (VStr ''g'')) (\<lambda>g.
     bindE (fluent_call limit g ''func'' []) (\<lambda>g. get_item limit g (VInt 1)))"

definition t_open_slices :: "(pyerr, world, string \<times> (string \<times> pyval) list) exc" where
  "t_open_slices = bindE (gremlin_new limit (VStr ''g'')) (\<lambda>g.
     bindE (get_attr limit g ''a'') (\<lambda>g.
     bindE (get_item limit g (VSlice (VInt 1) VNone VNone)) (\<lambda>g.
     bindE (get_item limit g (VSlice VNone (VInt 2) VNone)) (render limit))))"

definition t_nest :: "(pyerr, world, string \<times> (string \<times> pyval) list) exc" where
  "t_nest = bindE (gremlin_new limit (VStr ''g'')) (\<lambda>g.
     bindE (gremlin_new limit (VStr ''g'')) (\<lambda>n.
     bindE (fluent_call limit n ''nested'' []) (\<lambda>n.
     bindE (fluent_call limit g ''nest'' [VGremlin n]) (render limit))))"

definition t_double_nest :: "(pyerr, world, string \<times> (string \<times> pyval) list) exc" where
  "t_double_nest = bindE (gremlin_new limit (VStr ''g'')) (\<lambda>g.
     bindE (gremlin_new limit (VStr ''g'')) (\<lambda>n.
     bindE (gremlin_new limit (VStr ''g'')) (\<lambda>d.
     bindE (fluent_call limit d ''deep'' []) (\<lambda>d.
     bindE (fluent_call limit n ''nested'' [VGremlin d]) (\<lambda>n.
     bindE (fluent_call limit g ''nest'' [VGremlin n]) (render limit))))))"

definition t_range :: "(pyerr, world, string \<times> (string \<times> pyval) list) exc" where
  "t_range = bindE (gremlin_new limit (VStr ''g'')) (\<lambda>g.
     bindE (fluent_call limit g ''range'' [VInt 0, VInt 10]) (render limit))"

definition t_pred_arg :: "pyval \<Rightarrow> (pyerr, world, string \<times> (string \<times> pyval) list) exc" where
  "t_pred_arg v = bindE (gremlin_new limit (VStr ''g'')) (\<lambda>g.
     bindE (get_attr limit g ''has'') (\<lambda>g.
     bindE (named_pred limit ''eq'' [v]) (\<lambda>p.
     bindE (call limit g [VStr ''name'', p]) (render limit))))"

definition t_nest_bound :: "(pyerr, world, string \<times> (string \<times> pyval) list) exc" where
  "t_nest_bound = bindE (gremlin_new limit (VStr ''g'')) (\<lambda>g.
     bindE (gremlin_new limit (VStr ''g'')) (\<lambda>n.
     bindE (fluent_call limit n ''set_graph_variable'' [VStr '''']) (\<lambda>n.
     bindE (fluent_call limit n ''setSubProp'' [VStr ''prop'', VStr ''child'']) (\<lambda>_.
     bindE (fluent_call limit g ''func'' [VStr ''name'', VStr ''parent'']) (\<lambda>g.
     bindE (fluent_call limit g ''nest'' [VGremlin n]) (render limit))))))"

text \<open>\<open>try: str(g) except: pass\<close>: the outcome of a rendering, exception included.\<close>

definition try_render :: "nat \<Rightarrow> nat \<Rightarrow> (pyerr, world, pyerr + string) exc" where
  "try_render f g w = (case render_gremlin f g w of (r, w') \<Rightarrow> (Inr r, w'))"

definition t_stale :: "(pyerr, world, (pyerr + string) \<times> (pyerr + string) \<times> (pyerr + string)) exc" where
  "t_stale = bindE (gremlin_new limit (VStr ''g'')) (\<lambda>g.
     bindE (gremlin_new limit (VStr ''g'')) (\<lambda>n.
     bindE (fluent_call limit n ''nested'' []) (\<lambda>n.
     bindE (fluent_call limit g ''nest'' [VGremlin n]) (\<lambda>g.
     bindE (try_render limit g) (\<lambda>r1.
     bindE (get_attr limit n ''more'') (\<lambda>n.
     bindE (try_render limit g) (\<lambda>r2.
     bindE (try_render limit n) (\<lambda>r3. ok (r1, r2, r3)))))))))"

definition t_lost_arg :: "(pyerr, world, (pyerr + string) \<times> (pyerr + string)) exc" where
  "t_lost_arg = bindE (gremlin_new limit (VStr ''g'')) (\<lambda>g.
     bindE (get_attr limit g ''has'') (\<lambda>g.
     bindE (pred_init limit ''Predicate'' None []) (\<lambda>p.
     bindE (call limit g [p]) (\<lambda>g.
     bindE (try_render limit g) (\<lambda>r1.
     bindE (try_render limit g) (\<lambda>r2. ok (r1, r2)))))))"

definition t_reset :: "(pyerr, world, string \<times> (string \<times> pyval) list) exc" where
  "t_reset = bindE (gremlin_new limit (VStr ''g'')) (\<lambda>g.
     bindE (set_graph_variable g (VStr ''x'')) (\<lambda>g.
     bindE (get_attr limit g ''a'') (\<lambda>g.
     bindE (reset g) (render limit))))"

definition t_drop_gv :: "(pyerr, world, string \<times> (string \<times> pyval) list) exc" where
  "t_drop_gv = bindE (gremlin_new limit (VStr ''g'')) (\<lambda>g.
     bindE (set_graph_variable g (VStr '''')) (\<lambda>g.
     bindE (get_attr limit g ''a'') (\<lambda>g.
     bindE (fluent_call limit g ''function'' [VStr ''val'']) (render limit))))"

lemma dec_digit_unary [simp]:
  "dec_digit (Suc (Suc 0)) = CHR ''2''" "dec_digit (Suc (Suc (Suc 0))) = CHR ''3''"
  "dec_digit (Suc (Suc (Suc (Suc 0)))) = CHR ''4''"
  by code_simp+

lemmas scenario_simps = limit_def eval_nat_numeral gremlin_new_def get_attr_def append_new_def token_init_def
  bindE_def fresh_gremlin_def add_token_def set_gremlin_def call_def with_gremlin_def render_def get_tok_def
  upd_tok_def render_function_def Let_def loop_step_def func_def close_def render_closure_def get_item_def
  slice_of_def item_or_none_def render_index_def set_graph_variable_def range_tok_def func_raw_unbound_def
  render_unbound_def py_join_def set_parent_gremlin_def bind_params_def ok_def fluent_call_def throw_def
  named_pred_def pred_init_def nat_str_small try_render_def reset_def

text \<open>\<open>Gremlin().function(one, two)\<close> binds both arguments: the text is \<open>g.function(P1, P2)\<close> with two dictionary entries, where the test and the specification expect \<open>g.function(one, P)\<close> and one entry.\<close>

lemma test_two_args_binds_both: "\<exists>w'. t_two_args w =
  (Inr (''g.function('' @ gen_name (uuids w (draws w)) 1 @ '', '' @ gen_name (uuids w (draws w)) 2 @ '')'',
        [(gen_name (uuids w (draws w)) 1, VStr ''one''), (gen_name (uuids w (draws w)) 2, VStr ''two'')]), w')"
  by (simp add: t_two_args_def scenario_simps)

text \<open>A placeholder from an explicit \<open>bind_param\<close>, passed in two argument positions, is reused: one dictionary entry, the same name twice.\<close>

lemma test_manual_bind_reused: "\<exists>w'. t_manual_bind w =
  (Inr (''g.function('' @ gen_name (uuids w (draws w)) 1 @ '', '' @ gen_name (uuids w (draws w)) 1 @ '')'',
        [(gen_name (uuids w (draws w)) 1, VStr ''arg'')]), w')"
  by (simp add: t_manual_bind_def scenario_simps)

text \<open>\<open>g.condition(x).close(body)\<close> renders \<open>g.condition(P1){body}\<close> with one entry.\<close>

lemma test_closure: "\<exists>w'. t_closure w =
  (Inr (''g.condition('' @ gen_name (uuids w (draws w)) 1 @ ''){body}'', [(gen_name (uuids w (draws w)) 1, VStr ''x'')]), w')"
  by (simp add: t_closure_def scenario_simps)

text \<open>In the index tests, \<open>g.func()\<close> calls the method \<open>Gremlin.func\<close>, which needs a function name: \<open>TypeError\<close> before any index is taken, so \<open>g.func()[1]\<close> never renders.\<close>

lemma test_index_func_method: "\<exists>w'. t_index_func w = (Inl TypeError, w')"
  by (simp add: t_index_func_def scenario_simps)

text \<open>Open slices: \<open>g.a[1:]\<close> renders as \<open>[1]\<close> (the range is lost) and \<open>g.a[:2]\<close> as \<open>[None..2]\<close>.\<close>

lemma test_open_slices: "\<exists>w'. t_open_slices w = (Inr (''g.a[1][None..2]'', []), w')"
  by (simp add: t_open_slices_def scenario_simps)

text \<open>A nested builder renders as its own text inside the call: \<open>g.nest(g.nested())\<close>, no parameters.\<close>

lemma test_nest: "\<exists>w'. t_nest w = (Inr (''g.nest(g.nested())'', []), w')"
  by (simp add: t_nest_def scenario_simps)

text \<open>Nesting composes over two levels: \<open>g.nest(g.nested(g.deep()))\<close>.\<close>

lemma test_double_nest: "\<exists>w'. t_double_nest w = (Inr (''g.nest(g.nested(g.deep()))'', []), w')"
  by (simp add: t_double_nest_def scenario_simps)

text \<open>The test with bound parameters: \<open>g.func(name, parent)\<close> is the method \<open>func\<close> with function \<open>name\<close>, so the root renders \<open>g.name(P1).nest(setSubProp(Q1, Q2))\<close> with three entries, two of them propagated from the child under its own names; the test expects \<open>g.func(name, P)\<close> and two entries.\<close>

lemma test_nest_bound_params:
  assumes "CHR ''_'' \<notin> set (uuids w (draws w))" and "CHR ''_'' \<notin> set (uuids w (Suc (draws w)))"
    and "uuids w (draws w) \<noteq> uuids w (Suc (draws w))"
  shows "\<exists>w'. t_nest_bound w =
  (Inr (''g.name('' @ gen_name (uuids w (draws w)) 1 @
        '').nest(setSubProp('' @ gen_name (uuids w (Suc (draws w))) 1 @ '', '' @ gen_name (uuids w (Suc (draws w))) 2 @ ''))'',
        [(gen_name (uuids w (draws w)) 1, VStr ''parent''),
         (gen_name (uuids w (Suc (draws w))) 1, VStr ''prop''), (gen_name (uuids w (Suc (draws w))) 2, VStr ''child'')]), w')"
  using gen_name_seed_ne [OF assms] gen_name_seed_ne [OF assms(2,1) assms(3)[symmetric]]
  by (simp add: t_nest_bound_def scenario_simps)

text \<open>\<open>g.range(0, 10)\<close> is accepted but its rendering raises \<open>TypeError\<close>: the unbound arguments are joined without conversion.\<close>

lemma test_range_type_error: "\<exists>w'. t_range w = (Inl TypeError, w')"
  by (simp add: t_range_def scenario_simps)

text \<open>A predicate argument is rendered without binding or quoting: \<open>g.has(name, eq(marko))\<close> gives \<open>g.has(P1, eq(marko))\<close>.\<close>

lemma test_predicate_argument: "\<exists>w'. t_pred_arg (VStr ''marko'') w =
  (Inr (''g.has('' @ gen_name (uuids w (draws w)) 1 @ '', eq(marko))'', [(gen_name (uuids w (draws w)) 1, VStr ''name'')]), w')"
  by (simp add: t_pred_arg_def scenario_simps)

text \<open>A predicate with a number among its arguments makes the rendering raise \<open>TypeError\<close>.\<close>

lemma test_predicate_number_type_error: "\<exists>w'. t_pred_arg (VInt 30) w = (Inl TypeError, w')"
  by (simp add: t_pred_arg_def scenario_simps)

text \<open>Rendering replaces a nested builder argument by its text: after \<open>n.more\<close> the root still renders \<open>g.nest(g.nested())\<close> although \<open>n\<close> renders \<open>g.nested().more\<close>.\<close>

lemma test_render_stale: "\<exists>w'. t_stale w = (Inr (Inr ''g.nest(g.nested())'', Inr ''g.nest(g.nested())'', Inr ''g.nested().more''), w')"
  by (simp add: t_stale_def scenario_simps)

text \<open>When the text of a popped argument raises (here a predicate without \<open>_function\<close>, which recurses to the limit), the argument is lost: the next rendering gives \<open>g.has()\<close>.\<close>

lemma test_render_loses_argument: "\<exists>w'. t_lost_arg w = (Inr (Inl RecursionError, Inr ''g.has()''), w')"
  by (simp add: t_lost_arg_def scenario_simps)

text \<open>\<open>reset\<close> restores the graph variable given to the constructor: one set by \<open>set_graph_variable\<close> is forgotten, and the chain and dictionary are emptied.\<close>

lemma test_reset_graph_variable: "\<exists>w'. t_reset w = (Inr (''g'', []), w')"
  by (simp add: t_reset_def scenario_simps)

text \<open>With the graph variable set to the empty string, no leading separator: \<open>a.function(P1)\<close>.\<close>

lemma test_drop_graph_variable: "\<exists>w'. t_drop_gv w = (Inr (''a.function('' @ gen_name (uuids w (draws w)) 1 @ '')'', [(gen_name (uuids w (draws w)) 1, VStr ''val'')]), w')"
  by (simp add: t_drop_gv_def scenario_simps)

end
