(* ===== verification/Chain.thy ===== *)
theory Chain
  imports Prelude
begin

text \<open>
  The token chain of \<open>src/gremlinpy/gremlin.py\<close> at the level of object pointers:
  \<open>LinkList\<close> keeps \<open>top\<close> and \<open>bottom\<close>, every \<open>Link\<close> (token) keeps \<open>next\<close>.
  Objects are addresses; \<open>nxt\<close> is the \<open>next\<close> attribute of every object
  (\<open>Link.next = None\<close> until it is assigned). The operations are the pointer code of the
  source: \<open>add_token\<close>/\<open>LinkList.add\<close>, the walk of \<open>remove_token\<close>, the splice of
  \<open>Gremlin.__call__\<close> and the legacy \<open>LinkList.remove\<close> (the traversal of
  \<open>LinkList.__unicode__\<close> is modelled on the list view, theory \<open>Tokens\<close>). Walks that follow \<open>next\<close> may loop on a cyclic structure, so
  they are \<open>partial_function (option)\<close>, \<open>None\<close> being "does not return".

  The abstraction is relational, in the style of heap list segments: \<open>lseg h p as\<close>
  says that following \<open>h\<close> from \<open>p\<close> visits exactly the addresses \<open>as\<close> and then
  reaches \<open>None\<close>. The main results are that every operation keeps the chain a
  well-formed list and acts on the abstract list as \<open>@ [t]\<close>, \<open>removeAll\<close> and
  "replace the last token" respectively, and that the legacy \<open>remove\<close> returns on a
  well-formed chain without unlinking anything; the builder theories use the list view.
\<close>

type_synonym addr = nat

record lls =
  nxt :: "addr \<Rightarrow> addr option"
  top :: addr
  bottom :: addr

primrec path :: "(addr \<Rightarrow> addr option) \<Rightarrow> addr option \<Rightarrow> addr list \<Rightarrow> addr option \<Rightarrow> bool" where
  "path h p [] q \<longleftrightarrow> p = q"
| "path h p (a # as) q \<longleftrightarrow> p = Some a \<and> path h (h a) as q"

abbreviation lseg :: "(addr \<Rightarrow> addr option) \<Rightarrow> addr option \<Rightarrow> addr list \<Rightarrow> bool" where
  "lseg h p as \<equiv> path h p as None"

text \<open>A well-formed chain: from \<open>top\<close> the \<open>next\<close> pointers visit \<open>xs\<close> (top first)
  and stop; \<open>bottom\<close> is the last node.\<close>

definition ll_inv :: "lls \<Rightarrow> addr list \<Rightarrow> bool" where
  "ll_inv l xs \<longleftrightarrow> lseg (nxt l) (Some (top l)) xs \<and> last xs = bottom l"

text \<open>\<open>add_token\<close> (lines 216--220) and \<open>LinkList.add\<close> (lines 15--19):
  \<open>self.bottom.next = token; self.bottom = token\<close>.\<close>

definition ll_add :: "lls \<Rightarrow> addr \<Rightarrow> lls" where
  "ll_add l a = l\<lparr>nxt := (nxt l)(bottom l := Some a), bottom := a\<rparr>"

text \<open>The walk of \<open>remove_token\<close> (lines 222--232): find the node whose \<open>next\<close>
  is the one to remove and relink it to \<open>remove.next\<close>.\<close>

partial_function (option) remove_loop ::
  "(addr \<Rightarrow> addr option) \<Rightarrow> addr option \<Rightarrow> addr \<Rightarrow> (addr \<Rightarrow> addr option) option" where
  "remove_loop h tok r =
     (case tok of
        None \<Rightarrow> Some h
      | Some t \<Rightarrow> if h t = Some r then Some (h(t := h r)) else remove_loop h (h t) r)"

definition ll_remove_token :: "lls \<Rightarrow> addr \<Rightarrow> lls option" where
  "ll_remove_token l r = map_option (\<lambda>h. l\<lparr>nxt := h\<rparr>) (remove_loop (nxt l) (Some (top l)) r)"

text \<open>The pointer code of \<open>Gremlin.__call__\<close> (lines 117--121): the new function token
  is linked after the bottom attribute, the attribute is removed from the chain and the
  function token is added.\<close>

definition ll_call_splice :: "lls \<Rightarrow> addr \<Rightarrow> lls option" where
  "ll_call_splice l f =
     map_option (\<lambda>l2. ll_add l2 f)
       (ll_remove_token (l\<lparr>nxt := (nxt l)(bottom l := Some f)\<rparr>) (bottom l))"

text \<open>The legacy \<open>LinkList.remove\<close> (lines 21--35). It writes a \<open>bottom\<close> attribute
  onto token objects (\<open>battr\<close>), an attribute nothing else reads, and never touches
  \<open>next\<close>.\<close>

partial_function (option) legacy_remove_loop ::
  "(addr \<Rightarrow> addr option) \<Rightarrow> (addr \<Rightarrow> addr option) \<Rightarrow> addr option \<Rightarrow> addr \<Rightarrow> bool
     \<Rightarrow> (addr \<Rightarrow> addr option) option" where
  "legacy_remove_loop h battr tok link drop_after =
     (case tok of
        None \<Rightarrow> Some battr
      | Some t \<Rightarrow>
          if link = t then
            (if drop_after then Some (battr(t := None))
             else legacy_remove_loop h (battr(t := (case h t of None \<Rightarrow> None | Some n \<Rightarrow> h n)))
                    (h t) link drop_after)
          else legacy_remove_loop h battr (h t) link drop_after)"

section \<open>List segments\<close>

lemma path_None [simp]: "path h None as q \<longleftrightarrow> as = [] \<and> q = None"
  by (cases as) auto

lemma path_Some: "path h (Some a) as q \<longleftrightarrow> (as = [] \<and> q = Some a) \<or> (\<exists>bs. as = a # bs \<and> path h (h a) bs q)"
  by (cases as) auto

lemma path_append [simp]: "path h p (as @ bs) r \<longleftrightarrow> (\<exists>q. path h p as q \<and> path h q bs r)"
  by (induction as arbitrary: p) auto

lemma path_upd [simp]: "u \<notin> set as \<Longrightarrow> path (h(u := v)) p as q \<longleftrightarrow> path h p as q"
  by (induction as arbitrary: p) auto

lemma lseg_unique: "lseg h p as \<Longrightarrow> lseg h p bs \<Longrightarrow> as = bs"
  by (induction as arbitrary: p bs) (auto simp: path_Some)

lemma lseg_distinct: "lseg h p as \<Longrightarrow> distinct as"
proof (induction as arbitrary: p)
  case Nil
  then show ?case by simp
next
  case (Cons a as)
  then have tail: "lseg h (h a) as" and "distinct as" by auto
  have "a \<notin> set as"
  proof
    assume "a \<in> set as"
    then obtain ys zs where as: "as = ys @ a # zs" by (meson split_list)
    with tail have "lseg h (h a) zs" by auto
    moreover from tail as have "lseg h (h a) (ys @ a # zs)" by simp
    ultimately have "ys @ a # zs = zs" by (rule lseg_unique [rotated])
    then show False by (metis length_append impossible_Cons le_add2)
  qed
  with \<open>distinct as\<close> show ?case by simp
qed

lemma ll_inv_nonempty: "ll_inv l xs \<Longrightarrow> xs \<noteq> []"
  by (auto simp: ll_inv_def)

section \<open>Appending a token\<close>

lemma lseg_snoc_link:
  assumes "lseg h p xs" and "xs \<noteq> []" and "a \<notin> set xs" and "h a = None"
  shows "lseg (h(last xs := Some a)) p (xs @ [a])"
proof -
  obtain ys b where xs: "xs = ys @ [b]" using \<open>xs \<noteq> []\<close> by (metis rev_exhaust)
  from assms(1) have "distinct xs" by (rule lseg_distinct)
  with xs have "b \<notin> set ys" by simp
  from assms(1) xs have "path h p ys (Some b)" and "h b = None" by auto
  with \<open>b \<notin> set ys\<close> assms(3,4) xs show ?thesis by auto
qed

text \<open>C8. \<open>add_token\<close> keeps the chain a well-formed list and appends the new
  token to it.\<close>

theorem ll_add_refines:
  assumes "ll_inv l xs" and "a \<notin> set xs" and "nxt l a = None"
  shows "ll_inv (ll_add l a) (xs @ [a])"
  using assms lseg_snoc_link [of "nxt l" "Some (top l)" xs a] ll_inv_nonempty [OF assms(1)]
  by (simp add: ll_inv_def ll_add_def)

section \<open>Removing a token\<close>

lemma remove_loop_lseg:
  assumes "lseg h (Some x) (x # ys)"
  shows "\<exists>h'. remove_loop h (Some x) r = Some h' \<and> lseg h' (Some x) (x # removeAll r ys)
               \<and> (\<forall>u. u \<notin> set (x # ys) \<longrightarrow> h' u = h u)"
  using assms
proof (induction ys arbitrary: x)
  case Nil
  then show ?case by (simp add: remove_loop.simps)
next
  case (Cons y ys)
  from Cons.prems have hx: "h x = Some y" and rest: "lseg h (Some y) (y # ys)" by auto
  from Cons.prems have "distinct (x # y # ys)" by (rule lseg_distinct)
  then have x_out: "x \<notin> set (y # ys)" and "y \<notin> set ys" by auto
  show ?case
  proof (cases "y = r")
    case True
    from rest have "lseg h (h y) ys" by simp
    with x_out have "lseg (h(x := h y)) (h y) ys" by simp
    moreover have "removeAll r ys = ys" using True \<open>y \<notin> set ys\<close> by simp
    ultimately show ?thesis using hx True by (simp add: remove_loop.simps)
  next
    case False
    from Cons.IH [OF rest] obtain h' where
      rec: "remove_loop h (Some y) r = Some h'" and seg: "lseg h' (Some y) (y # removeAll r ys)"
      and frame: "\<forall>u. u \<notin> set (y # ys) \<longrightarrow> h' u = h u"
      by blast
    from frame x_out hx have "h' x = Some y" by simp
    with seg have "lseg h' (Some x) (x # removeAll r (y # ys))" using False by simp
    moreover from hx False rec have "remove_loop h (Some x) r = Some h'"
      by (simp add: remove_loop.simps)
    ultimately show ?thesis using frame by auto
  qed
qed

text \<open>C9. \<open>remove_token\<close> terminates on a well-formed chain and removes the
  given token from it (a token that is not there leaves the chain as it is; the
  graph-variable token at the top is never removed).\<close>

theorem ll_remove_token_refines:
  assumes "ll_inv l (x # ys)"
  shows "\<exists>l'. ll_remove_token l r = Some l' \<and> lseg (nxt l') (Some (top l')) (x # removeAll r ys)
               \<and> top l' = top l \<and> bottom l' = bottom l"
proof -
  from assms have "top l = x" and "lseg (nxt l) (Some x) (x # ys)" by (auto simp: ll_inv_def)
  with remove_loop_lseg [of "nxt l" x ys r] show ?thesis by (auto simp: ll_remove_token_def)
qed

section \<open>The splice of a call\<close>

text \<open>C7. The attribute token at the bottom is replaced by the function token: the chain
  \<open>xs\<close> becomes \<open>butlast xs @ [f]\<close>; when the bottom is the graph-variable token
  itself (a builder called with no attribute before), nothing is removed and \<open>f\<close> is
  appended.\<close>

theorem ll_call_splice_refines:
  assumes inv: "ll_inv l xs" and fresh: "f \<notin> set xs" and fnone: "nxt l f = None"
  shows "\<exists>l'. ll_call_splice l f = Some l' \<and>
           ll_inv l' (if tl xs = [] then xs @ [f] else butlast xs @ [f])"
proof -
  let ?b = "bottom l" and ?h1 = "(nxt l)(bottom l := Some f)"
  obtain x ys where xs: "xs = x # ys" using ll_inv_nonempty [OF inv] by (cases xs) auto
  from inv have seg: "lseg (nxt l) (Some (top l)) xs" and last: "last xs = ?b"
    by (auto simp: ll_inv_def)
  from seg xs have top: "top l = x" by simp
  from seg have dist: "distinct xs" by (rule lseg_distinct)
  have seg1: "lseg ?h1 (Some x) (x # ys @ [f])"
    using lseg_snoc_link [OF seg _ fresh fnone] last xs top by simp
  from remove_loop_lseg [OF seg1, of ?b] obtain h2 where
    rem: "remove_loop ?h1 (Some x) ?b = Some h2" and
    seg2: "lseg h2 (Some x) (x # removeAll ?b (ys @ [f]))"
    by blast
  have "?b \<in> set xs" using last xs by (metis last_in_set list.distinct(1))
  with fresh have fb: "f \<noteq> ?b" by auto
  show ?thesis
  proof (cases ys)
    case Nil
    with last xs have bx: "?b = x" by simp
    with fb have rmf: "removeAll ?b (ys @ [f]) = [f]" using Nil by simp
    from seg2 have "lseg h2 (Some x) [x, f]" by (simp only: rmf)
    then have h2b: "h2 x = Some f" and "h2 f = None" by simp_all
    then have "lseg (h2(x := Some f)) (Some x) [x, f]" using fb bx by simp
    with rem bx top Nil xs show ?thesis
      by (simp add: ll_call_splice_def ll_remove_token_def ll_add_def ll_inv_def)
  next
    case (Cons y ys')
    with last xs have b_last: "?b = last ys" by simp
    with Cons have b_in: "?b \<in> set ys" by (metis last_in_set list.distinct(1))
    from dist xs have "distinct ys" and "x \<notin> set ys" by auto
    have ys_split: "ys = butlast ys @ [?b]" using b_last Cons by simp
    have b_notin: "?b \<notin> set (butlast ys)"
    proof -
      from \<open>distinct ys\<close> have "distinct (butlast ys @ [?b])" by (subst (asm) ys_split)
      then show ?thesis by simp
    qed
    have "removeAll ?b ys = butlast ys"
      by (subst ys_split) (simp add: b_notin)
    then have rm: "removeAll ?b (ys @ [f]) = butlast ys @ [f]" using fb by simp
    have "?b \<noteq> x" using b_in \<open>x \<notin> set ys\<close> by auto
    then have b_out: "?b \<notin> set (x # butlast ys @ [f])" using b_notin fb by simp
    from seg2 rm b_out have "lseg (h2(?b := Some f)) (Some x) (x # butlast ys @ [f])" by simp
    with rem top Cons xs show ?thesis
      by (simp add: ll_call_splice_def ll_remove_token_def ll_add_def ll_inv_def)
  qed
qed

section \<open>Traversal and the legacy remove\<close>

text \<open>\<open>LinkList.remove\<close> terminates on a well-formed chain, touches no
  \<open>next\<close> pointer (its result is only the new \<open>bottom\<close> attributes), and writes
  only the \<open>bottom\<close> attribute of the link it was asked to remove: it removes
  nothing.\<close>

lemma legacy_remove_loop_lseg:
  "lseg h p xs \<Longrightarrow> \<exists>b'. legacy_remove_loop h b p link d = Some b' \<and> (\<forall>u. u \<noteq> link \<longrightarrow> b' u = b u)"
proof (induction xs arbitrary: p b)
  case Nil
  then show ?case by (simp add: legacy_remove_loop.simps)
next
  case (Cons a as)
  then have p: "p = Some a" and rest: "lseg h (h a) as" by auto
  show ?case
  proof (cases "link = a")
    case True
    show ?thesis
    proof (cases d)
      case True
      with p \<open>link = a\<close> show ?thesis by (simp add: legacy_remove_loop.simps)
    next
      case False
      from Cons.IH [OF rest, of "b(a := (case h a of None \<Rightarrow> None | Some n \<Rightarrow> h n))"]
      obtain b' where "legacy_remove_loop h (b(a := (case h a of None \<Rightarrow> None | Some n \<Rightarrow> h n))) (h a) link d = Some b'"
        and "\<forall>u. u \<noteq> link \<longrightarrow> b' u = (b(a := (case h a of None \<Rightarrow> None | Some n \<Rightarrow> h n))) u"
        by blast
      with p \<open>link = a\<close> False show ?thesis by (simp add: legacy_remove_loop.simps)
    qed
  next
    case False
    from Cons.IH [OF rest, of b] p False show ?thesis by (simp add: legacy_remove_loop.simps)
  qed
qed

end
