(* ===== verification/Statement.thy ===== *)
theory Statement
  imports Builder
begin

text \<open>
  The two collaborators \<open>src/gremlinpy/gremlin.py\<close> imports and the repository does not
  contain: \<open>gremlinpy.config.GRAPH_VARIABLE\<close>, the default graph variable of
  \<open>Gremlin()\<close>, and \<open>gremlinpy.statement.Statement\<close>, a prebuilt fragment of a query.
  Both are modelled from the specification (section 6): the graph variable is a short
  identifier, \<open>''g''\<close>; a statement keeps the builder it was given by \<open>set_gremlin\<close>
  (the attribute \<open>gremlin\<close>, absent until then) and its \<open>build()\<close> makes the calls of its
  fragment on that builder. A fragment is a list of surface calls, each made on the
  builder the previous one returned, which is always the same builder.

  On these the two methods of the source are modelled as written:
  \<open>Gremlin.apply_statement\<close> (lines 247--250) and \<open>_Tokenable.apply_statement\<close>
  (lines 261--267). The latter is reached from no other code: \<open>fix_value\<close> calls the
  misspelt \<open>apply_statment\<close>, and no token built by \<open>Token.__init__\<close> holds a
  statement (theory \<open>Normalize\<close>).
\<close>

section \<open>Statements\<close>

datatype frag =
    FAttr string
  | FCall "pyval list"
  | FItem pyval
  | FMethod string "pyval list"

record statement =
  st_gremlin :: "nat option"
  st_frags :: "frag list"

text \<open>One call of a fragment on builder \<open>g\<close>: \<open>.a\<close>, \<open>(args)\<close>, \<open>[key]\<close> or
  \<open>.name(args)\<close>.\<close>

fun frag_apply :: "nat \<Rightarrow> nat \<Rightarrow> frag \<Rightarrow> (pyerr, world, nat) exc" where
  "frag_apply f g (FAttr a) = get_attr f g a"
| "frag_apply f g (FCall args) = call f g args"
| "frag_apply f g (FItem v) = get_item f g v"
| "frag_apply f g (FMethod m args) = bindE (attr_call f g m args) (\<lambda>_. ok g)"

definition stmt_set_gremlin :: "nat \<Rightarrow> statement \<Rightarrow> statement" where
  "stmt_set_gremlin g s = s\<lparr>st_gremlin := Some g\<rparr>"

text \<open>\<open>build()\<close>: without a builder the attribute read fails.\<close>

definition stmt_build :: "nat \<Rightarrow> statement \<Rightarrow> (pyerr, world, unit) exc" where
  "stmt_build f s =
     (case st_gremlin s of None \<Rightarrow> throw AttributeError | Some g \<Rightarrow> forE (frag_apply f g) (st_frags s))"

text \<open>\<open>Gremlin.apply_statement\<close> (lines 247--250):
  \<open>statement.set_gremlin(self).build()\<close>, then the builder itself.\<close>

definition gremlin_apply_statement :: "nat \<Rightarrow> nat \<Rightarrow> statement \<Rightarrow> (pyerr, world, nat) exc" where
  "gremlin_apply_statement f g s = bindE (stmt_build f (stmt_set_gremlin g s)) (\<lambda>_. ok g)"

text \<open>\<open>_Tokenable.apply_statement\<close> (lines 261--267) for a token of builder \<open>g\<close>: a
  statement without a builder gets a new \<open>Gremlin()\<close>; the statement's builder is
  parented to \<open>g\<close>, which binds its parameters into \<open>g\<close>; the statement is returned.\<close>

definition tok_apply_statement :: "nat \<Rightarrow> nat \<Rightarrow> statement \<Rightarrow> (pyerr, world, statement) exc" where
  "tok_apply_statement f g s =
     bindE (case st_gremlin s of
              None \<Rightarrow> bindE (gremlin_default f) (\<lambda>c. ok (stmt_set_gremlin c s))
            | Some c \<Rightarrow> ok s) (\<lambda>s'.
     bindE (set_parent_gremlin f (the (st_gremlin s')) (PGremlin g)) (\<lambda>_. ok s'))"

section \<open>Lemmas\<close>

lemma stmt_gremlin_set [simp]: "st_gremlin (stmt_set_gremlin g s) = Some g"
  by (simp add: stmt_set_gremlin_def)

lemma stmt_frags_set [simp]: "st_frags (stmt_set_gremlin g s) = st_frags s"
  by (simp add: stmt_set_gremlin_def)

text \<open>Applying a statement is making the calls of its fragment on the builder, whatever
  builder the statement held before.\<close>

lemma apply_statement_calls:
  "gremlin_apply_statement f g s = bindE (forE (frag_apply f g) (st_frags s)) (\<lambda>_. ok g)"
  by (simp add: gremlin_apply_statement_def stmt_build_def)

text \<open>\<open>build()\<close> on a statement that was never given a builder raises
  \<open>AttributeError\<close> and changes nothing.\<close>

lemma stmt_build_unset: "st_gremlin s = None \<Longrightarrow> stmt_build f s w = (Inl AttributeError, w)"
  by (simp add: stmt_build_def throw_def)

text \<open>A statement without a builder, applied through a token of \<open>g\<close>, receives the
  next address, a new builder for the default graph variable whose parent is \<open>g\<close>
  (its dictionary is empty, so parenting binds nothing).\<close>

lemma tok_apply_statement_fresh:
  assumes "st_gremlin s = None"
  shows "tok_apply_statement (Suc (Suc f)) g s w =
    (Inr (stmt_set_gremlin (next_id w) s),
     w\<lparr>next_id := Suc (next_id w),
       heap := (heap w)(next_id w \<mapsto> (fresh_gremlin GRAPH_VARIABLE (uuids w (draws w)))\<lparr>parent := Some (PGremlin g)\<rparr>),
       draws := Suc (draws w)\<rparr>)"
  using assms
  by (cases f) (simp_all add: tok_apply_statement_def gremlin_default_def gremlin_new_def GRAPH_VARIABLE_def
      bindE_def ok_def Let_def set_parent_gremlin_def fresh_gremlin_def bind_params_def set_gremlin_def)

end
