(* ===== verification/Invariant.thy ===== *)
theory Invariant
  imports Statement
begin

text \<open>
  The invariant every builder operation of \<open>src/gremlinpy/gremlin.py\<close> keeps, and the
  reachable states of a client program that uses them.

  A world is well formed (\<open>wf_world\<close>) when no address at or above \<open>next_id\<close> holds a
  builder (so \<open>Gremlin()\<close> never overwrites one), and every builder is \<open>builder_ok\<close>:
  the keys of \<open>bound_params\<close> are distinct, there are no more of them than
  \<open>bound_count\<close> (the counter behind the generated names), and no token of the chain
  after the graph variable holds a statement (\<open>Token.__init__\<close> refuses one). The
  graph-variable token itself is not constrained: \<open>set_graph_variable\<close> stores its
  argument there unnormalised, a statement included. \<open>grows w w'\<close> says \<open>w'\<close> is well
  formed and has allocated no fewer addresses; \<open>keeps m\<close> says a computation takes every
  well-formed world to one it grows into, on success and on every exception.

  The lemmas prove \<open>keeps\<close> for the binder, the normaliser, the five mutually recursive
  renderers (by induction on the fuel) and each operation of the fluent surface. A
  client program is a sequence of \<open>op\<close>s, each one call of the surface at any fuel
  (any depth of the Python stack); \<open>reachable\<close> holds of the worlds such a program
  reaches from the empty heap, and the invariant holds on all of them.
\<close>

section \<open>Definitions\<close>

definition builder_ok :: "gremlin \<Rightarrow> bool" where
  "builder_ok G \<longleftrightarrow> distinct (map fst (bound_params G)) \<and> length (bound_params G) \<le> bound_count G \<and>
     list_all tok_ok (chain G)"

definition wf_world :: "world \<Rightarrow> bool" where
  "wf_world w \<longleftrightarrow> (\<forall>n. next_id w \<le> n \<longrightarrow> heap w n = None) \<and>
     (\<forall>g G. heap w g = Some G \<longrightarrow> builder_ok G)"

definition grows :: "world \<Rightarrow> world \<Rightarrow> bool" where
  "grows w w' \<longleftrightarrow> wf_world w' \<and> next_id w \<le> next_id w'"

definition keeps :: "(world \<Rightarrow> ('e + 'a) \<times> world) \<Rightarrow> bool" where
  "keeps m \<longleftrightarrow> (\<forall>w r w'. wf_world w \<longrightarrow> m w = (r, w') \<longrightarrow> grows w w')"

text \<open>The calls a client makes: \<open>Gremlin(gv)\<close>, \<open>g.name\<close>, \<open>g.name(*args)\<close>,
  \<open>g(*args)\<close>, \<open>g[key]\<close>, \<open>g.bind_param(v, name)\<close>, \<open>eq(*args)\<close> and the other named
  predicates, \<open>_p(name, *args)\<close>, \<open>str(g)\<close> with \<open>g.bound_params\<close>, and
  \<open>g.apply_statement(s)\<close> for a statement of any fragment. The value a
  call returns is dropped; the next call may name any address and any value.\<close>

datatype op =
  OpNew pyval
| OpGetAttr nat string
| OpAttrCall nat string "pyval list"
| OpCall nat "pyval list"
| OpItem nat pyval
| OpBind nat pyval "string option"
| OpNamedPred string "pyval list"
| OpP string "pyval list"
| OpRender nat
| OpApplyStmt nat statement

fun op_run :: "nat \<Rightarrow> op \<Rightarrow> world \<Rightarrow> world" where
  "op_run f (OpNew v) w = snd (gremlin_new f v w)"
| "op_run f (OpGetAttr g a) w = snd (get_attr f g a w)"
| "op_run f (OpAttrCall g a args) w = snd (attr_call f g a args w)"
| "op_run f (OpCall g args) w = snd (call f g args w)"
| "op_run f (OpItem g v) w = snd (get_item f g v w)"
| "op_run f (OpBind g v nm) w = snd (bind_param f g v nm w)"
| "op_run f (OpNamedPred cls args) w = snd (named_pred f cls args w)"
| "op_run f (OpP name args) w = snd (p_pred f name args w)"
| "op_run f (OpRender g) w = snd (render f g w)"
| "op_run f (OpApplyStmt g s) w = snd (gremlin_apply_statement f g s w)"

definition empty_world :: "(nat \<Rightarrow> string) \<Rightarrow> world" where
  "empty_world u = \<lparr>heap = Map.empty, next_id = 0, uuids = u, draws = 0\<rparr>"

inductive reachable :: "world \<Rightarrow> bool" where
  init: "reachable (empty_world u)"
| step: "reachable w \<Longrightarrow> reachable (op_run f op w)"

text \<open>A world with one builder \<open>Gremlin('g')\<close>, for the witnesses.\<close>

definition one_builder_world :: world where
  "one_builder_world = op_run 2 (OpNew (VStr ''g'')) (empty_world (\<lambda>_. ''aaaaa''))"

section \<open>The preorder\<close>

lemma grows_refl: "wf_world w \<Longrightarrow> grows w w"
  by (simp add: grows_def)

lemma grows_trans: "grows w1 w2 \<Longrightarrow> grows w2 w3 \<Longrightarrow> grows w1 w3"
  by (simp add: grows_def)

lemma grows_wf: "grows w w' \<Longrightarrow> wf_world w'"
  by (simp add: grows_def)

lemma wf_set_gremlin:
  "wf_world w \<Longrightarrow> heap w g \<noteq> None \<Longrightarrow> builder_ok G \<Longrightarrow> grows w (set_gremlin g G w)"
  by (auto simp: grows_def wf_world_def)

lemma wf_heapD: "wf_world w \<Longrightarrow> heap w g = Some G \<Longrightarrow> builder_ok G"
  by (simp add: wf_world_def)

lemma length_update_le: "length (AList.update k v al) \<le> Suc (length al)"
  by (induction al) auto

lemma builder_ok_bump:
  "builder_ok G \<Longrightarrow> builder_ok (G\<lparr>bound_count := Suc (bound_count G), bound_params := AList.update k v (bound_params G)\<rparr>)"
  using length_update_le [of k v "bound_params G"]
  by (auto simp: builder_ok_def distinct_keys_update)

lemma builder_ok_count: "builder_ok G \<Longrightarrow> builder_ok (G\<lparr>bound_count := Suc (bound_count G)\<rparr>)"
  by (simp add: builder_ok_def)

section \<open>Binder and normaliser\<close>

lemma bind_step_grows:
  "wf_world w \<Longrightarrow> heap w g = Some G \<Longrightarrow> bind_step g G nm v w = (name, w2) \<Longrightarrow> grows w w2"
  using wf_set_gremlin [of w g] builder_ok_bump [OF wf_heapD]
  by (auto simp: bind_step_def Let_def)

lemma bind_param_grows:
  "wf_world w \<Longrightarrow> bind_param f g v nm w = (r, w') \<Longrightarrow> grows w w'"
proof (induction f arbitrary: g v nm w r w')
  case 0
  then show ?case by (simp add: grows_refl)
next
  case (Suc f)
  show ?case
  proof (cases "heap w g")
    case None
    then show ?thesis using Suc.prems by (simp add: grows_refl)
  next
    case (Some G)
    have ok: "builder_ok G" using wf_heapD [OF Suc.prems(1) Some] .
    show ?thesis
    proof (cases "resolve_backref (bound_params G) v nm")
      case (Inl e)
      then show ?thesis using Suc.prems Some ok wf_set_gremlin [OF Suc.prems(1), of g]
        by (auto simp: builder_ok_count)
    next
      case (Inr p)
      obtain nm' v' where p: "p = (nm', v')" by (cases p)
      obtain name w2 where bs: "bind_step g G nm' v' w = (name, w2)" by fastforce
      have g2: "grows w w2" by (rule bind_step_grows [OF Suc.prems(1) Some bs])
      note eq = bind_param_Suc_Some [OF Some Inr [unfolded p], of f]
      show ?thesis
      proof (cases "parent_gid G")
        case None
        then show ?thesis using eq Suc.prems(2) g2 bs by simp
      next
        case (Some q)
        obtain r3 w3 where b: "bind_param f q v' (Some name) w2 = (r3, w3)" by fastforce
        have "grows w2 w3" using Suc.IH [OF grows_wf [OF g2] b] .
        then show ?thesis using eq Suc.prems(2) Some b bs g2 grows_trans
          by (auto split: sum.splits)
      qed
    qed
  qed
qed

lemma forE_grows:
  assumes "\<And>x w r w'. wf_world w \<Longrightarrow> f x w = (r, w') \<Longrightarrow> grows w w'"
  shows "wf_world w \<Longrightarrow> forE f xs w = (r, w') \<Longrightarrow> grows w w'"
proof (induction xs arbitrary: w r w')
  case Nil
  then show ?case by (simp add: grows_refl)
next
  case (Cons x xs)
  obtain r1 w1 where a: "f x w = (r1, w1)" by fastforce
  have g1: "grows w w1" using assms [OF Cons.prems(1) a] .
  show ?case
  proof (cases r1)
    case (Inl e)
    then show ?thesis using Cons.prems(2) a g1 by (simp add: bindE_def)
  next
    case (Inr y)
    then have "forE f xs w1 = (r, w')" using Cons.prems(2) a by (simp add: bindE_def)
    then show ?thesis using Cons.IH [OF grows_wf [OF g1]] g1 grows_trans by blast
  qed
qed

lemma bind_params_grows:
  "wf_world w \<Longrightarrow> bind_params f g vs w = (r, w') \<Longrightarrow> grows w w'"
  using forE_grows [of "\<lambda>v. bind_param f g v None" w vs] bind_param_grows
  by (fastforce simp: bind_params_def bindE_def split: prod.splits sum.splits option.splits
      intro: grows_trans grows_refl)

lemma set_parent_gremlin_grows:
  "wf_world w \<Longrightarrow> set_parent_gremlin f c p w = (r, w') \<Longrightarrow> grows w w'"
proof (cases "heap w c")
  case None
  then show "wf_world w \<Longrightarrow> set_parent_gremlin f c p w = (r, w') \<Longrightarrow> grows w w'"
    by (simp add: set_parent_gremlin_def grows_refl)
next
  case (Some C)
  assume wf: "wf_world w" and sp: "set_parent_gremlin f c p w = (r, w')"
  have ok: "builder_ok (C\<lparr>parent := Some p\<rparr>)" using wf_heapD [OF wf Some] by (simp add: builder_ok_def)
  have g1: "grows w (set_gremlin c (C\<lparr>parent := Some p\<rparr>) w)" using wf_set_gremlin [OF wf _ ok] Some by simp
  have "bind_params f c (map (VStr \<circ> fst) (bound_params C)) (set_gremlin c (C\<lparr>parent := Some p\<rparr>) w) = (r, w')"
    using sp Some by (simp add: set_parent_gremlin_def)
  then show ?thesis using bind_params_grows [OF grows_wf [OF g1]] g1 grows_trans by blast
qed

lemma fix_scalar_grows:
  "wf_world w \<Longrightarrow> fix_scalar f own cb v w = (r, w') \<Longrightarrow> grows w w'"
  by (cases own) (auto simp: grows_refl split: if_splits prod.splits sum.splits dest: bind_param_grows)

lemma builder_ok_fresh: "builder_ok (fresh_gremlin gvv seed)"
  by (simp add: builder_ok_def fresh_gremlin_def)

lemma fix_value_grows:
  "wf_world w \<Longrightarrow> fix_value f own cb v w = (r, w') \<Longrightarrow> grows w w'"
  "wf_world w \<Longrightarrow> fix_list f own cb vs w = (rs, w') \<Longrightarrow> grows w w'"
  "wf_world w \<Longrightarrow> new_gremlin f gvv w = (rn, w') \<Longrightarrow> grows w w'"
proof (induction f own cb v w and f own cb vs w and f gvv w arbitrary: r w' and rs w' and rn w'
       rule: fix_value_fix_list_new_gremlin.induct)
  case (2 f own cb p w)
  then show ?case by (auto split: prod.splits sum.splits)
next
  case (3 f own cb vs w)
  then show ?case by (auto split: prod.splits sum.splits)
next
  case (4 f own cb s w)
  then show ?case by (cases own) (auto simp: grows_refl)
next
  case (5 f own cb c w)
  then show ?case by (auto split: prod.splits sum.splits dest: set_parent_gremlin_grows)
next
  case (8 f own cb v vs w)
  then show ?case by (auto split: prod.splits sum.splits) (metis grows_trans grows_wf)+
next
  case (10 f gvv w)
  let ?n = "next_id w"
  have w1: "wf_world (w\<lparr>next_id := Suc ?n\<rparr>)" using 10(2) by (auto simp: wf_world_def)
  have n1: "next_id w \<le> next_id (w\<lparr>next_id := Suc ?n\<rparr>)" by simp
  show ?case
  proof (cases "fix_value f (OTok ?n gvv) False gvv (w\<lparr>next_id := Suc ?n\<rparr>)")
    case (Pair r1 w2)
    have g2: "grows (w\<lparr>next_id := Suc ?n\<rparr>) w2" using 10(1) [OF _ w1 Pair] by simp
    show ?thesis
    proof (cases r1)
      case (Inl e)
      then show ?thesis using 10(3) Pair g2 by (auto simp: Let_def grows_def)
    next
      case (Inr x)
      then show ?thesis using 10(3) Pair g2 builder_ok_fresh
        by (auto simp: Let_def grows_def wf_world_def split: if_splits)
    qed
  qed
qed (auto simp: grows_refl dest: fix_scalar_grows)

lemma token_init_grows:
  "wf_world w \<Longrightarrow> token_init f g k v args w = (r, w') \<Longrightarrow> grows w w'"
  by (auto simp: token_init_def grows_refl split: option.splits prod.splits sum.splits
      dest: fix_value_grows(1,2) intro: grows_trans dest: grows_wf)

lemma token_init_ok:
  "token_init f g k v args w = (Inr t, w') \<Longrightarrow> tok_ok t"
  by (auto simp: token_init_def tok_ok_def split: option.splits prod.splits sum.splits
           dest: fix_value_no_stmt(1,2))

lemma mapE_grows:
  assumes "\<And>x w r w'. wf_world w \<Longrightarrow> f x w = (r, w') \<Longrightarrow> grows w w'"
  shows "wf_world w \<Longrightarrow> mapE f xs w = (r, w') \<Longrightarrow> grows w w'"
proof (induction xs arbitrary: w r w')
  case Nil
  then show ?case by (simp add: grows_refl)
next
  case (Cons x xs)
  obtain r1 w1 where a: "f x w = (r1, w1)" by fastforce
  have g1: "grows w w1" using assms [OF Cons.prems(1) a] .
  show ?case
  proof (cases r1)
    case (Inl e)
    then show ?thesis using Cons.prems(2) a g1 by (simp add: bindE_def)
  next
    case (Inr y)
    obtain r2 w2 where b: "mapE f xs w1 = (r2, w2)" by fastforce
    have "grows w1 w2" using Cons.IH [OF grows_wf [OF g1] b] .
    moreover have "w' = w2" using Cons.prems(2) a b Inr by (auto simp: bindE_def split: sum.splits)
    ultimately show ?thesis using g1 grows_trans by blast
  qed
qed

section \<open>Token updates and combinators on computations\<close>

lemma list_all_update:
  "list_all P xs \<Longrightarrow> (i < length xs \<Longrightarrow> P (h (xs ! i))) \<Longrightarrow> list_all P (xs[i := h (xs ! i)])"
  by (cases "i < length xs") (auto simp: list_all_length nth_list_update)

lemma upd_tok_grows:
  assumes "wf_world w" and "\<And>t. tok_ok t \<Longrightarrow> tok_ok (h t)"
  shows "grows w (upd_tok g i h w)"
proof (cases "heap w g")
  case None
  then show ?thesis using assms(1) by (simp add: upd_tok_def grows_refl)
next
  case (Some G)
  have ok: "builder_ok G" using wf_heapD [OF assms(1) Some] .
  then have "list_all tok_ok ((chain G)[i := h (chain G ! i)])"
    using assms(2) list_all_update [of tok_ok "chain G" i h] by (simp add: builder_ok_def list_all_length)
  then have "builder_ok (G\<lparr>chain := (chain G)[i := h (chain G ! i)]\<rparr>)" using ok by (simp add: builder_ok_def)
  then show ?thesis using wf_set_gremlin [OF assms(1)] Some by (simp add: upd_tok_def)
qed

lemma add_token_grows:
  "wf_world w \<Longrightarrow> tok_ok t \<Longrightarrow> grows w (add_token g t w)"
  using wf_set_gremlin [of w g] by (auto simp: add_token_def builder_ok_def grows_refl dest: wf_heapD split: option.splits)

lemma tok_ok_pop: "tok_ok t \<Longrightarrow> tok_ok (t\<lparr>targs := butlast (targs t)\<rparr>)"
  by (auto simp: tok_ok_def list_all_iff dest: in_set_butlastD)

lemma tok_ok_push: "tok_ok t \<Longrightarrow> tok_ok (t\<lparr>targs := targs t @ [VStr s]\<rparr>)"
  by (simp add: tok_ok_def)

lemma keepsI: "(\<And>w r w'. wf_world w \<Longrightarrow> m w = (r, w') \<Longrightarrow> grows w w') \<Longrightarrow> keeps m"
  by (simp add: keeps_def)

lemma keepsD: "keeps m \<Longrightarrow> wf_world w \<Longrightarrow> m w = (r, w') \<Longrightarrow> grows w w'"
  by (simp add: keeps_def)

lemma keeps_ok [intro]: "keeps (ok x)"
  by (simp add: keeps_def grows_refl)

lemma keeps_throw [intro]: "keeps (throw e)"
  by (simp add: keeps_def grows_refl)

lemma keeps_raise [intro]: "keeps (Pair (Inl e))"
  by (simp add: keeps_def grows_refl)

lemma keeps_bindE [intro]:
  assumes "keeps m" and "\<And>a. keeps (k a)"
  shows "keeps (bindE m k)"
proof (rule keepsI)
  fix w r w'
  assume wf: "wf_world w" and b: "bindE m k w = (r, w')"
  obtain r1 w1 where a: "m w = (r1, w1)" by fastforce
  have g1: "grows w w1" using keepsD [OF assms(1) wf a] .
  show "grows w w'"
  proof (cases r1)
    case (Inl e)
    then show ?thesis using a b g1 by (simp add: bindE_def)
  next
    case (Inr x)
    then have "k x w1 = (r, w')" using a b by (simp add: bindE_def)
    then show ?thesis using keepsD [OF assms(2) grows_wf [OF g1]] g1 grows_trans by blast
  qed
qed

lemma keeps_mapE [intro]: "(\<And>x. keeps (f x)) \<Longrightarrow> keeps (mapE f xs)"
  by (induction xs) auto

lemma keeps_upd_tok:
  assumes "\<And>t. tok_ok t \<Longrightarrow> tok_ok (h t)" and "keeps m"
  shows "keeps (\<lambda>w. m (upd_tok g i h w))"
proof (rule keepsI)
  fix w r w'
  assume wf: "wf_world w" and m: "m (upd_tok g i h w) = (r, w')"
  have g1: "grows w (upd_tok g i h w)" by (rule upd_tok_grows [OF wf assms(1)])
  show "grows w w'" using keepsD [OF assms(2) grows_wf [OF g1] m] g1 grows_trans by blast
qed

lemma keeps_inspect: "(\<And>u. keeps (k u)) \<Longrightarrow> keeps (\<lambda>w. k w w)"
  by (simp add: keeps_def)

lemma keeps_set_parent [intro]: "keeps (set_parent_gremlin f c p)"
  using set_parent_gremlin_grows by (blast intro: keepsI)

lemma keeps_add_token: "tok_ok t \<Longrightarrow> keeps (\<lambda>w. (r, add_token g t w))"
  using add_token_grows by (blast intro: keepsI)

section \<open>The renderers\<close>

lemma render_function_keeps:
  assumes sv: "\<And>v. keeps (sv v)"
  shows "keeps (render_function f sv g i t)"
proof -
  let ?tail = "\<lambda>t3. bindE (mapE sv (targs t3)) (\<lambda>ss.
                 bindE (sv (tvalue t)) (\<lambda>v. ok (v @ ''('' @ join_sep '', '' ss @ '')'')))"
  have k3: "keeps (\<lambda>w3. case get_tok g i w3 of None \<Rightarrow> (Inl AttributeError, w3) | Some t3 \<Rightarrow> ?tail t3 w3)"
  proof -
    have "keeps (\<lambda>w3. (case get_tok g i u of None \<Rightarrow> throw AttributeError | Some t3 \<Rightarrow> ?tail t3) w3)" for u
      using sv by (cases "get_tok g i u") auto
    then have "keeps (\<lambda>w3. (\<lambda>u. case get_tok g i u of None \<Rightarrow> throw AttributeError | Some t3 \<Rightarrow> ?tail t3) w3 w3)"
      by (rule keeps_inspect)
    then show ?thesis by (simp add: option.case_distrib [of "\<lambda>m. m _"] throw_def
        cong: option.case_cong)
  qed
  have fin: "keeps (bindE (sv (last (targs t))) (\<lambda>s w2.
              (let w3 = upd_tok g i (\<lambda>t'. t'\<lparr>targs := targs t' @ [VStr s]\<rparr>) w2 in
               case get_tok g i w3 of None \<Rightarrow> (Inl AttributeError, w3) | Some t3 \<Rightarrow> ?tail t3 w3)))"
    using sv keeps_upd_tok [OF tok_ok_push k3] by (auto simp: Let_def)
  show ?thesis
  proof (rule keepsI)
    fix w r w'
    assume wf: "wf_world w" and rf: "render_function f sv g i t w = (r, w')"
    show "grows w w'"
    proof (cases "targs t = []")
      case True
      then show ?thesis using rf keepsD [OF keeps_bindE [OF sv keeps_ok] wf] by (simp add: render_function_def)
    next
      case False
      define FIN where "FIN = bindE (sv (last (targs t))) (\<lambda>s w2.
              (let w3 = upd_tok g i (\<lambda>t'. t'\<lparr>targs := targs t' @ [VStr s]\<rparr>) w2 in
               case get_tok g i w3 of None \<Rightarrow> (Inl AttributeError, w3) | Some t3 \<Rightarrow> ?tail t3 w3))"
      define K where "K = (case last (targs t) of
                VStmt _ \<Rightarrow> Pair (Inl AttributeError)
              | VGremlin c \<Rightarrow> bindE (set_parent_gremlin f c (PGremlin g)) (\<lambda>_. FIN)
              | _ \<Rightarrow> FIN)"
      have kf: "keeps FIN" using fin unfolding FIN_def .
      have kK: "keeps K" unfolding K_def
        using kf keeps_bindE [OF keeps_set_parent kf] keeps_raise by (cases "last (targs t)") simp_all
      have ku: "keeps (\<lambda>w. K (upd_tok g i (\<lambda>t'. t'\<lparr>targs := butlast (targs t')\<rparr>) w))"
        using kK by (intro keeps_upd_tok) (simp_all add: tok_ok_pop)
      have eq: "render_function f sv g i t w = K (upd_tok g i (\<lambda>t'. t'\<lparr>targs := butlast (targs t')\<rparr>) w)"
        unfolding K_def FIN_def render_function_def Let_def using False
        by (cases "last (targs t)") simp_all
      show ?thesis using keepsD [OF ku wf] rf eq by simp
    qed
  qed
qed

lemma keeps_join_then:
  "(\<And>j. keeps (m j)) \<Longrightarrow> keeps (\<lambda>w. case py_join sep xs of Inl e \<Rightarrow> (Inl e, w) | Inr j \<Rightarrow> m j w)"
  by (cases "py_join sep xs") (simp_all add: keeps_raise [unfolded Pair_def] keeps_def grows_refl)

lemma render_unbound_keeps: "(\<And>v. keeps (sv v)) \<Longrightarrow> keeps (render_unbound sv t)"
  unfolding render_unbound_def by (rule keeps_join_then) auto

lemma render_index_keeps: "(\<And>v. keeps (sv v)) \<Longrightarrow> keeps (render_index sv t)"
  unfolding render_index_def by (auto split: pyval.split)

lemma render_closure_keeps:
  assumes sv: "\<And>v. keeps (sv v)"
  shows "keeps (render_closure f sv g witharg t)"
proof -
  define body where "body = (if witharg then
           (\<lambda>w'. case py_join '','' (targs t) of
                   Inl e \<Rightarrow> (Inl e, w')
                 | Inr j \<Rightarrow> bindE (sv (tvalue t)) (\<lambda>s. ok (''{'' @ j @ '' -> '' @ s @ ''}'')) w')
         else bindE (sv (tvalue t)) (\<lambda>s. ok (''{'' @ s @ ''}'')))"
  have kb: "keeps body"
  proof (cases witharg)
    case True
    have "keeps (\<lambda>w'. case py_join '','' (targs t) of Inl e \<Rightarrow> (Inl e, w')
            | Inr j \<Rightarrow> (\<lambda>j. bindE (sv (tvalue t)) (\<lambda>s. ok (''{'' @ j @ '' -> '' @ s @ ''}''))) j w')"
      by (rule keeps_join_then) (use sv in auto)
    then show ?thesis using True by (simp add: body_def)
  qed (use sv in \<open>auto simp: body_def\<close>)
  have ka: "keeps (\<lambda>w. (Inl AttributeError, add_token g (attr_token ''apply_statment'') w))"
    by (rule keeps_add_token) (simp add: attr_token_def tok_ok_def)
  have eq: "render_closure f sv g witharg t = (case tvalue t of
             VStmt _ \<Rightarrow> (\<lambda>w. (Inl AttributeError, add_token g (attr_token ''apply_statment'') w))
           | VGremlin c \<Rightarrow> bindE (set_parent_gremlin f c (PGremlin g)) (\<lambda>_. body)
           | _ \<Rightarrow> body)"
    by (rule ext) (simp add: render_closure_def body_def Let_def split: pyval.split)
  show ?thesis unfolding eq using kb ka by (auto split: pyval.split)
qed

lemma render_raw_keeps:
  assumes sv: "\<And>v. keeps (sv v)"
  shows "keeps (render_raw f sv g t)"
proof -
  have eq: "render_raw f sv g t = (case tvalue t of
             VStmt _ \<Rightarrow> Pair (Inl AttributeError)
           | VGremlin c \<Rightarrow> bindE (set_parent_gremlin f c (PGremlin g)) (\<lambda>_. sv (tvalue t))
           | _ \<Rightarrow> sv (tvalue t))"
    by (rule ext) (simp add: render_raw_def split: pyval.split)
  show ?thesis unfolding eq using sv by (auto split: pyval.split)
qed

lemma keeps_id_result: "keeps (\<lambda>w. (Inr x, w))"
  by (simp add: keeps_def grows_refl)

lemma str_val_keeps_step:
  assumes "\<And>c. keeps (render_gremlin f c)" and "\<And>p. keeps (pred_str f p)"
  shows "keeps (str_val (Suc f) v)"
  using assms by (cases v) (simp_all add: keeps_id_result [unfolded Pair_def] keeps_def grows_refl)

lemma str_val_keeps_0: "keeps (str_val 0 v)"
  by (cases v) (simp_all add: keeps_def grows_refl)

lemma pred_str_keeps_step:
  assumes "\<And>v. keeps (str_val f v)"
  shows "keeps (pred_str (Suc f) p)"
proof (rule keepsI)
  fix w r w'
  assume wf: "wf_world w" and e: "pred_str (Suc f) p w = (r, w')"
  obtain cls fn args where p: "p = Pred cls fn args" by (cases p)
  show "grows w w'"
    using e wf keepsD [OF assms] unfolding p
    by (auto simp: grows_refl split: option.splits if_splits sum.splits prod.splits)
qed

lemma render_chain_keeps_step:
  assumes "\<And>g i. keeps (render_token f g i)"
  shows "keeps (render_chain (Suc f) g ixs pk ts)"
proof (induction ixs arbitrary: pk ts)
  case Nil
  then show ?case by (simp add: keeps_def grows_refl)
next
  case (Cons i ixs)
  show ?case
  proof (rule keepsI)
    fix w r w'
    assume wf: "wf_world w" and e: "render_chain (Suc f) g (i # ixs) pk ts w = (r, w')"
    show "grows w w'"
    proof (cases "get_tok g i w")
      case None
      then show ?thesis using e wf by (simp add: grows_refl)
    next
      case (Some t)
      obtain r1 w1 where a: "render_token f g i w = (r1, w1)" by fastforce
      have g1: "grows w w1" using keepsD [OF assms wf a] .
      show ?thesis
      proof (cases r1)
        case (Inl x)
        then show ?thesis using e Some a g1 by simp
      next
        case (Inr s)
        then have "render_chain (Suc f) g ixs (kind t) (loop_step pk ts (kind t) s) w1 = (r, w')"
          using e Some a by simp
        then show ?thesis using keepsD [OF Cons.IH grows_wf [OF g1]] g1 grows_trans by blast
      qed
    qed
  qed
qed

lemma render_token_keeps_step:
  assumes sv: "\<And>v. keeps (str_val f v)"
  shows "keeps (render_token (Suc f) g i)"
proof (rule keepsI)
  fix w r w'
  assume wf: "wf_world w" and e: "render_token (Suc f) g i w = (r, w')"
  show "grows w w'"
  proof (cases "get_tok g i w")
    case None
    then show ?thesis using e wf by (simp add: grows_refl)
  next
    case (Some t)
    define M where "M = (case kind t of
             Function \<Rightarrow> render_function f (str_val f) g i t
           | FunctionRaw \<Rightarrow> render_function f (str_val f) g i t
           | UnboudFunction \<Rightarrow> render_unbound (str_val f) t
           | UnboudFunctionRaw \<Rightarrow> render_unbound (str_val f) t
           | Index \<Rightarrow> render_index (str_val f) t
           | Closure \<Rightarrow> render_closure f (str_val f) g False t
           | ClosureArguments \<Rightarrow> render_closure f (str_val f) g True t
           | Raw \<Rightarrow> render_raw f (str_val f) g t
           | _ \<Rightarrow> str_val f (tvalue t))"
    have k1: "keeps (render_function f (str_val f) g i t)" by (rule render_function_keeps [OF sv])
    have k2: "keeps (render_unbound (str_val f) t)" by (rule render_unbound_keeps [OF sv])
    have k3: "keeps (render_index (str_val f) t)" by (rule render_index_keeps [OF sv])
    have k4: "keeps (render_closure f (str_val f) g b t)" for b by (rule render_closure_keeps [OF sv])
    have k5: "keeps (render_raw f (str_val f) g t)" by (rule render_raw_keeps [OF sv])
    have kM: "keeps M" unfolding M_def using k1 k2 k3 k4 k5 sv by (cases "kind t") simp_all
    have "render_token (Suc f) g i w = M w" unfolding M_def using Some by (cases "kind t") simp_all
    then show ?thesis using keepsD [OF kM wf] e by simp
  qed
qed

lemma render_gremlin_keeps_step:
  assumes "\<And>v. keeps (str_val f v)" and "\<And>g ixs pk ts. keeps (render_chain f g ixs pk ts)"
  shows "keeps (render_gremlin (Suc f) g)"
proof (rule keepsI)
  fix w r w'
  assume wf: "wf_world w" and e: "render_gremlin (Suc f) g w = (r, w')"
  show "grows w w'"
  proof (cases "heap w g")
    case None
    then show ?thesis using e wf by (simp add: grows_refl)
  next
    case (Some G)
    obtain r1 w1 where a: "str_val f (top_value G) w = (r1, w1)" by fastforce
    have g1: "grows w w1" using keepsD [OF assms(1) wf a] .
    show ?thesis
    proof (cases r1)
      case (Inl x)
      then show ?thesis using e Some a g1 by simp
    next
      case (Inr s0)
      obtain r2 w2 where b: "render_chain f g [0..<length (chain G)] GraphVariable [s0] w1 = (r2, w2)"
        by fastforce
      have g2: "grows w w2" using keepsD [OF assms(2) grows_wf [OF g1] b] g1 grows_trans by blast
      have tail: "grows w2 w'" if "(case heap w2 g of None \<Rightarrow> (Inl AttributeError, w2)
                     | Some G2 \<Rightarrow> (if return_var G2 = VNone then (Inr (concat ts), w2)
                          else (case str_val f (return_var G2) w2 of
                                  (Inl e, w3) \<Rightarrow> (Inl e, w3)
                                | (Inr rv, w3) \<Rightarrow> (Inr (rv @ '' = '' @ concat ts), w3)))) = (r, w')" for ts
        using that grows_wf [OF g2] keepsD [OF assms(1)]
        by (auto simp: grows_refl split: option.splits if_splits prod.splits sum.splits)
      show ?thesis
      proof (cases r2)
        case (Inl x)
        then show ?thesis using e Some a Inr b g2 by simp
      next
        case (Inr ts)
        then show ?thesis using e Some a \<open>r1 = Inr s0\<close> b tail [of ts] g2 grows_trans by simp
      qed
    qed
  qed
qed

lemma render_keeps:
  "(\<forall>v. keeps (str_val f v)) \<and> (\<forall>p. keeps (pred_str f p)) \<and> (\<forall>g. keeps (render_gremlin f g)) \<and>
   (\<forall>g ixs pk ts. keeps (render_chain f g ixs pk ts)) \<and> (\<forall>g i. keeps (render_token f g i))"
proof (induction f)
  case 0
  have "keeps (render_chain 0 g ixs pk ts)" for g ixs pk ts
    by (cases ixs) (simp_all add: keeps_def grows_refl)
  moreover have "keeps (pred_str 0 p)" "keeps (render_gremlin 0 g)" "keeps (render_token 0 g i)" for p g i
    by (simp_all add: keeps_def grows_refl)
  ultimately show ?case by (simp add: str_val_keeps_0 keeps_raise)
next
  case (Suc f)
  have sv: "\<And>v. keeps (str_val f v)" and ps: "\<And>p. keeps (pred_str f p)"
    and rg: "\<And>g. keeps (render_gremlin f g)" and rc: "\<And>g ixs pk ts. keeps (render_chain f g ixs pk ts)"
    and rt: "\<And>g i. keeps (render_token f g i)"
    using Suc.IH by simp_all
  have A: "keeps (str_val (Suc f) v)" for v by (rule str_val_keeps_step [OF rg ps])
  have B: "keeps (pred_str (Suc f) p)" for p by (rule pred_str_keeps_step [OF sv])
  have C: "keeps (render_gremlin (Suc f) g)" for g by (rule render_gremlin_keeps_step [OF sv rc])
  have D: "keeps (render_chain (Suc f) g ixs pk ts)" for g ixs pk ts by (rule render_chain_keeps_step [OF rt])
  have E: "keeps (render_token (Suc f) g i)" for g i by (rule render_token_keeps_step [OF sv])
  show ?case by (intro conjI allI A B C D E)
qed

lemma keeps_str_val [intro]: "keeps (str_val f v)"
  using render_keeps by blast

lemma keeps_render_token [intro]: "keeps (render_token f g i)"
  using render_keeps by blast

lemma keeps_render_gremlin [intro]: "keeps (render_gremlin f g)"
  using render_keeps by blast

section \<open>The fluent surface\<close>

lemma keeps_with_gremlin [intro]: "(\<And>G. keeps (k G)) \<Longrightarrow> keeps (with_gremlin g k)"
  by (auto simp: keeps_def with_gremlin_def grows_refl split: option.splits)

lemma keeps_inspect_heap:
  "(\<And>G. heap w g = Some G \<Longrightarrow> builder_ok G \<Longrightarrow> wf_world w \<Longrightarrow> grows w (h G w)) \<Longrightarrow>
   wf_world w \<Longrightarrow> with_gremlin g (\<lambda>G w. (r G, h G w)) w = (r', w') \<Longrightarrow> grows w w'"
  by (auto simp: with_gremlin_def grows_refl dest: wf_heapD split: option.splits)

lemma keeps_gremlin_new [intro]: "keeps (gremlin_new f gvv)"
  using fix_value_grows(3) by (auto simp: gremlin_new_def intro: keepsI)

lemma keeps_token_init [intro]: "keeps (token_init f g k v args)"
  using token_init_grows by (blast intro: keepsI)

lemma keeps_append_new [intro]: "keeps (append_new f g k v args)"
proof (rule keepsI)
  fix w r w'
  assume wf: "wf_world w" and e: "append_new f g k v args w = (r, w')"
  obtain r1 w1 where a: "token_init f g k v args w = (r1, w1)" by fastforce
  have g1: "grows w w1" using token_init_grows [OF wf a] .
  show "grows w w'"
  proof (cases r1)
    case (Inl x)
    then show ?thesis using e a g1 by (simp add: append_new_def)
  next
    case (Inr t)
    then have "w' = add_token g t w1" using e a by (simp add: append_new_def)
    moreover have "tok_ok t" using token_init_ok a Inr by blast
    ultimately show ?thesis using add_token_grows [OF grows_wf [OF g1]] g1 grows_trans by blast
  qed
qed

lemma grows_draws [simp]: "grows w (w'\<lparr>draws := d\<rparr>) \<longleftrightarrow> grows w w'"
  by (simp add: grows_def wf_world_def)

lemma keeps_modify:
  assumes "\<And>G. builder_ok G \<Longrightarrow> builder_ok (h G)"
  shows "keeps (with_gremlin g (\<lambda>G w. (Inr g, set_gremlin g (h G) w)))"
proof (rule keepsI)
  fix w r w'
  assume wf: "wf_world w" and e: "with_gremlin g (\<lambda>G w. (Inr g, set_gremlin g (h G) w)) w = (r, w')"
  show "grows w w'"
  proof (cases "heap w g")
    case None
    then show ?thesis using e wf by (simp add: with_gremlin_def grows_refl)
  next
    case (Some G)
    then have "w' = set_gremlin g (h G) w" using e by (simp add: with_gremlin_def)
    then show ?thesis using wf_set_gremlin [OF wf] Some assms [OF wf_heapD [OF wf Some]] by simp
  qed
qed

lemma keeps_reset [intro]: "keeps (reset g)"
proof (rule keepsI)
  fix w r w'
  assume wf: "wf_world w" and e: "reset g w = (r, w')"
  show "grows w w'"
  proof (cases "heap w g")
    case None
    then show ?thesis using e wf by (simp add: reset_def with_gremlin_def grows_refl)
  next
    case (Some G)
    then have "w' = (set_gremlin g (fresh_gremlin (gv G) (uuids w (draws w))) w)\<lparr>draws := Suc (draws w)\<rparr>"
      using e by (simp add: reset_def with_gremlin_def)
    then show ?thesis using wf_set_gremlin [OF wf] Some builder_ok_fresh by simp
  qed
qed

lemma keeps_set_ret_variable [intro]: "keeps (set_ret_variable g v)"
  unfolding set_ret_variable_def by (rule keeps_modify) (simp add: builder_ok_def)

lemma keeps_set_graph_variable [intro]: "keeps (set_graph_variable g v)"
  unfolding set_graph_variable_def by (rule keeps_modify) (simp add: builder_ok_def)

lemma builder_ok_replace_last:
  "builder_ok G \<Longrightarrow> tok_ok t \<Longrightarrow>
   builder_ok (G\<lparr>chain := (if chain G = [] then [t] else butlast (chain G) @ [t])\<rparr>)"
  by (auto simp: builder_ok_def list_all_iff dest: in_set_butlastD)

lemma keeps_call [intro]: "keeps (call f g args)"
proof (rule keepsI)
  fix w r w'
  assume wf: "wf_world w" and e: "call f g args w = (r, w')"
  show "grows w w'"
  proof (cases "heap w g")
    case None
    then show ?thesis using e wf by (simp add: call_def with_gremlin_def grows_refl)
  next
    case (Some G)
    define m where "m = (if chain G = [] then str_val f (top_value G) else render_token f g (length (chain G) - 1))"
    have km: "keeps m" unfolding m_def by auto
    have e1: "(case m w of (Inl e, w1) \<Rightarrow> (Inl e, w1)
      | (Inr name, w1) \<Rightarrow>
          (case token_init f g Function (VStr name) args w1 of
             (Inl e, w2) \<Rightarrow> (Inl e, w2)
           | (Inr t, w2) \<Rightarrow>
               with_gremlin g (\<lambda>G2 w2'.
                 (Inr g, set_gremlin g (G2\<lparr>chain := (if chain G2 = [] then [t] else butlast (chain G2) @ [t])\<rparr>) w2'))
                 w2)) = (r, w')"
      using e Some by (cases "chain G = []") (simp_all add: call_def with_gremlin_def m_def)
    obtain r1 w1 where a: "m w = (r1, w1)" by fastforce
    have g1: "grows w w1" using keepsD [OF km wf a] .
    show ?thesis
    proof (cases r1)
      case (Inl x)
      then show ?thesis using e1 a g1 by simp
    next
      case (Inr name)
      obtain r2 w2 where b: "token_init f g Function (VStr name) args w1 = (r2, w2)" by fastforce
      have g2: "grows w w2" using token_init_grows [OF grows_wf [OF g1] b] g1 grows_trans by blast
      show ?thesis
      proof (cases r2)
        case (Inl x)
        then show ?thesis using e1 a Inr b g2 by simp
      next
        case (Inr t)
        have tk: "tok_ok t" using token_init_ok b Inr by blast
        have "with_gremlin g (\<lambda>G2 w2'. (Inr g, set_gremlin g (G2\<lparr>chain := (if chain G2 = [] then [t] else butlast (chain G2) @ [t])\<rparr>) w2')) w2 = (r, w')"
          using e1 a \<open>r1 = Inr name\<close> b Inr by simp
        moreover have "keeps (with_gremlin g (\<lambda>G2 w2'. (Inr g, set_gremlin g (G2\<lparr>chain := (if chain G2 = [] then [t] else butlast (chain G2) @ [t])\<rparr>) w2')))"
          by (rule keeps_modify) (rule builder_ok_replace_last [OF _ tk])
        ultimately have "grows w2 w'" using grows_wf [OF g2] by (rule keepsD [rotated 2])
        then show ?thesis by (rule grows_trans [OF g2])
      qed
    qed
  qed
qed

lemma keeps_if [intro]: "keeps a \<Longrightarrow> keeps b \<Longrightarrow> keeps (if c then a else b)"
  by simp

lemma keeps_list_case [intro]:
  "keeps n \<Longrightarrow> (\<And>x xs. keeps (c x xs)) \<Longrightarrow> keeps (case l of [] \<Rightarrow> n | x # xs \<Rightarrow> c x xs)"
  by (cases l) simp_all

lemma keeps_append_ops [intro]:
  "keeps (get_attr f g a)" "keeps (get_item f g v)" "keeps (func f g v args)" "keeps (unbound f g v args)"
  "keeps (func_raw f g v args)" "keeps (func_raw_unbound f g v args)" "keeps (range_tok f g x y)"
  "keeps (close f g v args)" "keeps (raw f g v)"
  by (simp_all add: get_attr_def get_item_def func_def unbound_def func_raw_def func_raw_unbound_def
      range_tok_def close_def raw_def keeps_append_new)

lemma keeps_bind_param [intro]: "keeps (bind_param f g v nm)"
  by (rule keepsI) (rule bind_param_grows)

lemma keeps_fluent_call [intro]: "keeps (fluent_call f g name args)"
  unfolding fluent_call_def
  by (intro keeps_if keeps_list_case keeps_bindE keeps_throw keeps_append_ops keeps_call
      keeps_reset keeps_set_ret_variable keeps_set_graph_variable)

lemma keeps_bind_params [intro]: "keeps (bind_params f g vs)"
  by (rule keepsI) (rule bind_params_grows)

lemma reparent_grows:
  assumes wf: "wf_world w" and h: "heap w c = Some C"
    and e: "bind_params f c ks (set_gremlin c (C\<lparr>parent := q\<rparr>) w) = (r, w')"
  shows "grows w w'"
proof -
  have ok: "builder_ok (C\<lparr>parent := q\<rparr>)" using wf_heapD [OF wf h] by (simp add: builder_ok_def)
  have g1: "grows w (set_gremlin c (C\<lparr>parent := q\<rparr>) w)" using wf_set_gremlin [OF wf _ ok] h by simp
  then show ?thesis using bind_params_grows [OF grows_wf [OF g1] e] grows_trans by blast
qed

lemma keeps_call_value [intro]: "keeps (call_value f v args)"
  by (cases v) (simp_all add: call_value_def keeps_bindE keeps_call keeps_ok keeps_throw)

lemma keeps_data_call [intro]: "keeps (data_call f g name args)"
  unfolding data_call_def
proof (intro keeps_with_gremlin keeps_if)
  fix G
  show "keeps (case parent G of None \<Rightarrow> throw TypeError | Some (PGremlin p) \<Rightarrow> call_value f (VGremlin p) args
        | Some PPredicate \<Rightarrow> ok (RVal VNone))"
    by (simp add: keeps_throw keeps_call_value keeps_ok split: option.split parent_ref.split)
qed (simp_all add: keeps_call_value keeps_throw)

lemma keeps_reinit [intro]: "keeps (reinit f g v)"
proof (rule keepsI)
  fix w r w'
  assume wf: "wf_world w" and e: "reinit f g v w = (r, w')"
  show "grows w w'"
  proof (cases "heap w g")
    case None
    then show ?thesis using e wf by (simp add: reinit_def with_gremlin_def grows_refl)
  next
    case (Some G)
    let ?w1 = "set_gremlin g (G\<lparr>gv := v\<rparr>) w"
    have g1: "grows w ?w1" using wf_set_gremlin [OF wf] Some wf_heapD [OF wf Some] by (simp add: builder_ok_def)
    obtain r2 w2 where fv: "fix_value f (OTok g v) False v ?w1 = (r2, w2)" by fastforce
    have g2: "grows w w2" using fix_value_grows(1) [OF grows_wf [OF g1] fv] g1 grows_trans by blast
    have "g < next_id w" using wf Some unfolding wf_world_def by (metis not_le option.simps(3))
    then have lt: "g < next_id w2" using g2 by (simp add: grows_def)
    show ?thesis
    proof (cases r2)
      case (Inl e')
      then show ?thesis using e Some fv g2 by (simp add: reinit_def with_gremlin_def)
    next
      case (Inr x)
      then have "w' = w2\<lparr>heap := (heap w2)(g \<mapsto> fresh_gremlin v (uuids w2 (draws w2))), draws := Suc (draws w2)\<rparr>"
        using e Some fv by (simp add: reinit_def with_gremlin_def)
      then show ?thesis using g2 lt builder_ok_fresh by (auto simp: grows_def wf_world_def)
    qed
  qed
qed

lemma keeps_set_parent_value [intro]: "keeps (set_parent_value f g v)"
proof (cases v)
  case VNone
  have "keeps (with_gremlin g (\<lambda>G w.
          case bind_params f g (map (VStr \<circ> fst) (bound_params G)) (set_gremlin g (G\<lparr>parent := None\<rparr>) w) of
            (Inl e, w') \<Rightarrow> (Inl e, w') | (Inr d, w') \<Rightarrow> (Inr (RDict d), w')))"
  proof (rule keepsI)
    fix w r w'
    assume wf: "wf_world w" and e: "with_gremlin g (\<lambda>G w.
          case bind_params f g (map (VStr \<circ> fst) (bound_params G)) (set_gremlin g (G\<lparr>parent := None\<rparr>) w) of
            (Inl e, w') \<Rightarrow> (Inl e, w') | (Inr d, w') \<Rightarrow> (Inr (RDict d), w')) w = (r, w')"
    show "grows w w'"
    proof (cases "heap w g")
      case None
      then show ?thesis using e wf by (simp add: with_gremlin_def grows_refl)
    next
      case (Some G)
      obtain r1 w1 where b: "bind_params f g (map (VStr \<circ> fst) (bound_params G)) (set_gremlin g (G\<lparr>parent := None\<rparr>) w) = (r1, w1)"
        by fastforce
      have "w' = w1" using e Some b by (cases r1) (simp_all add: with_gremlin_def)
      then show ?thesis using reparent_grows [OF wf Some b] by simp
    qed
  qed
  then show ?thesis using VNone by (simp add: set_parent_value_def)
qed (simp_all add: set_parent_value_def keeps_bindE keeps_set_parent keeps_ok keeps_throw)

lemma keeps_bind_params_value [intro]: "keeps (bind_params_value f g args)"
  unfolding bind_params_value_def Let_def
  by (simp add: keeps_bindE keeps_bind_params keeps_ok keeps_throw split: list.split pyval.split)

lemma keeps_member_call [intro]: "keeps (member_call f g name args)"
  unfolding member_call_def Let_def
  by (simp add: keeps_bindE keeps_bind_param keeps_ok keeps_throw keeps_with_gremlin keeps_call
      keeps_append_ops keeps_set_parent_value keeps_bind_params_value split: list.split pyval.split)

lemma keeps_dunder_call [intro]: "keeps (dunder_call f g name args)"
  unfolding dunder_call_def
  by (simp add: keeps_bindE keeps_render_gremlin keeps_ok keeps_throw keeps_call keeps_append_ops
      keeps_append_new keeps_reinit split: list.split)

lemma keeps_attr_call [intro]: "keeps (attr_call f g name args)"
  unfolding attr_call_def
  by (intro keeps_if keeps_data_call keeps_member_call keeps_dunder_call keeps_bindE keeps_fluent_call keeps_ok)

lemma keeps_render [intro]: "keeps (render f g)"
proof (rule keepsI)
  fix w r w'
  assume wf: "wf_world w" and e: "render f g w = (r, w')"
  obtain r1 w1 where a: "render_gremlin f g w = (r1, w1)" by fastforce
  have g1: "grows w w1" using keepsD [OF keeps_render_gremlin wf a] .
  then show "grows w w'" using e a
    by (auto simp: render_def with_gremlin_def split: sum.splits option.splits)
qed

lemma keeps_pred_init [intro]: "keeps (pred_init f cls fn args)"
proof (rule keepsI)
  fix w r w'
  assume wf: "wf_world w" and e: "pred_init f cls fn args w = (r, w')"
  obtain r1 w1 where a: "fix_list f (OPred (VPred (Pred cls fn []))) False args w = (r1, w1)" by fastforce
  have "grows w w1" using fix_value_grows(2) [OF wf a] .
  then show "grows w w'" using e a by (auto simp: pred_init_def split: sum.splits)
qed

lemma keeps_p_pred [intro]: "keeps (p_pred f name args)"
proof (rule keepsI)
  fix w r w'
  assume wf: "wf_world w" and e: "p_pred f name args w = (r, w')"
  obtain r1 w1 where a: "pred_init f ''Predicate'' None args w = (r1, w1)" by fastforce
  have "grows w w1" using keepsD [OF keeps_pred_init wf a] .
  moreover have "w' = w1" using e a
    by (auto simp: p_pred_def split: sum.splits pyval.splits pred.splits)
  ultimately show "grows w w'" by simp
qed

section \<open>Client programs\<close>

lemma keeps_forE [intro]: "(\<And>x. keeps (f x)) \<Longrightarrow> keeps (forE f xs)"
  by (induction xs) auto

lemma keeps_frag_apply [intro]: "keeps (frag_apply f g fr)"
  by (cases fr) auto

lemma keeps_stmt_build [intro]: "keeps (stmt_build f s)"
  by (auto simp: stmt_build_def split: option.split)

lemma keeps_gremlin_apply_statement [intro]: "keeps (gremlin_apply_statement f g s)"
  by (auto simp: gremlin_apply_statement_def)

lemma keeps_tok_apply_statement [intro]: "keeps (tok_apply_statement f g s)"
  by (auto simp: tok_apply_statement_def gremlin_default_def split: option.split)

lemma keeps_snd: "keeps m \<Longrightarrow> wf_world w \<Longrightarrow> grows w (snd (m w))"
  by (cases "m w") (auto dest: keepsD)

lemma op_run_grows: "wf_world w \<Longrightarrow> grows w (op_run f op w)"
  by (cases op) (auto simp: named_pred_def intro!: keeps_snd)

lemma wf_empty_world: "wf_world (empty_world u)"
  by (simp add: wf_world_def empty_world_def)

lemma reachable_wf: "reachable w \<Longrightarrow> wf_world w"
  by (induction rule: reachable.induct) (auto simp: wf_empty_world dest: op_run_grows grows_wf)

text \<open>C21. Every call of the surface, at any fuel, on success or on an exception, takes a
  well-formed world to a well-formed one and never frees an address.\<close>

theorem op_run_preserves_wf:
  "wf_world w \<Longrightarrow> wf_world (op_run f op w) \<and> next_id w \<le> next_id (op_run f op w)"
  using op_run_grows [of w f op] by (simp add: grows_def)

text \<open>C22. In every reachable world, a builder's dictionary has at most
  \<open>bound_count\<close> entries: the counter that numbers generated names is never behind it.\<close>

theorem reachable_bound_count:
  "reachable w \<Longrightarrow> heap w g = Some G \<Longrightarrow> length (bound_params G) \<le> bound_count G"
  using reachable_wf wf_heapD by (fastforce simp: builder_ok_def)

lemma one_builder_reachable: "reachable one_builder_world"
  unfolding one_builder_world_def by (intro reachable.intros)

lemma one_builder_heap: "heap one_builder_world 0 = Some (fresh_gremlin (VStr ''g'') ''aaaaa'')" "next_id one_builder_world = 1"
  by (simp_all add: one_builder_world_def gremlin_new_def numeral_2_eq_2 new_gremlin_str empty_world_def del: new_gremlin.simps)

section \<open>Witnesses\<close>

theorem op_run_preserves_wf_witness:
  "wf_world (empty_world (\<lambda>_. ''aaaaa'')) \<and> wf_world one_builder_world \<and>
   next_id (empty_world (\<lambda>_. ''aaaaa'')) \<le> next_id one_builder_world"
  using op_run_preserves_wf [of "empty_world (\<lambda>_. ''aaaaa'')" 2 "OpNew (VStr ''g'')"] wf_empty_world
  by (simp add: one_builder_world_def)

theorem reachable_bound_count_witness:
  "reachable one_builder_world \<and> length (bound_params (fresh_gremlin (VStr ''g'') ''aaaaa'')) \<le> bound_count (fresh_gremlin (VStr ''g'') ''aaaaa'')"
  using reachable_bound_count [OF one_builder_reachable one_builder_heap(1)] one_builder_reachable by simp

end
