(* ===== verification/TestSuite.thy ===== *)
theory TestSuite
  imports Scenarios Statement
begin

text \<open>
  The remaining tests of \<open>src/gremlinpy/tests/gremlin.py\<close>, run on the model from an
  arbitrary world with the default graph variable of \<open>Gremlin()\<close> (theory
  \<open>Statement\<close>) and Python's recursion limit, and a use of a statement. Together with
  theory \<open>Scenarios\<close> every test of the module is modelled. Each lemma states the text
  and the dictionary that \<open>str(g)\<close> and \<open>g.bound_params\<close> give, or the exception; where
  the test expects something else, the text says so. \<open>P1\<close>, \<open>P2\<close>, ... stand for the
  names generated from the builder's seed.

  The test with a random number of attributes is proved for every number.
\<close>

section \<open>The tests\<close>

definition t_instance :: "(pyerr, world, nat) exc" where
  "t_instance = gremlin_default limit"

definition t_set_gv :: "pyval \<Rightarrow> (pyerr, world, string \<times> (string \<times> pyval) list) exc" where
  "t_set_gv v = bindE (gremlin_default limit) (\<lambda>g.
     bindE (set_graph_variable g v) (render limit))"

definition t_attrs :: "string list \<Rightarrow> (pyerr, world, string \<times> (string \<times> pyval) list) exc" where
  "t_attrs as = bindE (gremlin_default limit) (\<lambda>g.
     bindE (forE (get_attr limit g) as) (\<lambda>_. render limit g))"

definition t_attr_drop_gv :: "(pyerr, world, string \<times> (string \<times> pyval) list) exc" where
  "t_attr_drop_gv = bindE (gremlin_default limit) (\<lambda>g.
     bindE (get_attr limit g ''a'') (\<lambda>g.
     bindE (set_graph_variable g (VStr '''')) (render limit)))"

definition t_random_attrs :: "nat \<Rightarrow> (pyerr, world, string \<times> (string \<times> pyval) list) exc" where
  "t_random_attrs n = bindE (gremlin_default limit) (\<lambda>g.
     bindE (forE (\<lambda>x. get_attr limit g (nat_str x)) [1..<n]) (\<lambda>_. render limit g))"

definition t_random_attrs_drop_gv :: "nat \<Rightarrow> (pyerr, world, string \<times> (string \<times> pyval) list) exc" where
  "t_random_attrs_drop_gv n = bindE (gremlin_default limit) (\<lambda>g.
     bindE (set_graph_variable g (VStr '''')) (\<lambda>g.
     bindE (forE (\<lambda>x. get_attr limit g (nat_str x)) [1..<n]) (\<lambda>_. render limit g)))"

definition t_function :: "pyval list \<Rightarrow> (pyerr, world, string \<times> (string \<times> pyval) list) exc" where
  "t_function args = bindE (gremlin_default limit) (\<lambda>g.
     bindE (fluent_call limit g ''function'' args) (render limit))"

definition t_manual_bind_one :: "(pyerr, world, (string \<times> pyval) \<times> string \<times> (string \<times> pyval) list) exc" where
  "t_manual_bind_one = bindE (gremlin_default limit) (\<lambda>g.
     bindE (bind_param limit g (VStr ''arg'') None) (\<lambda>b.
     bindE (fluent_call limit g ''function'' [VStr (fst b)]) (\<lambda>_.
     bindE (render limit g) (\<lambda>r. ok (b, r)))))"

definition t_manual_bind_two :: "(pyerr, world, string \<times> (string \<times> pyval) list) exc" where
  "t_manual_bind_two = bindE (gremlin_default limit) (\<lambda>g.
     bindE (bind_param limit g (VStr ''arg'') None) (\<lambda>b.
     bindE (bind_param limit g (VStr ''arg2'') None) (\<lambda>b2.
     bindE (fluent_call limit g ''function'' [VStr (fst b), VStr (fst b2)]) (\<lambda>_. render limit g))))"

definition t_arg_before_attr :: "(pyerr, world, string \<times> (string \<times> pyval) list) exc" where
  "t_arg_before_attr = bindE (gremlin_default limit) (\<lambda>g.
     bindE (fluent_call limit g ''function'' [VStr ''val'']) (\<lambda>g'.
     bindE (get_attr limit g' ''a'') (\<lambda>_. render limit g)))"

definition t_arg_after_attr :: "(pyerr, world, string \<times> (string \<times> pyval) list) exc" where
  "t_arg_after_attr = bindE (gremlin_default limit) (\<lambda>g.
     bindE (get_attr limit g ''a'') (\<lambda>g'.
     bindE (fluent_call limit g' ''function'' [VStr ''val'']) (\<lambda>_. render limit g)))"

definition t_unbound :: "(pyerr, world, string \<times> (string \<times> pyval) list) exc" where
  "t_unbound = bindE (gremlin_default limit) (\<lambda>g.
     bindE (fluent_call limit g ''unbound'' [VStr ''func'', VStr ''val1'', VStr ''val2'']) (\<lambda>_. render limit g))"

definition t_unbound_then_bound :: "(pyerr, world, string \<times> (string \<times> pyval) list) exc" where
  "t_unbound_then_bound = bindE (gremlin_default limit) (\<lambda>g.
     bindE (fluent_call limit g ''unbound'' [VStr ''func'', VStr ''val1'', VStr ''val2'']) (\<lambda>g'.
     bindE (fluent_call limit g' ''isbound'' [VStr ''hello'']) (\<lambda>_. render limit g)))"

definition t_index_range :: "(pyerr, world, nat) exc" where
  "t_index_range = bindE (gremlin_default limit) (\<lambda>g.
     bindE (fluent_call limit g ''func'' []) (\<lambda>g. get_item limit g (VSlice (VInt 1) (VInt 2) VNone)))"

definition t_index_after_closure :: "(pyerr, world, string \<times> (string \<times> pyval) list) exc" where
  "t_index_after_closure = bindE (gremlin_default limit) (\<lambda>g.
     bindE (fluent_call limit g ''condition'' [VStr ''x'']) (\<lambda>g.
     bindE (fluent_call limit g ''close'' [VStr ''body'']) (\<lambda>g.
     bindE (get_item limit g (VSlice (VInt 12) (VInt 44) VNone)) (\<lambda>_. render limit g))))"

text \<open>A statement whose fragment is \<open>.V().out('knows')\<close>, applied to \<open>Gremlin()\<close>.\<close>

definition knows_stmt :: statement where
  "knows_stmt = \<lparr>st_gremlin = None, st_frags = [FAttr ''V'', FCall [], FAttr ''out'', FCall [VStr ''knows'']]\<rparr>"

definition t_statement :: "(pyerr, world, string \<times> (string \<times> pyval) list) exc" where
  "t_statement = bindE (gremlin_default limit) (\<lambda>g.
     bindE (gremlin_apply_statement limit g knows_stmt) (render limit))"

section \<open>Lemmas\<close>

lemmas suite_simps = scenario_simps gremlin_default_def GRAPH_VARIABLE_def unbound_def

lemma limit_Suc: "limit = Suc (Suc 998)"
  by (simp add: limit_def)

lemma int_str_two_digits [simp]: "int_str 12 = ''12''" "int_str 44 = ''44''"
  by code_simp+

text \<open>Attribute reads on a builder with an empty chain, then its rendering: the names
  joined by dots after the graph variable.\<close>

lemma attrs_then_render:
  assumes h: "heap w g = Some G" and "chain G = []" and "return_var G = VNone" and "top_value G = VStr t"
  shows "bindE (forE (\<lambda>x. get_attr limit g (h x)) xs) (\<lambda>_. render limit g) w =
     (Inr (join_sep ''.'' (if t = [] then map h xs else t # map h xs), bound_params G),
      set_gremlin g (G\<lparr>chain := map (\<lambda>x. attr_token (h x)) xs\<rparr>) w)"
proof -
  let ?G2 = "G\<lparr>chain := map (\<lambda>x. attr_token (h x)) xs\<rparr>"
  let ?w2 = "set_gremlin g ?G2 w"
  have fe: "forE (\<lambda>x. get_attr limit g (h x)) xs w = (Inr (), ?w2)"
    using forE_get_attr_appends [OF h, of 999 h xs] assms(2) by (simp add: limit_def)
  have h2: "heap ?w2 g = Some ?G2" by (simp add: set_gremlin_def)
  have rg: "render_gremlin limit g ?w2 =
      (Inr (join_chain ((GraphVariable, t) # map (\<lambda>b. (Attribute, b)) (map h xs))), ?w2)"
    using render_gremlin_plain [OF h2, of 997] assms(3,4) by (simp add: limit_def comp_def)
  show ?thesis
    using fe rg h2 join_chain_attrs [of t "map h xs"] by (simp add: bindE_def render_def with_gremlin_def)
qed

lemma gremlin_default_world:
  "gremlin_default limit w = (Inr (next_id w), w\<lparr>next_id := Suc (next_id w),
     heap := (heap w)(next_id w \<mapsto> fresh_gremlin (VStr ''g'') (uuids w (draws w))), draws := Suc (draws w)\<rparr>)"
  by (simp only: gremlin_default_def gremlin_new_def GRAPH_VARIABLE_def limit_Suc new_gremlin_str)

lemma default_then_attrs:
  "\<exists>w'. bindE (gremlin_default limit) (\<lambda>g. bindE (forE (\<lambda>x. get_attr limit g (h x)) xs) (\<lambda>_. render limit g)) w =
     (Inr (join_sep ''.'' (''g'' # map h xs), []), w')"
  using attrs_then_render [of _ "next_id w" "fresh_gremlin (VStr ''g'') (uuids w (draws w))" "''g''" h xs]
  by (simp add: bindE_def gremlin_default_world fresh_gremlin_def)

lemma test_gremlin_instance:
  "\<exists>w'. t_instance w = (Inr (next_id w), w') \<and> heap w' (next_id w) = Some (fresh_gremlin (VStr ''g'') (uuids w (draws w)))"
  by (simp add: t_instance_def gremlin_default_world)

lemma test_can_drop_graph_variable: "\<exists>w'. t_set_gv (VStr '''') w = (Inr ('''', []), w')"
  by (simp add: t_set_gv_def suite_simps)

lemma test_can_change_graph_variable: "\<exists>w'. t_set_gv (VStr ''x'') w = (Inr (''x'', []), w')"
  by (simp add: t_set_gv_def suite_simps)

lemma test_can_add_one_attribute: "\<exists>w'. t_attrs [''a''] w = (Inr (''g.a'', []), w')"
  using default_then_attrs [of id "[''a'']" w] by (simp add: t_attrs_def)

lemma test_can_add_two_attributes: "\<exists>w'. t_attrs [''a'', ''b''] w = (Inr (''g.a.b'', []), w')"
  using default_then_attrs [of id "[''a'', ''b'']" w] by (simp add: t_attrs_def)

lemma test_one_attribute_drop_graph_variable: "\<exists>w'. t_attr_drop_gv w = (Inr (''a'', []), w')"
  by (simp add: t_attr_drop_gv_def suite_simps)

text \<open>C23. The test that reads the attributes \<open>1\<close>, ..., \<open>n - 1\<close> for a random \<open>n\<close>
  passes for every \<open>n\<close>: the text is \<open>g.1.2...\<close> and nothing is bound.\<close>

theorem test_random_attributes:
  "\<exists>w'. t_random_attrs n w = (Inr (join_sep ''.'' (''g'' # map nat_str [1..<n]), []), w')"
  using default_then_attrs [of nat_str "[1..<n]" w] by (simp add: t_random_attrs_def)

lemma test_random_attributes_drop_graph_variable:
  "\<exists>w'. t_random_attrs_drop_gv n w = (Inr (join_sep ''.'' (map nat_str [1..<n]), []), w')"
  using attrs_then_render [of _ "next_id w" "(fresh_gremlin (VStr ''g'') (uuids w (draws w)))\<lparr>top_value := VStr ''''\<rparr>"
      "''''" nat_str "[1..<n]"]
  by (simp add: t_random_attrs_drop_gv_def bindE_def gremlin_default_world fresh_gremlin_def
      set_graph_variable_def with_gremlin_def set_gremlin_def)

lemma test_function_no_args: "\<exists>w'. t_function [] w = (Inr (''g.function()'', []), w')"
  by (simp add: t_function_def suite_simps)

lemma test_function_one_arg:
  "\<exists>w'. t_function [VStr ''arg''] w =
     (Inr (''g.function('' @ gen_name (uuids w (draws w)) 1 @ '')'', [(gen_name (uuids w (draws w)) 1, VStr ''arg'')]), w')"
  by (simp add: t_function_def suite_simps)

text \<open>Three arguments: all three are bound, where the test expects \<open>g.function(one, two, P)\<close>
  and one entry.\<close>

lemma test_function_three_args:
  "\<exists>w'. t_function [VStr ''one'', VStr ''two'', VStr ''three''] w =
     (Inr (''g.function('' @ gen_name (uuids w (draws w)) 1 @ '', '' @ gen_name (uuids w (draws w)) 2 @ '', '' @
           gen_name (uuids w (draws w)) 3 @ '')'',
           [(gen_name (uuids w (draws w)) 1, VStr ''one''), (gen_name (uuids w (draws w)) 2, VStr ''two''),
            (gen_name (uuids w (draws w)) 3, VStr ''three'')]), w')"
  by (simp add: t_function_def suite_simps)

lemma test_manually_bind_one_arg:
  "\<exists>w'. t_manual_bind_one w =
     (Inr ((gen_name (uuids w (draws w)) 1, VStr ''arg''),
           ''g.function('' @ gen_name (uuids w (draws w)) 1 @ '')'', [(gen_name (uuids w (draws w)) 1, VStr ''arg'')]), w')"
  by (simp add: t_manual_bind_one_def suite_simps)

lemma test_manually_bind_two_args:
  "\<exists>w'. t_manual_bind_two w =
     (Inr (''g.function('' @ gen_name (uuids w (draws w)) 1 @ '', '' @ gen_name (uuids w (draws w)) 2 @ '')'',
           [(gen_name (uuids w (draws w)) 1, VStr ''arg''), (gen_name (uuids w (draws w)) 2, VStr ''arg2'')]), w')"
  by (simp add: t_manual_bind_two_def suite_simps)

lemma test_arg_before_attribute:
  "\<exists>w'. t_arg_before_attr w =
     (Inr (''g.function('' @ gen_name (uuids w (draws w)) 1 @ '').a'', [(gen_name (uuids w (draws w)) 1, VStr ''val'')]), w')"
  by (simp add: t_arg_before_attr_def suite_simps)

lemma test_arg_after_attribute:
  "\<exists>w'. t_arg_after_attr w =
     (Inr (''g.a.function('' @ gen_name (uuids w (draws w)) 1 @ '')'', [(gen_name (uuids w (draws w)) 1, VStr ''val'')]), w')"
  by (simp add: t_arg_after_attr_def suite_simps)

lemma test_no_params_bound: "\<exists>w'. t_unbound w = (Inr (''g.func(val1, val2)'', []), w')"
  by (simp add: t_unbound_def suite_simps)

lemma test_unbound_then_bound:
  "\<exists>w'. t_unbound_then_bound w =
     (Inr (''g.func(val1, val2).isbound('' @ gen_name (uuids w (draws w)) 1 @ '')'', [(gen_name (uuids w (draws w)) 1, VStr ''hello'')]), w')"
  by (simp add: t_unbound_then_bound_def suite_simps)

text \<open>As in the single-index test, \<open>g.func()\<close> is the method \<open>func\<close> without its
  function name: \<open>TypeError\<close>, so \<open>g.func()[1:2]\<close> never renders \<open>g.func()[1..2]\<close>.\<close>

lemma test_index_with_range: "\<exists>w'. t_index_range w = (Inl TypeError, w')"
  by (simp add: t_index_range_def suite_simps)

lemma test_index_after_closure:
  "\<exists>w'. t_index_after_closure w =
     (Inr (''g.condition('' @ gen_name (uuids w (draws w)) 1 @ ''){body}[12..44]'', [(gen_name (uuids w (draws w)) 1, VStr ''x'')]), w')"
  by (simp add: t_index_after_closure_def suite_simps)

lemma test_apply_statement:
  "\<exists>w'. t_statement w =
     (Inr (''g.V().out('' @ gen_name (uuids w (draws w)) 1 @ '')'', [(gen_name (uuids w (draws w)) 1, VStr ''knows'')]), w')"
  by (simp add: t_statement_def knows_stmt_def apply_statement_calls suite_simps)

end
