(* ===== verification/Spec2Isabelle.thy ===== *)
theory Spec2Isabelle
  imports Scenarios Chain Invariant TestSuite
begin

text \<open>
  \<^bold>\<open>A model of gremlinpy.\<close> \<open>src/gremlinpy/gremlin.py\<close> builds Gremlin query
  text with a fluent Python object: \<open>g.V(1).out('knows')\<close> appends tokens to a linked
  chain, literals passed as arguments are replaced by generated parameter names and
  collected in \<open>g.bound_params\<close>, builders and predicates nest inside each other, and
  \<open>str(g)\<close> renders the chain. This development models that module as functions on an
  explicit world and proves what the code guarantees and where it falls short.

  \<^bold>\<open>State.\<close> A world (theory \<open>Binder\<close>) is a heap of builder records indexed by
  address (\<open>Gremlin\<close>'s instance attributes: graph variable, chain of tokens, parent,
  dictionary \<open>bound_params\<close>, seed \<open>bound_param\<close>, counter \<open>bound_count\<close>, return
  variable), the next free address, and the stream of \<open>uuid4()\<close> values with the number
  drawn. Every operation is a world-passing computation that returns a value or a Python
  exception (theory \<open>Prelude\<close>: \<open>ok\<close>, \<open>throw\<close>, \<open>bindE\<close>); an exception keeps the
  mutations made before it, as in Python.

  \<^bold>\<open>Theories.\<close>
  \<^item> \<open>Prelude\<close>: the exception monad and association-list (dictionary) lemmas.
  \<^item> \<open>PyVal\<close>: Python 2 values, exceptions, \<open>str\<close>/\<open>repr\<close> of scalars, \<open>str.join\<close>.
  \<^item> \<open>Binder\<close>: \<open>bind_param\<close>, \<open>bind_params\<close>, \<open>set_parent_gremlin\<close> (lines
    148--178): generated names \<open>GPY_PARAM_<seed>_<n>\<close>, back-references, propagation of
    every binding to all ancestors.
  \<^item> \<open>Tokens\<close>: the token classes (lines 288--416) and the separator loop of
    \<open>LinkList.__unicode__\<close>, proved equal to a pairwise rule.
  \<^item> \<open>Chain\<close>: the pointer code of \<open>LinkList\<close> (\<open>add\<close>, \<open>remove\<close>,
    \<open>remove_token\<close>, the splice of \<open>__call__\<close>), refined to list operations through
    list segments.
  \<^item> \<open>Normalize\<close>: \<open>fix_value\<close>, \<open>Gremlin()\<close>, \<open>Token.__init__\<close>, \<open>Predicate\<close>
    construction and the named predicates.
  \<^item> \<open>Render\<close>: \<open>str()\<close> of builders, tokens and predicates as five mutually recursive
    world transformers (rendering mutates: it pops and pushes \<open>Function\<close> arguments and
    re-parents nested builders).
  \<^item> \<open>Builder\<close>: the fluent surface (\<open>__getattr__\<close>, \<open>__call__\<close>, \<open>__getitem__\<close>,
    \<open>func\<close>, \<open>close\<close>, \<open>raw\<close>, \<open>range\<close>, setters, \<open>reset\<close>) and \<open>g.name(*args)\<close>
    dispatch.
  \<^item> \<open>Statement\<close>: the two collaborators the module imports and the repository does
    not contain, from the specification: \<open>GRAPH_VARIABLE\<close> (\<open>''g''\<close>) and a
    \<open>Statement\<close> as a fragment of surface calls; on them \<open>Gremlin.apply_statement\<close> and
    \<open>_Tokenable.apply_statement\<close> as written.
  \<^item> \<open>Scenarios\<close> and \<open>TestSuite\<close>: every unit test of
    \<open>src/gremlinpy/tests/gremlin.py\<close>, and the scenarios of the specification, run on
    the model from an arbitrary world (lemmas giving the text and dictionary the code
    produces, which the findings compare with the tests' expectations); the test with a
    random number of attributes is proved for every number.
  \<^item> \<open>Invariant\<close>: the well-formedness invariant, its preservation by every operation,
    and the worlds reachable by client programs (an inductive relation over a datatype of
    calls).

  \<^bold>\<open>Results.\<close>
  \<^item> Binding (C1--C6): \<open>bind_param\<close> stores a fresh literal under the next generated
    name and propagates it to every ancestor, reuses a key passed back, returns on every
    finite ancestry with enough budget, raises \<open>RecursionError\<close> on a cycle, and the
    generated names of distinct seeds never collide.
  \<^item> Chain (C7--C9): the pointer code of \<open>__call__\<close>, \<open>add_token\<close> and
    \<open>remove_token\<close> refines the list operations on well-formed chains.
  \<^item> Rendering (C10--C16): the separator loop equals a pairwise rule, the graph variable
    and attribute reads render as written, no token built by \<open>Token.__init__\<close> holds a
    statement, a predicate whose first argument is a predicate cannot be built, a chain of
    static tokens renders to its plain text, and a predicate renders exactly when its
    arguments are plain.
  \<^item> Composition (C17--C20): \<open>set_parent_gremlin\<close> re-binds the nested dictionary
    into every new ancestor, \<open>bind_params\<close> appends literals under consecutive names,
    and \<open>reset\<close> followed by \<open>str()\<close> gives the bare graph variable and an empty
    dictionary.
  \<^item> Clients (C21--C23): every call of the surface, at any fuel and on every exception,
    keeps the world well formed; in every reachable world the counter is ahead of the
    dictionary; the random-attribute test passes for every count.

  \<^bold>\<open>Fuel.\<close> Recursion that Python bounds by its stack (ancestor walks, nested values,
  nested \<open>str()\<close>) takes a budget and raises \<open>RecursionError\<close> when it is spent; the
  scenarios use 1000, Python's default limit, which their nesting depth (below 10) never
  approaches; C4 gives the budget an ancestry needs (its length). Pointer walks that may
  cycle are \<open>partial_function (option)\<close>; \<open>remove_token\<close> is proved to return on
  well-formed chains (C9). The invariant theorems hold at every fuel.

  \<^bold>\<open>Not modelled.\<close> The internals of \<open>gremlinpy.statement\<close> beyond the interface
  the specification gives (a statement is its fragment of calls), the exception module
  (only which exception is raised), printing (\<open>Predicate.__call__\<close> only prints), the
  unicode/str distinction of Python 2, floats, and the \<open>LinkList.can_use\<close> default,
  which \<open>Gremlin\<close> overrides and nothing else reaches. \<open>Predicate.__getattr__\<close> is
  modelled where the code reaches it (a predicate's \<open>_function\<close> and \<open>gremlin\<close>).
  Calls whose result depends on what the model does not represent (the methods of a
  statement object, a token passed as an argument value) end in the outcome
  \<open>OutsideModel\<close>, which is not a Python exception.
\<close>

section \<open>Concrete worlds for the witnesses\<close>

definition demo_root :: gremlin where
  "demo_root = \<lparr>gv = VStr ''g'', top_value = VStr ''g'', chain = [], parent = None,
     bound_params = [], bound_param = ''aaaaa'', bound_count = 0, return_var = VNone\<rparr>"

definition demo_child :: gremlin where
  "demo_child = demo_root\<lparr>parent := Some (PGremlin 0), bound_param := ''bbbbb''\<rparr>"

definition demo_world :: world where
  "demo_world = \<lparr>heap = Map.empty(0 \<mapsto> demo_root, 1 \<mapsto> demo_child), next_id = 2,
     uuids = (\<lambda>_. ''ccccc''), draws = 2\<rparr>"

definition loop_world :: world where
  "loop_world = demo_world\<lparr>heap := Map.empty(0 \<mapsto> demo_root\<lparr>parent := Some (PGremlin 0)\<rparr>)\<rparr>"

definition bound_world :: world where
  "bound_world = demo_world\<lparr>heap := Map.empty(0 \<mapsto>
     demo_root\<lparr>bound_params := [(''GPY_PARAM_aaaaa_1'', VStr ''arg'')], bound_count := 1\<rparr>)\<rparr>"

definition demo_chain :: lls where
  "demo_chain = \<lparr>nxt = Map.empty(0 \<mapsto> 1), top = 0, bottom = 1\<rparr>"

definition seed_world :: world where
  "seed_world = \<lparr>heap = Map.empty, next_id = 0,
     uuids = (\<lambda>n. if n = 0 then ''aaaaa'' else ''bbbbb''), draws = 0\<rparr>"

definition static_world :: world where
  "static_world = demo_world\<lparr>heap := (heap demo_world)(0 \<mapsto> demo_root\<lparr>chain := [attr_token ''a'']\<rparr>)\<rparr>"

definition nest_child :: gremlin where
  "nest_child = demo_root\<lparr>bound_param := ''bbbbb'', bound_params := [(''GPY_PARAM_bbbbb_1'', VStr ''x'')],
     bound_count := 1\<rparr>"

definition nest_world :: world where
  "nest_world = demo_world\<lparr>heap := Map.empty(0 \<mapsto> demo_root, 1 \<mapsto> nest_child)\<rparr>"

lemma demo_ancestry: "ancestry demo_world 1 [1, 0]"
proof -
  have "ancestry demo_world 0 [0]"
    by (rule anc_root [of _ _ demo_root]) (simp_all add: demo_world_def demo_root_def parent_gid_def)
  then show ?thesis
    by (rule anc_step [of _ _ demo_child 0, rotated 2])
       (simp_all add: demo_world_def demo_child_def demo_root_def parent_gid_def)
qed

lemma demo_child_name: "param_name demo_child None = ''GPY_PARAM_bbbbb_1''"
  by code_simp

lemma demo_keyless: "keyless_on demo_world [1, 0] (VStr ''x'')"
  by (simp add: keyless_on_def not_key_def demo_world_def demo_child_def demo_root_def)

section \<open>Witnesses\<close>

theorem bind_param_spec_witness:
  "ancestry demo_world 1 [1, 0] \<and> heap demo_world 1 = Some demo_child \<and> length [1, 0::nat] \<le> 2 \<and>
   hashable (VStr ''x'') \<and> keyless_on demo_world [1, 0] (VStr ''x'') \<and>
   VStr ''x'' \<noteq> VStr (param_name demo_child None) \<and>
   bind_param 2 1 (VStr ''x'') None demo_world =
     (Inr (''GPY_PARAM_bbbbb_1'', VStr ''x''), fold (bump ''GPY_PARAM_bbbbb_1'' (VStr ''x'')) [1, 0] demo_world)"
proof -
  have h: "heap demo_world 1 = Some demo_child" by (simp add: demo_world_def)
  have l: "length [1, 0::nat] \<le> 2" by simp
  have hv: "hashable (VStr ''x'')" by (simp add: hashable_def)
  have nn: "VStr ''x'' \<noteq> VStr (param_name demo_child None)" by (simp add: demo_child_name)
  show ?thesis
    using bind_param_spec [OF demo_ancestry h l hv demo_keyless nn] demo_ancestry h hv demo_keyless nn
    by (simp add: demo_child_name)
qed

theorem bind_param_propagates_witness:
  "\<exists>w' A'. bind_param 2 1 (VStr ''x'') None demo_world = (Inr (''GPY_PARAM_bbbbb_1'', VStr ''x''), w') \<and>
     heap w' 0 = Some A' \<and> map_of (bound_params A') ''GPY_PARAM_bbbbb_1'' = Some (VStr ''x'')"
proof -
  have h: "heap demo_world 1 = Some demo_child" by (simp add: demo_world_def)
  have l: "length [1, 0::nat] \<le> 2" by simp
  have hv: "hashable (VStr ''x'')" by (simp add: hashable_def)
  have nn: "VStr ''x'' \<noteq> VStr (param_name demo_child None)" by (simp add: demo_child_name)
  show ?thesis
    using bind_param_propagates [OF demo_ancestry h l hv demo_keyless nn, of 0] by (simp add: demo_child_name)
qed

theorem bind_param_backref_witness:
  "bind_param (Suc 0) 0 (VStr ''GPY_PARAM_aaaaa_1'') None bound_world =
     (Inr (''GPY_PARAM_aaaaa_1'', VStr ''arg''),
      set_gremlin 0 (demo_root\<lparr>bound_params := [(''GPY_PARAM_aaaaa_1'', VStr ''arg'')], bound_count := Suc (Suc 0)\<rparr>)
        bound_world)"
proof -
  let ?G = "demo_root\<lparr>bound_params := [(''GPY_PARAM_aaaaa_1'', VStr ''arg'')], bound_count := 1\<rparr>"
  have h: "heap bound_world 0 = Some ?G" by (simp add: bound_world_def)
  have p: "parent_gid ?G = None" by (simp add: demo_root_def parent_gid_def)
  have m: "map_of (bound_params ?G) ''GPY_PARAM_aaaaa_1'' = Some (VStr ''arg'')" by simp
  show ?thesis using bind_param_backref [OF h p m, where f=0 and nm=None] by (simp del: bind_param.simps)
qed

theorem bind_param_returns_witness:
  "ancestry demo_world 1 [1, 0] \<and> vals_hashable demo_world \<and>
   (\<exists>r w'. bind_param 2 1 (VStr ''x'') None demo_world = (Inr r, w'))"
proof -
  have vh: "vals_hashable demo_world"
    by (simp add: vals_hashable_def demo_world_def demo_child_def demo_root_def)
  have hv: "hashable (VStr ''x'')" by (simp add: hashable_def)
  show ?thesis using bind_param_returns [OF demo_ancestry _ hv vh, of 2 None] demo_ancestry vh by simp
qed

theorem bind_param_cycle_witness:
  "parent_closed loop_world {0} \<and> fst (bind_param 1000 0 (VStr ''x'') None loop_world) = Inl RecursionError"
proof -
  have pc: "parent_closed loop_world {0}"
    by (simp add: parent_closed_def loop_world_def parent_gid_def)
  have vh: "vals_hashable loop_world"
    by (simp add: vals_hashable_def loop_world_def demo_world_def demo_root_def)
  have hv: "hashable (VStr ''x'')" by (simp add: hashable_def)
  show ?thesis using bind_param_cycle [OF pc _ hv vh, of 0 1000 None] pc by simp
qed

theorem gen_name_inj_witness:
  "CHR ''_'' \<notin> set ''aaaaa'' \<and> CHR ''_'' \<notin> set ''bbbbb'' \<and> gen_name ''aaaaa'' 1 \<noteq> gen_name ''bbbbb'' 1"
  using gen_name_inj [of "''aaaaa''" "''bbbbb''" 1 1] by simp

theorem ll_call_splice_witness:
  "ll_inv demo_chain [0, 1] \<and> (2::nat) \<notin> set [0, 1] \<and> nxt demo_chain 2 = None \<and>
   (\<exists>l'. ll_call_splice demo_chain 2 = Some l' \<and> ll_inv l' [0, 2])"
proof -
  have i: "ll_inv demo_chain [0, 1]" by (simp add: ll_inv_def demo_chain_def)
  have n: "nxt demo_chain 2 = None" by (simp add: demo_chain_def)
  show ?thesis using ll_call_splice_refines [OF i _ n] i n by simp
qed

theorem ll_add_witness:
  "ll_inv demo_chain [0, 1] \<and> (2::nat) \<notin> set [0, 1] \<and> nxt demo_chain 2 = None \<and>
   ll_inv (ll_add demo_chain 2) [0, 1, 2]"
proof -
  have i: "ll_inv demo_chain [0, 1]" by (simp add: ll_inv_def demo_chain_def)
  have n: "nxt demo_chain 2 = None" by (simp add: demo_chain_def)
  show ?thesis using ll_add_refines [OF i _ n] i n by simp
qed

theorem ll_remove_token_witness:
  "ll_inv demo_chain [0, 1] \<and>
   (\<exists>l'. ll_remove_token demo_chain 1 = Some l' \<and> lseg (nxt l') (Some (top l')) [0])"
proof -
  have i: "ll_inv demo_chain [0, 1]" by (simp add: ll_inv_def demo_chain_def)
  show ?thesis using ll_remove_token_refines [OF i, of 1] i by (simp; blast)
qed

theorem join_chain_graph_variable_witness:
  "''g'' \<noteq> [] \<and> join_chain [(GraphVariable, ''g''), (Attribute, ''a'')] =
     ''g'' @ first_concat [(Attribute, ''a'')] @ join_chain [(GraphVariable, []), (Attribute, ''a'')]"
  using join_chain_graph_variable [of "''g''" "[(Attribute, ''a'')]"] by simp

theorem token_init_stmt_free_witness:
  "token_init 5 0 Attribute (VStr ''a'') [] demo_world = (Inr (attr_token ''a''), demo_world) \<and>
   tok_ok (attr_token ''a'')"
proof -
  have r: "token_init 5 0 Attribute (VStr ''a'') [] demo_world = (Inr (attr_token ''a''), demo_world)"
    by (simp add: token_init_def demo_world_def attr_token_def numeral_eq_Suc)
  show ?thesis using token_init_stmt_free [OF r] r by simp
qed

theorem render_gremlin_static_witness:
  "render_gremlin 3 0 static_world = (Inr ''g.a'', static_world)"
proof -
  have h: "heap static_world 0 = Some (demo_root\<lparr>chain := [attr_token ''a'']\<rparr>)"
    by (simp add: static_world_def)
  have pt: "plain (top_value (demo_root\<lparr>chain := [attr_token ''a'']\<rparr>))" by (simp add: demo_root_def)
  have pr: "plain (return_var (demo_root\<lparr>chain := [attr_token ''a'']\<rparr>))" by (simp add: demo_root_def)
  have st: "\<forall>t\<in>set (chain (demo_root\<lparr>chain := [attr_token ''a'']\<rparr>)). static_text t \<noteq> None"
    by (simp add: static_text_def attr_token_def)
  show ?thesis using render_gremlin_static [OF h pt pr st, of 0]
    by (simp add: demo_root_def static_text_def attr_token_def join_chain_def loop_step_def numeral_eq_Suc)
qed

theorem pred_str_ok_iff_witness:
  "fst (pred_str 1 (Pred ''eq'' (Some ''eq'') [VStr ''x'']) demo_world) = Inr ''eq(x)''"
  using pred_str_ok_iff [of 1 "''eq''" "Some ''eq''" "[VStr ''x'']" demo_world "''eq(x)''"]
  by (auto intro: exI [of _ "[''x'']"])


theorem set_parent_gremlin_spec_witness:
  "\<exists>w'. set_parent_gremlin 2 1 (PGremlin 0) nest_world = (Inr [(''GPY_PARAM_bbbbb_1'', VStr ''x'')], w') \<and>
     heap w' 0 = Some (demo_root\<lparr>bound_count := 1, bound_params := [(''GPY_PARAM_bbbbb_1'', VStr ''x'')]\<rparr>)"
proof -
  have anc: "ancestry nest_world 0 [0]"
    by (rule anc_root [of _ _ demo_root]) (simp_all add: nest_world_def demo_root_def parent_gid_def)
  have h: "heap nest_world 1 = Some nest_child" by (simp add: nest_world_def)
  have vs: "\<forall>(k, v)\<in>set (bound_params nest_child). hashable v \<and> keyless_on nest_world [0] v \<and>
           (\<forall>k'\<in>fst ` set (bound_params nest_child). v \<noteq> VStr k')"
    by (simp add: nest_child_def demo_root_def hashable_def keyless_on_def not_key_def nest_world_def)
  show ?thesis
    using set_parent_gremlin_spec [OF anc h _ _ _ vs]
    by (simp add: nest_child_def demo_root_def bump_def nest_world_def set_gremlin_def)
qed

theorem set_parent_propagates_witness:
  "\<exists>w' A'. set_parent_gremlin 2 1 (PGremlin 0) nest_world = (Inr [(''GPY_PARAM_bbbbb_1'', VStr ''x'')], w') \<and>
     heap w' 0 = Some A' \<and> map_of (bound_params A') ''GPY_PARAM_bbbbb_1'' = Some (VStr ''x'')"
proof -
  have anc: "ancestry nest_world 0 [0]"
    by (rule anc_root [of _ _ demo_root]) (simp_all add: nest_world_def demo_root_def parent_gid_def)
  have h: "heap nest_world 1 = Some nest_child" by (simp add: nest_world_def)
  have vs: "\<forall>(k, v)\<in>set (bound_params nest_child). hashable v \<and> keyless_on nest_world [0] v \<and>
           (\<forall>k'\<in>fst ` set (bound_params nest_child). v \<noteq> VStr k')"
    by (simp add: nest_child_def demo_root_def hashable_def keyless_on_def not_key_def nest_world_def)
  have m: "(''GPY_PARAM_bbbbb_1'', VStr ''x'') \<in> set (bound_params nest_child)" by (simp add: nest_child_def)
  show ?thesis
    using set_parent_propagates [OF anc h _ _ _ vs _ m, of 2 0] by (simp add: nest_child_def)
qed

theorem bind_params_appends_witness:
  "\<exists>w'. bind_params 3 0 [VStr ''x'', VStr ''y''] demo_world =
     (Inr [(''GPY_PARAM_aaaaa_1'', VStr ''x''), (''GPY_PARAM_aaaaa_2'', VStr ''y'')], w')"
proof -
  have h: "heap demo_world 0 = Some demo_root" by (simp add: demo_world_def)
  have p: "parent demo_root = None" by (simp add: demo_root_def)
  have a3: "\<forall>s\<in>set [''x'', ''y'']. map_of (bound_params demo_root) s = None \<and> take 10 s \<noteq> ''GPY_PARAM_''"
    by (simp add: demo_root_def)
  have a4: "\<forall>n > bound_count demo_root. map_of (bound_params demo_root) (gen_name (bound_param demo_root) n) = None"
    by (simp add: demo_root_def)
  have n: "gen_name ''aaaaa'' 1 = ''GPY_PARAM_aaaaa_1''" "gen_name ''aaaaa'' 2 = ''GPY_PARAM_aaaaa_2''"
    by code_simp+
  show ?thesis using bind_params_appends [OF h p a3 a4, of 2] n
    by (simp add: demo_root_def upt_rec numeral_2_eq_2 numeral_3_eq_3)
qed

theorem reset_then_render_witness:
  "bindE (reset 0) (render 3) demo_world = (Inr (''g'', []), snd (reset 0 demo_world))"
proof -
  have h: "heap demo_world 0 = Some demo_root" by (simp add: demo_world_def)
  show ?thesis using reset_then_render [OF h, of 0] by (simp add: demo_root_def numeral_3_eq_3)
qed

end
